(* ===== verification/Prelude.thy ===== *)
theory Prelude
  imports Main "HOL-Library.Word" "HOL-Library.Product_Lexorder"
begin

text \<open>
  Shared vocabulary of the development: the machine types of the model (8-bit
  channel values, filesystem paths), the printing of paths and natural numbers,
  Python's descending stable sort (\<open>list.sort(key=..., reverse=True)\<close>), the
  counting loop behind a histogram
  (\<open>hist[a] += 1\<close> over a list), and the lemma collection \<open>image_simps\<close>
  that the component theories fill with their evaluation rules.
\<close>

named_theorems image_simps "evaluation rules of the image model"

type_synonym u8 = "8 word"

text \<open>A filesystem path is the list of its components; \<open>os.path.join\<close> is append.\<close>

type_synonym path = "string list"

subsection \<open>Printing\<close>

text \<open>A path printed with \<open>/\<close> between its components, as \<open>str(path)\<close> prints it.\<close>

fun path_str :: "path \<Rightarrow> string" where
  "path_str [] = []"
| "path_str [c] = c"
| "path_str (c # cs) = c @ ''/'' @ path_str cs"

text \<open>Decimal digits of a natural number, as in an f-string.\<close>

fun nat_str :: "nat \<Rightarrow> string" where
  "nat_str n = (if n < 10 then [char_of (48 + n)] else nat_str (n div 10) @ [char_of (48 + n mod 10)])"

declare nat_str.simps [simp del]

subsection \<open>8-bit values\<close>

lemma unat_u8_less [simp]: "unat (x :: u8) < 256"
  using unsigned_less [of x] by simp

lemma u8_pos_iff_unat: "(0 < (x :: u8)) = (0 < unat x)"
  by (simp add: unat_gt_0 word_gt_0)

subsection \<open>Lists\<close>

lemma nth_list_update_if:
  "xs[i := x] ! j = (if i = j \<and> i < length xs then x else xs ! j)"
  by (cases "i < length xs") (auto simp: nth_list_update list_update_beyond)

lemma count_list_pos_iff: "(0 < count_list xs x) = (x \<in> set xs)"
  using count_list_0_iff [of xs x] by auto

lemma mem_zip_upt:
  "((a, c) \<in> set (zip [0..<length xs] xs)) = (a < length xs \<and> c = xs ! a)"
proof
  assume "(a, c) \<in> set (zip [0..<length xs] xs)"
  then show "a < length xs \<and> c = xs ! a" by (auto simp: set_zip)
next
  assume a: "a < length xs \<and> c = xs ! a"
  then have "zip [0..<length xs] xs ! a \<in> set (zip [0..<length xs] xs)"
    by (intro nth_mem) simp
  with a show "(a, c) \<in> set (zip [0..<length xs] xs)"
    by simp
qed

lemma butlast_neq_self [simp]:
  "xs \<noteq> [] \<Longrightarrow> butlast xs \<noteq> xs" "xs \<noteq> [] \<Longrightarrow> xs \<noteq> butlast xs"
  by (cases xs rule: rev_cases; simp)+

lemma sum_list_indicator:
  "(\<Sum>x\<leftarrow>xs. if P x then 1 else 0) = (length (filter P xs) :: nat)"
  by (induction xs) auto

subsection \<open>Python's \<open>sort(key=k, reverse=True)\<close>\<close>

text \<open>
  CPython sorts with \<open>reverse=True\<close> by reversing the list, sorting it stably in
  ascending order and reversing the result: elements with equal keys keep their
  original order, and the keys come out in descending order.
\<close>

definition py_sort_desc :: "('a \<Rightarrow> 'k::linorder) \<Rightarrow> 'a list \<Rightarrow> 'a list" where
  "py_sort_desc k xs = rev (sort_key k (rev xs))"

lemma set_py_sort_desc [simp]: "set (py_sort_desc k xs) = set xs"
  by (simp add: py_sort_desc_def)

lemma length_py_sort_desc [simp]: "length (py_sort_desc k xs) = length xs"
  by (simp add: py_sort_desc_def)

lemma py_sort_desc_eq_Nil_iff [simp]: "(py_sort_desc k xs = []) = (xs = [])"
  using length_py_sort_desc [of k xs] by (metis length_0_conv)

lemma distinct_py_sort_desc [simp]: "distinct (py_sort_desc k xs) = distinct xs"
  by (simp add: py_sort_desc_def)

lemma sorted_desc_py_sort_desc: "sorted_wrt (\<ge>) (map k (py_sort_desc k xs))"
proof -
  have "sorted (map k (sort_key k (rev xs)))" by simp
  then show ?thesis
    by (simp add: py_sort_desc_def rev_map [symmetric] sorted_wrt_rev)
qed

lemma py_sort_desc_nth_ge:
  assumes "i < j" "j < length xs"
  shows "k (py_sort_desc k xs ! j) \<le> k (py_sort_desc k xs ! i)"
proof -
  have "sorted_wrt (\<ge>) (map k (py_sort_desc k xs))"
    by (rule sorted_desc_py_sort_desc)
  with assms show ?thesis
    by (auto simp: sorted_wrt_iff_nth_less)
qed

subsection \<open>Counting loops\<close>

text \<open>
  The loop \<open>for x in xs: if P(x): h[f(x)] += 1\<close>, with every index in range,
  adds to each cell the number of elements that hit it.
\<close>

lemma fold_count_update_length [simp]:
  "length (fold (\<lambda>x h. if P x then h[f x := h ! f x + 1] else h) xs h) = length h"
  by (induction xs arbitrary: h) auto

lemma fold_count_update_nth:
  assumes "\<forall>x\<in>set xs. P x \<longrightarrow> f x < length h" "i < length h"
  shows "fold (\<lambda>x h. if P x then h[f x := h ! f x + 1] else h) xs h ! i
           = h ! i + length (filter (\<lambda>x. P x \<and> f x = i) xs)"
  using assms
proof (induction xs arbitrary: h)
  case Nil
  then show ?case by simp
next
  case (Cons x xs)
  let ?h = "if P x then h[f x := h ! f x + 1] else h"
  have "\<forall>y\<in>set xs. P y \<longrightarrow> f y < length ?h" and "i < length ?h"
    using Cons.prems by auto
  then have "fold (\<lambda>x h. if P x then h[f x := h ! f x + 1] else h) xs ?h ! i
               = ?h ! i + length (filter (\<lambda>x. P x \<and> f x = i) xs)"
    by (rule Cons.IH)
  with Cons.prems show ?case
    by (auto simp: nth_list_update)
qed

lemma map_pair_fst: "(\<forall>x\<in>set xs. snd x = f (fst x)) \<Longrightarrow> map (\<lambda>a. (a, f a)) (map fst xs) = xs"
  by (induction xs) auto

end
