(* ===== verification/Image.thy ===== *)
theory Image
  imports Prelude
begin

text \<open>
  The image-library collaborator (Pillow) as the script uses it: an RGBA image
  after \<open>Image.open(...).convert("RGBA")\<close> is a width, a height and a grid of
  pixels with four 8-bit channels; \<open>img.size\<close>, \<open>img.getpixel((x, y))\<close>,
  \<open>out.putpixel((x, y), px)\<close> and \<open>Image.new("RGBA", (w, h))\<close> (every pixel
  \<open>(0, 0, 0, 0)\<close>) are the operations the script calls. The grid is the list of
  rows, row \<open>y\<close> holding the pixels \<open>(0, y) .. (w - 1, y)\<close>; \<open>wf_image\<close> says
  the grid has the declared size. The nested loops
  \<open>for y in range(h): for x in range(w)\<close> visit \<open>coords w h\<close> in this order.
  A PNG of another mode (RGB, L, LA, P) is what \<open>Image.open\<close> decodes
  (\<open>decoded\<close>), and \<open>convert_rgba\<close> is Pillow's \<open>convert("RGBA")\<close> on it.
\<close>

record pixel =
  red :: u8
  green :: u8
  blue :: u8
  alpha :: u8

record image =
  width :: nat
  height :: nat
  rows :: "pixel list list"

definition blank :: pixel where
  "blank = \<lparr>red = 0, green = 0, blue = 0, alpha = 0\<rparr>"

definition new_image :: "nat \<Rightarrow> nat \<Rightarrow> image" where
  "new_image w h = \<lparr>width = w, height = h, rows = replicate h (replicate w blank)\<rparr>"

definition coords :: "nat \<Rightarrow> nat \<Rightarrow> (nat \<times> nat) list" where
  "coords w h = concat (map (\<lambda>y. map (\<lambda>x. (x, y)) [0..<w]) [0..<h])"

fun getpixel :: "image \<Rightarrow> nat \<times> nat \<Rightarrow> pixel" where
  "getpixel im (x, y) = rows im ! y ! x"

fun putpixel :: "image \<Rightarrow> nat \<times> nat \<Rightarrow> pixel \<Rightarrow> image" where
  "putpixel im (x, y) p = im\<lparr>rows := (rows im)[y := (rows im ! y)[x := p]]\<rparr>"

declare getpixel.simps [simp del] putpixel.simps [simp del]

definition wf_image :: "image \<Rightarrow> bool" where
  "wf_image im \<longleftrightarrow> length (rows im) = height im \<and> list_all (\<lambda>r. length r = width im) (rows im)"

text \<open>The pixels in the order the script's loops read them.\<close>

definition pixels :: "image \<Rightarrow> pixel list" where
  "pixels im = map (getpixel im) (coords (width im) (height im))"

text \<open>The reference transformation: a pixel function applied at every position.\<close>

definition map_image :: "(pixel \<Rightarrow> pixel) \<Rightarrow> image \<Rightarrow> image" where
  "map_image f im = im\<lparr>rows := map (map f) (rows im)\<rparr>"

text \<open>
  Sample inputs from the scenarios of the specification: the 2\<open>\<times>\<close>1 image
  \<open>[(255,0,0,102), (0,255,0,38)]\<close>, an image whose only alphas are 0 and 200, and
  a fully transparent one.
\<close>

definition px :: "u8 \<Rightarrow> u8 \<Rightarrow> u8 \<Rightarrow> u8 \<Rightarrow> pixel" where
  "px r g b a = \<lparr>red = r, green = g, blue = b, alpha = a\<rparr>"

definition two_mode_sample :: image where
  "two_mode_sample = \<lparr>width = 2, height = 1, rows = [[px 255 0 0 102, px 0 255 0 38]]\<rparr>"

definition one_mode_sample :: image where
  "one_mode_sample = \<lparr>width = 2, height = 2,
     rows = [[px 10 20 30 200, px 0 0 0 0], [px 0 0 0 0, px 40 50 60 200]]\<rparr>"

definition clear_sample :: image where
  "clear_sample = \<lparr>width = 1, height = 1, rows = [[px 1 2 3 0]]\<rparr>"

subsection \<open>Other PNG modes and \<open>convert("RGBA")\<close>\<close>

text \<open>
  \<open>Image.open\<close> returns a PNG in the mode of its colour type; the script converts
  it to RGBA at once. An 8-bit PNG is RGBA (colour type 6, the \<open>image\<close> above),
  RGB (type 2), greyscale L (type 0), greyscale with alpha LA (type 4) or
  palette P (type 3). A \<open>tRNS\<close> chunk gives RGB and L images one transparent
  colour, and P images an alpha for each of the first palette entries. Pillow's
  \<open>convert("RGBA")\<close> adds alpha 255 to RGB and L pixels, or 0 on the
  transparent colour; it spreads the grey value of L and LA over the three
  colour channels; and it looks a P pixel up in the palette, with the \<open>tRNS\<close>
  alpha of its index or 255 (an index beyond the palette, which a valid file
  does not contain, reads Pillow's default entry \<open>(i, i, i)\<close>).
\<close>

record 'p raster =
  rwidth :: nat
  rheight :: nat
  rrows :: "'p list list"

type_synonym rgb = "u8 \<times> u8 \<times> u8"

datatype decoded =
    ModeRGB "rgb option" "rgb raster"
  | ModeL "u8 option" "u8 raster"
  | ModeLA "(u8 \<times> u8) raster"
  | ModeP "rgb list" "u8 list" "u8 raster"

definition raster_wf :: "'p raster \<Rightarrow> bool" where
  "raster_wf r \<longleftrightarrow> length (rrows r) = rheight r \<and> list_all (\<lambda>row. length row = rwidth r) (rrows r)"

definition raster_map :: "('p \<Rightarrow> pixel) \<Rightarrow> 'p raster \<Rightarrow> image" where
  "raster_map f r = \<lparr>width = rwidth r, height = rheight r, rows = map (map f) (rrows r)\<rparr>"

definition rgb_to_rgba :: "rgb option \<Rightarrow> rgb \<Rightarrow> pixel" where
  "rgb_to_rgba key c =
     (case c of (r, g, b) \<Rightarrow> px r g b (if key = Some c then 0 else 255))"

definition l_to_rgba :: "u8 option \<Rightarrow> u8 \<Rightarrow> pixel" where
  "l_to_rgba key l = px l l l (if key = Some l then 0 else 255)"

definition la_to_rgba :: "u8 \<times> u8 \<Rightarrow> pixel" where
  "la_to_rgba la = (case la of (l, a) \<Rightarrow> px l l l a)"

definition p_to_rgba :: "rgb list \<Rightarrow> u8 list \<Rightarrow> u8 \<Rightarrow> pixel" where
  "p_to_rgba palette trns i =
     (let k = unat i;
          (r, g, b) = (if k < length palette then palette ! k else (i, i, i));
          a = (if k < length trns then trns ! k else 255)
      in px r g b a)"

fun convert_rgba :: "decoded \<Rightarrow> image" where
  "convert_rgba (ModeRGB key r) = raster_map (rgb_to_rgba key) r"
| "convert_rgba (ModeL key r) = raster_map (l_to_rgba key) r"
| "convert_rgba (ModeLA r) = raster_map la_to_rgba r"
| "convert_rgba (ModeP palette trns r) = raster_map (p_to_rgba palette trns) r"

fun decoded_wf :: "decoded \<Rightarrow> bool" where
  "decoded_wf (ModeRGB key r) = raster_wf r"
| "decoded_wf (ModeL key r) = raster_wf r"
| "decoded_wf (ModeLA r) = raster_wf r"
| "decoded_wf (ModeP palette trns r) = raster_wf r"

text \<open>The pixels of a 2\<open>\<times>\<close>1 RGB image.\<close>

definition rgb_sample :: "rgb raster" where
  "rgb_sample = \<lparr>rwidth = 2, rheight = 1, rrows = [[(255, 0, 0), (0, 0, 255)]]\<rparr>"

subsection \<open>Coordinates\<close>

lemma mem_coords [simp]: "((x, y) \<in> set (coords w h)) = (x < w \<and> y < h)"
  by (auto simp: coords_def image_iff)

lemma coords_0 [simp]: "coords w 0 = []"
  by (simp add: coords_def)

lemma coords_Suc_height: "coords w (Suc h) = coords w h @ map (\<lambda>x. (x, h)) [0..<w]"
  by (simp add: coords_def)

lemma length_coords [simp]: "length (coords w h) = w * h"
  by (induction h) (simp_all add: coords_Suc_height)

lemma distinct_coords: "distinct (coords w h)"
proof (induction h)
  case 0
  then show ?case by simp
next
  case (Suc h)
  have "\<forall>xy\<in>set (coords w h). snd xy < h"
    by auto
  with Suc show ?case
    by (auto simp: coords_Suc_height distinct_map inj_on_def)
qed

subsection \<open>Well-formed images\<close>

lemma wf_imageD:
  "wf_image im \<Longrightarrow> y < height im \<Longrightarrow> length (rows im ! y) = width im"
  by (auto simp: wf_image_def list_all_length)

lemma wf_new_image [simp]: "wf_image (new_image w h)"
  by (simp add: wf_image_def new_image_def list_all_length)

lemma new_image_dims [simp, image_simps]:
  "width (new_image w h) = w" "height (new_image w h) = h"
  by (simp_all add: new_image_def)

lemma getpixel_new_image:
  "x < w \<Longrightarrow> y < h \<Longrightarrow> getpixel (new_image w h) (x, y) = blank"
  by (simp add: new_image_def getpixel.simps)

lemma putpixel_dims [simp]:
  "width (putpixel im xy p) = width im" "height (putpixel im xy p) = height im"
  by (cases xy; simp add: putpixel.simps)+

lemma wf_putpixel [simp]: "wf_image im \<Longrightarrow> wf_image (putpixel im xy p)"
  by (cases xy) (auto simp: wf_image_def list_all_length nth_list_update_if putpixel.simps)

lemma getpixel_putpixel:
  assumes "wf_image im" "x < width im" "y < height im"
  shows "getpixel (putpixel im (x', y') p) (x, y) =
           (if (x, y) = (x', y') then p else getpixel im (x, y))"
  using assms wf_imageD [OF assms(1,3)]
  by (auto simp: wf_image_def nth_list_update_if getpixel.simps putpixel.simps)

lemma image_eqI:
  fixes a b :: image
  assumes "wf_image a" "wf_image b" "width a = width b" "height a = height b"
    and "\<And>x y. x < width a \<Longrightarrow> y < height a \<Longrightarrow> getpixel a (x, y) = getpixel b (x, y)"
  shows "a = b"
proof -
  have "rows a = rows b"
  proof (rule nth_equalityI)
    show "length (rows a) = length (rows b)"
      using assms(1-4) by (simp add: wf_image_def)
  next
    fix y assume y: "y < length (rows a)"
    then have yh: "y < height a" using assms(1) by (simp add: wf_image_def)
    show "rows a ! y = rows b ! y"
      using assms(5) [OF _ yh] wf_imageD [OF assms(1) yh] wf_imageD [OF assms(2)] yh assms(3,4)
      by (intro nth_equalityI) (auto simp: getpixel.simps)
  qed
  with assms(3,4) show ?thesis
    by (simp add: image.equality)
qed

lemma pixels_wf:
  assumes "wf_image im"
  shows "pixels im = concat (rows im)"
proof -
  have "\<And>h. h \<le> height im \<Longrightarrow>
          map (getpixel im) (coords (width im) h) = concat (take h (rows im))"
  proof -
    fix h show "h \<le> height im \<Longrightarrow> map (getpixel im) (coords (width im) h) = concat (take h (rows im))"
    proof (induction h)
      case 0
      then show ?case by (simp add: coords_def)
    next
      case (Suc h)
      then have hl: "h < length (rows im)" using assms by (simp add: wf_image_def)
      have "map (\<lambda>x. rows im ! h ! x) [0..<width im] = rows im ! h"
        using wf_imageD [OF assms, of h] Suc.prems
        by (intro nth_equalityI) auto
      with Suc hl show ?case
        by (simp add: coords_Suc_height take_Suc_conv_app_nth comp_def getpixel.simps)
    qed
  qed
  from this [of "height im"] assms show ?thesis
    by (simp add: pixels_def wf_image_def)
qed

lemma getpixel_map_image:
  "wf_image im \<Longrightarrow> x < width im \<Longrightarrow> y < height im \<Longrightarrow>
     getpixel (map_image f im) (x, y) = f (getpixel im (x, y))"
  using wf_imageD [of im y] by (simp add: map_image_def wf_image_def getpixel.simps)

lemma wf_map_image [simp]: "wf_image im \<Longrightarrow> wf_image (map_image f im)"
  by (simp add: map_image_def wf_image_def list_all_length)

lemma map_image_dims [simp]:
  "width (map_image f im) = width im" "height (map_image f im) = height im"
  by (simp_all add: map_image_def)

lemma pixels_map_image:
  "wf_image im \<Longrightarrow> pixels (map_image f im) = map f (pixels im)"
proof -
  assume wf: "wf_image im"
  then have "pixels (map_image f im) = concat (rows (map_image f im))"
    by (intro pixels_wf) simp
  with wf show ?thesis by (simp add: pixels_wf map_concat map_image_def)
qed

lemma map_image_id_on:
  "(\<And>p. p \<in> set (pixels im) \<Longrightarrow> f p = p) \<Longrightarrow> wf_image im \<Longrightarrow> map_image f im = im"
proof -
  assume f: "\<And>p. p \<in> set (pixels im) \<Longrightarrow> f p = p" and wf: "wf_image im"
  have "map (map f) (rows im) = rows im"
    using f by (intro map_idI) (auto simp: pixels_wf [OF wf])
  then show ?thesis by (simp add: map_image_def)
qed

subsection \<open>The putpixel loop\<close>

text \<open>
  Writing \<open>F (x, y)\<close> at every position of a list, in any order, leaves
  \<open>F (x, y)\<close> at each listed in-range position and the old pixel elsewhere.
\<close>

lemma fold_putpixel_wf:
  "wf_image out \<Longrightarrow> wf_image (fold (\<lambda>xy out'. putpixel out' xy (F xy)) L out)
    \<and> width (fold (\<lambda>xy out'. putpixel out' xy (F xy)) L out) = width out
    \<and> height (fold (\<lambda>xy out'. putpixel out' xy (F xy)) L out) = height out"
  by (induction L arbitrary: out) auto

lemma fold_putpixel_get:
  assumes "wf_image out" "x < width out" "y < height out"
  shows "getpixel (fold (\<lambda>xy out'. putpixel out' xy (F xy)) L out) (x, y)
           = (if (x, y) \<in> set L then F (x, y) else getpixel out (x, y))"
  using assms
proof (induction L arbitrary: out)
  case Nil
  then show ?case by simp
next
  case (Cons xy L)
  obtain x' y' where xy: "xy = (x', y')" by (cases xy)
  let ?out' = "putpixel out xy (F xy)"
  have "getpixel (fold (\<lambda>xy out'. putpixel out' xy (F xy)) L ?out') (x, y)
          = (if (x, y) \<in> set L then F (x, y) else getpixel ?out' (x, y))"
    using Cons.prems by (intro Cons.IH) auto
  with Cons.prems show ?case
    by (auto simp: xy getpixel_putpixel)
qed

text \<open>
  Over all coordinates of a well-formed image, starting from a new image of
  its size, the loop computes the pointwise map.
\<close>

lemma fold_putpixel_map_image:
  fixes im :: image
  assumes "wf_image im"
  shows "fold (\<lambda>xy out'. putpixel out' xy (f (getpixel im xy)))
           (coords (width im) (height im)) (new_image (width im) (height im))
         = map_image f im"
proof (rule image_eqI)
  let ?out'ut = "new_image (width im) (height im)"
  let ?r = "fold (\<lambda>xy out'. putpixel out' xy (f (getpixel im xy))) (coords (width im) (height im)) ?out'ut"
  have r: "wf_image ?r \<and> width ?r = width im \<and> height ?r = height im"
    using fold_putpixel_wf [of ?out'ut] by simp
  then show "wf_image ?r" "width ?r = width (map_image f im)" "height ?r = height (map_image f im)"
    by simp_all
  show "wf_image (map_image f im)" using assms by simp
  fix x y assume "x < width ?r" "y < height ?r"
  with r have "x < width im" "y < height im" by simp_all
  then show "getpixel ?r (x, y) = getpixel (map_image f im) (x, y)"
    using fold_putpixel_get [of ?out'ut x y] assms by (simp add: getpixel_map_image)
qed


subsection \<open>Converted images\<close>

lemma wf_raster_map [simp]: "wf_image (raster_map f r) = raster_wf r"
  by (simp add: raster_map_def wf_image_def raster_wf_def list_all_length)

lemma wf_convert_rgba [simp]: "wf_image (convert_rgba d) = decoded_wf d"
  by (cases d) simp_all

lemma getpixel_raster_map:
  "raster_wf r \<Longrightarrow> x < rwidth r \<Longrightarrow> y < rheight r \<Longrightarrow>
   getpixel (raster_map f r) (x, y) = f (rrows r ! y ! x)"
  by (auto simp: raster_map_def raster_wf_def getpixel.simps list_all_length)

lemma raster_map_dims [simp]:
  "width (raster_map f r) = rwidth r" "height (raster_map f r) = rheight r"
  by (simp_all add: raster_map_def)

lemma alpha_rgb_to_rgba [simp]: "alpha (rgb_to_rgba None c) = 255"
  by (simp add: rgb_to_rgba_def px_def split: prod.split)

lemma alpha_l_to_rgba [simp]: "alpha (l_to_rgba None l) = 255"
  by (simp add: l_to_rgba_def px_def)

lemma pixels_raster_map:
  assumes "raster_wf r"
  shows "pixels (raster_map f r) = map f (concat (rrows r))"
proof -
  have "wf_image (raster_map f r)" using assms by simp
  from pixels_wf [OF this] show ?thesis by (simp add: raster_map_def map_concat)
qed

end
