(* ===== verification/Modes.thy ===== *)
theory Modes
  imports Image
begin

text \<open>
  The mode detector, \<open>_detect_alpha_modes\<close> of
  \<open>src/scripts/make_boundary_translucent.py\<close>: a 256-cell histogram of the
  non-zero alpha values, the non-empty cells as \<open>(alpha, count)\<close> pairs, sorted by
  \<open>(count, alpha)\<close> in descending order, the first two alphas reported as
  \<open>(high, low)\<close> with the larger alpha first. The abstract contract is
  \<open>is_top_two\<close>: the reported pair is the pair of non-zero alphas that rank
  above every other one by \<open>(count, alpha)\<close>.
\<close>

subsection \<open>Definitions\<close>

text \<open>One iteration of the histogram loop (lines 97--100).\<close>

definition hist_step :: "image \<Rightarrow> nat \<times> nat \<Rightarrow> nat list \<Rightarrow> nat list" where
  "hist_step img xy hist =
     (let a = alpha (getpixel img xy)
      in if 0 < a then hist[unat a := hist ! unat a + 1] else hist)"

definition alpha_histogram :: "image \<Rightarrow> nat list" where
  "alpha_histogram img =
     fold (hist_step img) (coords (width img) (height img)) (replicate 256 0)"

text \<open>\<open>[(a, c) for a, c in enumerate(hist) if a > 0 and c > 0]\<close>\<close>

definition non_zero_entries :: "nat list \<Rightarrow> (nat \<times> nat) list" where
  "non_zero_entries hist =
     filter (\<lambda>(a, c). 0 < a \<and> 0 < c) (zip [0..<length hist] hist)"

text \<open>The sort key \<open>lambda t: (t[1], t[0])\<close>.\<close>

fun mode_key :: "nat \<times> nat \<Rightarrow> nat \<times> nat" where
  "mode_key (a, c) = (c, a)"

definition detect_alpha_modes :: "image \<Rightarrow> nat option \<times> nat option" where
  "detect_alpha_modes img =
     (let non_zero = non_zero_entries (alpha_histogram img)
      in if non_zero = [] then (None, None)
         else
           let top = map fst (take 2 (py_sort_desc mode_key non_zero))
           in if length top = 1 then (Some (top ! 0), None)
              else
                let (high, low) = (if top ! 0 \<ge> top ! 1 then (top ! 0, top ! 1)
                                   else (top ! 1, top ! 0))
                in (Some high, Some low))"

text \<open>The list \<open>non_zero\<close> after \<open>non_zero.sort(key=..., reverse=True)\<close> (line 105).\<close>

definition sorted_entries :: "image \<Rightarrow> (nat \<times> nat) list" where
  "sorted_entries img = py_sort_desc mode_key (non_zero_entries (alpha_histogram img))"

subsection \<open>Abstract view of an image's alpha channel\<close>

definition alphas :: "image \<Rightarrow> nat list" where
  "alphas img = map (\<lambda>p. unat (alpha p)) (pixels img)"

definition alpha_count :: "image \<Rightarrow> nat \<Rightarrow> nat" where
  "alpha_count img v = count_list (alphas img) v"

definition nonzero_alphas :: "image \<Rightarrow> nat list" where
  "nonzero_alphas img = filter (\<lambda>v. 0 < v) (alphas img)"

text \<open>
  The contract of the detector: \<open>h\<close> and \<open>l\<close> are non-zero alphas of the image,
  \<open>h\<close> the larger, and every other non-zero alpha ranks strictly below both by
  \<open>(count, alpha)\<close>.
\<close>

definition is_top_two :: "(nat \<Rightarrow> nat) \<Rightarrow> nat list \<Rightarrow> nat \<Rightarrow> nat \<Rightarrow> bool" where
  "is_top_two cnt vs h l \<longleftrightarrow>
     h \<in> set vs \<and> l \<in> set vs \<and> l < h \<and>
     (\<forall>v\<in>set vs. v \<noteq> h \<and> v \<noteq> l \<longrightarrow> (cnt v, v) < (cnt h, h) \<and> (cnt v, v) < (cnt l, l))"

text \<open>
  The contract of the whole detector, one case per shape of its result: no mode
  when no pixel is visible, one mode when exactly one non-zero alpha occurs, the
  top two otherwise; never a low mode without a high one.
\<close>

fun modes_contract :: "(nat \<Rightarrow> nat) \<Rightarrow> nat list \<Rightarrow> nat option \<times> nat option \<Rightarrow> bool" where
  "modes_contract cnt vs (None, None) = (vs = [])"
| "modes_contract cnt vs (Some v, None) = (set vs = {v})"
| "modes_contract cnt vs (Some h, Some l) = is_top_two cnt vs h l"
| "modes_contract cnt vs (None, Some l) = False"

subsection \<open>The histogram\<close>

lemma hist_step_eq:
  "hist_step img = (\<lambda>xy hist. if 0 < alpha (getpixel img xy)
      then hist[unat (alpha (getpixel img xy)) := hist ! unat (alpha (getpixel img xy)) + 1]
      else hist)"
  by (simp add: hist_step_def Let_def fun_eq_iff)

lemma length_alpha_histogram: "length (alpha_histogram img) = 256"
  by (simp add: alpha_histogram_def hist_step_eq)

lemma alpha_histogram_nth:
  assumes "v < 256"
  shows "alpha_histogram img ! v = (if v = 0 then 0 else alpha_count img v)"
proof -
  let ?P = "\<lambda>xy. 0 < alpha (getpixel img xy)"
  let ?f = "\<lambda>xy. unat (alpha (getpixel img xy))"
  let ?cs = "coords (width img) (height img)"
  have "alpha_histogram img ! v = length (filter (\<lambda>xy. ?P xy \<and> ?f xy = v) ?cs)"
    using fold_count_update_nth [of ?cs ?P ?f "replicate 256 0" v] assms
    by (simp add: alpha_histogram_def hist_step_eq)
  also have "\<dots> = (if v = 0 then 0 else length (filter (\<lambda>xy. ?f xy = v) ?cs))"
  proof (cases "v = 0")
    case True
    then show ?thesis by (auto simp: u8_pos_iff_unat filter_empty_conv)
  next
    case False
    then have "(\<lambda>xy. ?P xy \<and> ?f xy = v) = (\<lambda>xy. ?f xy = v)"
      by (auto simp: u8_pos_iff_unat)
    with False show ?thesis by simp
  qed
  also have "length (filter (\<lambda>xy. ?f xy = v) ?cs) = alpha_count img v"
    by (simp add: alpha_count_def alphas_def pixels_def count_list_eq_length_filter
                  filter_map comp_def eq_commute)
  finally show ?thesis by simp
qed

lemma alphas_less_256: "v \<in> set (alphas img) \<Longrightarrow> v < 256"
  by (auto simp: alphas_def)

lemma mem_non_zero_entries:
  "((a, c) \<in> set (non_zero_entries hist)) = (0 < a \<and> a < length hist \<and> c = hist ! a \<and> 0 < c)"
  using mem_zip_upt [of a c hist] by (auto simp: non_zero_entries_def)

lemma mem_nonzero_alphas:
  "(v \<in> set (nonzero_alphas img)) = (0 < v \<and> 0 < alpha_count img v)"
  by (auto simp: nonzero_alphas_def alpha_count_def count_list_pos_iff)

lemma alpha_count_pos_less: "0 < alpha_count img v \<Longrightarrow> v < 256"
  by (auto simp: alpha_count_def count_list_pos_iff alphas_less_256)

lemma set_non_zero_entries:
  "set (non_zero_entries (alpha_histogram img)) =
     (\<lambda>v. (v, alpha_count img v)) ` set (nonzero_alphas img)"
  by (auto simp: mem_non_zero_entries length_alpha_histogram alpha_histogram_nth
                 mem_nonzero_alphas image_iff alpha_count_pos_less)

lemma distinct_fst_non_zero_entries: "distinct (map fst (non_zero_entries hist))"
  by (simp add: non_zero_entries_def distinct_map_filter map_fst_zip_take)

text \<open>
  The histogram is sparse: its non-zero entries are the distinct non-zero alpha
  values in increasing order, each with its count. The detector can therefore be
  evaluated without the 256 cells; the equation below is the one the code
  generator (and \<open>code_simp\<close>) uses for it.
\<close>

lemma sorted_fst_non_zero_entries: "sorted (map fst (non_zero_entries hist))"
  unfolding non_zero_entries_def
  by (rule sorted_filter) (simp add: map_fst_zip_take)

lemma non_zero_entries_alpha_histogram:
  "non_zero_entries (alpha_histogram img) =
     map (\<lambda>a. (a, alpha_count img a)) (sort (remdups (nonzero_alphas img)))"
proof -
  let ?nz = "non_zero_entries (alpha_histogram img)"
  have "map fst ?nz = sort (remdups (nonzero_alphas img))"
    by (rule sorted_distinct_set_unique)
       (simp_all add: sorted_fst_non_zero_entries distinct_fst_non_zero_entries set_non_zero_entries image_image)
  moreover have "\<forall>x\<in>set ?nz. snd x = alpha_count img (fst x)"
    by (auto simp: set_non_zero_entries)
  then have "map (\<lambda>a. (a, alpha_count img a)) (map fst ?nz) = ?nz" by (rule map_pair_fst)
  ultimately show ?thesis by simp
qed

lemma detect_alpha_modes_code [code]:
  "detect_alpha_modes img =
     (let non_zero = map (\<lambda>a. (a, alpha_count img a)) (sort (remdups (nonzero_alphas img)))
      in if non_zero = [] then (None, None)
         else
           let top = map fst (take 2 (py_sort_desc mode_key non_zero))
           in if length top = 1 then (Some (top ! 0), None)
              else
                let (high, low) = (if top ! 0 \<ge> top ! 1 then (top ! 0, top ! 1)
                                   else (top ! 1, top ! 0))
                in (Some high, Some low))"
  by (simp only: detect_alpha_modes_def non_zero_entries_alpha_histogram)

subsection \<open>The sorted entries and the result of the detector\<close>

lemma set_sorted_entries:
  "set (sorted_entries img) = (\<lambda>v. (v, alpha_count img v)) ` set (nonzero_alphas img)"
  by (simp add: set_non_zero_entries sorted_entries_def)

lemma distinct_fst_sorted_entries: "distinct (map fst (sorted_entries img))"
proof -
  let ?nz = "non_zero_entries (alpha_histogram img)"
  have d: "distinct (map fst ?nz)" by (rule distinct_fst_non_zero_entries)
  then have "distinct ?nz" "inj_on fst (set ?nz)" by (simp_all add: distinct_map)
  then show ?thesis by (simp add: distinct_map sorted_entries_def)
qed

lemma length_sorted_entries: "length (sorted_entries img) = card (set (nonzero_alphas img))"
proof -
  let ?nz = "non_zero_entries (alpha_histogram img)"
  have "length (sorted_entries img) = length (map fst ?nz)" by (simp add: sorted_entries_def)
  also have "\<dots> = card (set (map fst ?nz))"
    by (rule distinct_card [symmetric]) (rule distinct_fst_non_zero_entries)
  also have "set (map fst ?nz) = set (nonzero_alphas img)"
    by (force simp: set_non_zero_entries image_iff)
  finally show ?thesis .
qed

lemma sorted_entries_nth:
  "i < length (sorted_entries img) \<Longrightarrow>
     fst (sorted_entries img ! i) \<in> set (nonzero_alphas img) \<and>
     sorted_entries img ! i = (fst (sorted_entries img ! i), alpha_count img (fst (sorted_entries img ! i)))"
  using nth_mem [of i "sorted_entries img"] by (auto simp: set_sorted_entries)

lemma detect_alpha_modes_sorted:
  "detect_alpha_modes img =
     (let s = sorted_entries img
      in if s = [] then (None, None)
         else if length s = 1 then (Some (fst (s ! 0)), None)
         else (Some (max (fst (s ! 0)) (fst (s ! 1))), Some (min (fst (s ! 0)) (fst (s ! 1)))))"
proof -
  let ?nz = "non_zero_entries (alpha_histogram img)"
  let ?s = "py_sort_desc mode_key ?nz"
  show ?thesis
  proof (cases "length ?nz \<le> 1")
    case True
    then have "?nz = [] \<or> length ?nz = 1"
      by (auto simp: le_Suc_eq)
    then show ?thesis
      by (auto simp: detect_alpha_modes_def Let_def take_all sorted_entries_def)
  next
    case False
    then have "map fst (take 2 ?s) ! 0 = fst (?s ! 0)" "map fst (take 2 ?s) ! 1 = fst (?s ! 1)"
      "length (map fst (take 2 ?s)) = 2"
      by auto
    with False show ?thesis
      by (auto simp: detect_alpha_modes_def Let_def max_def min_def sorted_entries_def)
  qed
qed

lemma sorted_entries_rank:
  assumes "2 \<le> length (sorted_entries img)"
    and "v \<in> set (nonzero_alphas img)"
    and "v \<noteq> fst (sorted_entries img ! 0)" "v \<noteq> fst (sorted_entries img ! 1)"
    and "i < 2"
  shows "(alpha_count img v, v) < (alpha_count img (fst (sorted_entries img ! i)), fst (sorted_entries img ! i))"
proof -
  let ?s = "sorted_entries img"
  have "(v, alpha_count img v) \<in> set ?s"
    using assms(2) by (simp add: set_sorted_entries)
  then obtain j where j: "j < length ?s" "?s ! j = (v, alpha_count img v)"
    by (auto simp: in_set_conv_nth)
  have "j \<noteq> 0"
  proof
    assume "j = 0"
    with j(2) have "fst (?s ! 0) = v" by simp
    with assms(3) show False by simp
  qed
  moreover have "j \<noteq> 1"
  proof
    assume "j = 1"
    with j(2) have "fst (?s ! 1) = v" by simp
    with assms(4) show False by simp
  qed
  ultimately have "i < j" using assms(5) by simp
  then have "mode_key (?s ! j) \<le> mode_key (?s ! i)"
    using py_sort_desc_nth_ge [of i j _ mode_key] j(1) by (simp add: sorted_entries_def)
  moreover have "?s ! i = (fst (?s ! i), alpha_count img (fst (?s ! i)))"
    using sorted_entries_nth [of i img] assms(1,5) by simp
  ultimately have "(alpha_count img v, v) \<le> (alpha_count img (fst (?s ! i)), fst (?s ! i))"
    using j(2) by (metis mode_key.simps)
  moreover have "v \<noteq> fst (?s ! i)"
    using assms(3-5) by (cases i) auto
  ultimately show ?thesis by auto
qed

lemma detect_alpha_modes_two:
  assumes "2 \<le> card (set (nonzero_alphas img))"
  obtains h l where "detect_alpha_modes img = (Some h, Some l)"
    and "is_top_two (alpha_count img) (nonzero_alphas img) h l"
proof -
  let ?s = "sorted_entries img"
  let ?a0 = "fst (?s ! 0)" and ?a1 = "fst (?s ! 1)"
  have len: "2 \<le> length ?s" using assms by (simp only: length_sorted_entries)
  then have "?s \<noteq> []" "length ?s \<noteq> 1" by auto
  then have det: "detect_alpha_modes img = (Some (max ?a0 ?a1), Some (min ?a0 ?a1))"
    by (simp add: detect_alpha_modes_sorted [of img] Let_def)
  have "?a0 \<noteq> ?a1"
    using nth_eq_iff_index_eq [OF distinct_fst_sorted_entries [of img], of 0 1] len
    by (cases "sorted_entries img = []") auto
  moreover have "?a0 \<in> set (nonzero_alphas img)" "?a1 \<in> set (nonzero_alphas img)"
  proof -
    from len have "0 < length ?s" "1 < length ?s" by linarith+
    then show "?a0 \<in> set (nonzero_alphas img)" "?a1 \<in> set (nonzero_alphas img)"
      using sorted_entries_nth by blast+
  qed
  moreover have "\<And>v. v \<in> set (nonzero_alphas img) \<Longrightarrow> v \<noteq> ?a0 \<Longrightarrow> v \<noteq> ?a1 \<Longrightarrow>
      (alpha_count img v, v) < (alpha_count img ?a0, ?a0) \<and>
      (alpha_count img v, v) < (alpha_count img ?a1, ?a1)"
    using sorted_entries_rank [OF len, of _ 0] sorted_entries_rank [OF len, of _ 1] by simp
  ultimately have "is_top_two (alpha_count img) (nonzero_alphas img) (max ?a0 ?a1) (min ?a0 ?a1)"
    unfolding is_top_two_def by (cases "?a0 < ?a1") (auto simp: max_def min_def)
  with det show ?thesis by (rule that)
qed

lemma is_top_two_rank:
  "is_top_two cnt vs h l \<Longrightarrow> v \<in> set vs \<Longrightarrow> v \<noteq> h \<Longrightarrow> v \<noteq> l \<Longrightarrow>
     (cnt v, v) < (cnt h, h) \<and> (cnt v, v) < (cnt l, l)"
  by (auto simp: is_top_two_def)

lemma is_top_two_member:
  assumes "is_top_two cnt vs h l" "is_top_two cnt vs h' l'" "x \<in> {h', l'}"
  shows "x \<in> {h, l}"
proof (rule ccontr)
  assume out: "x \<notin> {h, l}"
  have x: "x \<in> set vs" using assms(2,3) by (auto simp: is_top_two_def)
  with out have below: "(cnt x, x) < (cnt h, h)" "(cnt x, x) < (cnt l, l)"
    using is_top_two_rank [OF assms(1)] by auto
  have "h \<notin> {h', l'} \<or> l \<notin> {h', l'}"
    using out assms(1,3) by (auto simp: is_top_two_def)
  then show False
  proof
    assume "h \<notin> {h', l'}"
    then have "(cnt h, h) < (cnt x, x)"
      using is_top_two_rank [OF assms(2), of h] assms(1,3) by (auto simp: is_top_two_def)
    with below(1) show False using less_asym by blast
  next
    assume "l \<notin> {h', l'}"
    then have "(cnt l, l) < (cnt x, x)"
      using is_top_two_rank [OF assms(2), of l] assms(1,3) by (auto simp: is_top_two_def)
    with below(2) show False using less_asym by blast
  qed
qed

lemma is_top_two_unique:
  assumes "is_top_two cnt vs h l" "is_top_two cnt vs h' l'"
  shows "h' = h \<and> l' = l"
proof -
  have "h' \<in> {h, l}" "l' \<in> {h, l}"
    using is_top_two_member [OF assms] by auto
  moreover have "l < h" "l' < h'"
    using assms by (auto simp: is_top_two_def)
  ultimately show ?thesis by auto
qed

lemma card_nonzero_alphas_two:
  "is_top_two cnt (nonzero_alphas img) h l \<Longrightarrow> 2 \<le> card (set (nonzero_alphas img))"
proof -
  assume t: "is_top_two cnt (nonzero_alphas img) h l"
  then have "{h, l} \<subseteq> set (nonzero_alphas img)" "card {h, l} = 2"
    by (auto simp: is_top_two_def)
  then have "card {h, l} \<le> card (set (nonzero_alphas img))"
    by (intro card_mono) simp_all
  with \<open>card {h, l} = 2\<close> show ?thesis by simp
qed

lemma detect_alpha_modes_short:
  assumes "card (set (nonzero_alphas img)) < 2"
  shows "detect_alpha_modes img =
           (if nonzero_alphas img = [] then (None, None)
            else (Some (fst (sorted_entries img ! 0)), None))"
proof -
  have "length (sorted_entries img) < 2" using assms by (simp add: length_sorted_entries)
  moreover have "(sorted_entries img = []) = (nonzero_alphas img = [])"
  proof -
    have "(sorted_entries img = []) = (card (set (nonzero_alphas img)) = 0)"
      by (simp flip: length_sorted_entries)
    then show ?thesis by simp
  qed
  ultimately show ?thesis
    by (auto simp: detect_alpha_modes_sorted [of img] Let_def less_2_cases_iff)
qed

lemma detect_alpha_modes_top_two_iff:
  "(detect_alpha_modes img = (Some h, Some l)) =
     is_top_two (alpha_count img) (nonzero_alphas img) h l"
proof
  assume d: "detect_alpha_modes img = (Some h, Some l)"
  have "2 \<le> card (set (nonzero_alphas img))"
  proof (rule ccontr)
    assume "\<not> 2 \<le> card (set (nonzero_alphas img))"
    with d show False by (simp add: detect_alpha_modes_short split: if_splits)
  qed
  then obtain h' l' where "detect_alpha_modes img = (Some h', Some l')"
    and "is_top_two (alpha_count img) (nonzero_alphas img) h' l'"
    by (rule detect_alpha_modes_two)
  with d show "is_top_two (alpha_count img) (nonzero_alphas img) h l" by simp
next
  assume t: "is_top_two (alpha_count img) (nonzero_alphas img) h l"
  then obtain h' l' where d: "detect_alpha_modes img = (Some h', Some l')"
    and t': "is_top_two (alpha_count img) (nonzero_alphas img) h' l'"
    using detect_alpha_modes_two card_nonzero_alphas_two by blast
  from is_top_two_unique [OF t t'] d show "detect_alpha_modes img = (Some h, Some l)"
    by simp
qed

lemma detect_alpha_modes_none_iff:
  "(detect_alpha_modes img = (None, None)) = (nonzero_alphas img = [])"
proof (cases "card (set (nonzero_alphas img)) < 2")
  case True
  then show ?thesis by (simp add: detect_alpha_modes_short)
next
  case False
  then have "2 \<le> card (set (nonzero_alphas img))" by simp
  then obtain h l where "detect_alpha_modes img = (Some h, Some l)"
    by (rule detect_alpha_modes_two)
  with False show ?thesis by auto
qed

lemma detect_alpha_modes_single_iff:
  "(detect_alpha_modes img = (Some v, None)) = (set (nonzero_alphas img) = {v})"
proof (cases "card (set (nonzero_alphas img)) < 2")
  case True
  show ?thesis
  proof (cases "nonzero_alphas img = []")
    case True
    then show ?thesis by (simp add: detect_alpha_modes_short)
  next
    case False
    with True have "card (set (nonzero_alphas img)) = 1"
      by (simp add: less_2_cases_iff)
    then obtain w where w: "set (nonzero_alphas img) = {w}"
      by (rule card_1_singletonE)
    have "0 < length (sorted_entries img)"
      using w by (simp add: length_sorted_entries)
    then have "fst (sorted_entries img ! 0) \<in> set (nonzero_alphas img)"
      using sorted_entries_nth by blast
    with w True False show ?thesis by (auto simp: detect_alpha_modes_short)
  qed
next
  case False
  then have "2 \<le> card (set (nonzero_alphas img))" by simp
  then obtain h l where "detect_alpha_modes img = (Some h, Some l)"
    by (rule detect_alpha_modes_two)
  with False show ?thesis by auto
qed

lemma detect_alpha_modes_no_low_without_high:
  "detect_alpha_modes img \<noteq> (None, Some l)"
  by (simp add: detect_alpha_modes_sorted [of img] Let_def)

subsection \<open>Properties of the detector\<close>

text \<open>
  C1: for an image whose non-zero alphas are exactly two values \<open>a > b\<close>, the
  detector returns \<open>(a, b)\<close>, whichever of the two occurs more often.
\<close>

theorem detect_two_modes:
  assumes "set (nonzero_alphas img) = {a, b}" and "b < a"
  shows "detect_alpha_modes img = (Some a, Some b)"
proof -
  have "is_top_two (alpha_count img) (nonzero_alphas img) a b"
    using assms by (auto simp: is_top_two_def)
  then show ?thesis by (simp add: detect_alpha_modes_top_two_iff)
qed

theorem detect_two_modes_witness:
  "set (nonzero_alphas two_mode_sample) = {102, 38} \<and> (38::nat) < 102 \<and>
   detect_alpha_modes two_mode_sample = (Some 102, Some 38)"
proof -
  have h: "set (nonzero_alphas two_mode_sample) = {102, 38}" by code_simp
  show ?thesis using detect_two_modes [OF h] h by simp
qed

text \<open>
  C2: the detector meets its contract on every image: no mode when no pixel has a
  non-zero alpha, the single non-zero alpha when there is one, and otherwise the
  two non-zero alphas ranking highest by \<open>(count, alpha)\<close> -- ties broken towards
  the larger alpha -- reported larger first.
\<close>

theorem detect_alpha_modes_contract:
  "modes_contract (alpha_count img) (nonzero_alphas img) (detect_alpha_modes img)"
proof -
  obtain hm lm where d: "detect_alpha_modes img = (hm, lm)"
    by (cases "detect_alpha_modes img")
  have "modes_contract (alpha_count img) (nonzero_alphas img) (hm, lm)"
  proof (cases hm; cases lm)
  qed (use d detect_alpha_modes_no_low_without_high [of img] in
        \<open>simp_all add: detect_alpha_modes_none_iff detect_alpha_modes_single_iff
                  detect_alpha_modes_top_two_iff\<close>)
  with d show ?thesis by simp
qed

theorem detect_alpha_modes_contract_witness:
  "modes_contract (alpha_count two_mode_sample) (nonzero_alphas two_mode_sample)
     (detect_alpha_modes two_mode_sample) \<and>
   is_top_two (alpha_count two_mode_sample) (nonzero_alphas two_mode_sample) 102 38"
proof -
  have "is_top_two (alpha_count two_mode_sample) (nonzero_alphas two_mode_sample) 102 38"
    by code_simp
  then show ?thesis using detect_alpha_modes_contract [of two_mode_sample] by simp
qed

text \<open>
  C7: for an image with exactly one distinct non-zero alpha \<open>v\<close>, the detector
  returns \<open>(v, None)\<close>.
\<close>

theorem detect_single_mode:
  "set (nonzero_alphas img) = {v} \<Longrightarrow> detect_alpha_modes img = (Some v, None)"
  by (simp add: detect_alpha_modes_single_iff)

theorem detect_single_mode_witness:
  "set (nonzero_alphas one_mode_sample) = {200} \<and>
   detect_alpha_modes one_mode_sample = (Some 200, None)"
proof -
  have h: "set (nonzero_alphas one_mode_sample) = {200}" by code_simp
  show ?thesis using detect_single_mode [OF h] h by simp
qed

text \<open>
  C8: the detector returns \<open>(None, None)\<close> exactly when every pixel of the image
  has alpha 0.
\<close>

theorem detect_no_mode:
  "(detect_alpha_modes img = (None, None)) = (\<forall>p\<in>set (pixels img). alpha p = 0)"
proof -
  have "(nonzero_alphas img = []) = (\<forall>p\<in>set (pixels img). alpha p = 0)"
    by (auto simp: nonzero_alphas_def alphas_def filter_empty_conv unat_gt_0 unat_eq_zero)
  then show ?thesis by (simp add: detect_alpha_modes_none_iff)
qed

theorem detect_no_mode_witness:
  "detect_alpha_modes clear_sample = (None, None)"
proof -
  have h: "\<forall>p\<in>set (pixels clear_sample). alpha p = 0" by code_simp
  show ?thesis using detect_no_mode [of clear_sample] h by simp
qed

text \<open>
  C10: the histogram loop computes, for every non-zero alpha value, the number of
  pixels carrying it, and leaves cell 0 empty.
\<close>

theorem alpha_histogram_counts:
  "alpha_histogram img = map (\<lambda>v. if v = 0 then 0 else alpha_count img v) [0..<256]"
  by (rule nth_equalityI) (simp_all add: length_alpha_histogram alpha_histogram_nth)

text \<open>
  C11: every reported mode is a non-zero 8-bit alpha, and a low mode comes only with
  a strictly larger high mode, so the script's test \<open>low_mode == 0\<close> never holds.
\<close>

theorem detect_modes_bounds:
  assumes "detect_alpha_modes img = (hm, lm)"
  shows "(\<forall>h. hm = Some h \<longrightarrow> 0 < h \<and> h < 256) \<and>
         (\<forall>l. lm = Some l \<longrightarrow> 0 < l \<and> (\<exists>h. hm = Some h \<and> l < h))"
proof -
  have c: "modes_contract (alpha_count img) (nonzero_alphas img) (hm, lm)"
    using detect_alpha_modes_contract [of img] assms by simp
  have mem: "\<And>v. v \<in> set (nonzero_alphas img) \<Longrightarrow> 0 < v \<and> v < 256"
    by (auto simp: mem_nonzero_alphas alpha_count_pos_less)
  show ?thesis
  proof (cases hm; cases lm)
  qed (use c mem in \<open>auto simp: is_top_two_def\<close>)
qed

theorem detect_modes_bounds_witness:
  "detect_alpha_modes two_mode_sample = (Some 102, Some 38) \<and> 0 < (38::nat) \<and> (38::nat) < 102"
proof -
  have h: "detect_alpha_modes two_mode_sample = (Some 102, Some 38)" by code_simp
  show ?thesis using detect_modes_bounds [OF h] h by simp
qed

end
