(* ===== verification/Remap.thy ===== *)
theory Remap
  imports Modes
begin

text \<open>
  The pixel remapper, the pure part of \<open>transform_image\<close> in
  \<open>src/scripts/make_boundary_translucent.py\<close> (lines 115--142): detect the modes,
  create an output image of the same size, and for every pixel in row-major order
  write the pixel with its alpha replaced by the rule of lines 129--142, counting
  the pixels that take one of the three replacing branches in \<open>changed\<close>.
  The targets are the integers the driver computes, already known to lie in
  0..255, so they are 8-bit words here (the driver's theory shows the conversion
  is exact). The last section follows an image without an alpha channel through
  the remapper: after \<open>convert("RGBA")\<close> it is uniformly opaque and comes out
  uniformly translucent.
\<close>

subsection \<open>Definitions\<close>

text \<open>
  The body of the inner loop for one pixel: the new pixel and how much the
  \<open>changed\<close> counter grows.
\<close>

definition remap_pixel ::
  "nat option \<Rightarrow> nat option \<Rightarrow> u8 \<Rightarrow> u8 \<Rightarrow> u8 \<Rightarrow> pixel \<Rightarrow> pixel \<times> nat" where
  "remap_pixel high_mode low_mode opaque_alpha transparent_alpha lower_target_alpha p =
     (let a = alpha p
      in if (low_mode = None \<or> low_mode = Some 0) \<and> 0 < a
           then (p\<lparr>alpha := lower_target_alpha\<rparr>, 1)
         else if high_mode \<noteq> None \<and> high_mode = Some (unat a)
           then (p\<lparr>alpha := opaque_alpha\<rparr>, 1)
         else if low_mode \<noteq> None \<and> low_mode = Some (unat a)
           then (p\<lparr>alpha := transparent_alpha\<rparr>, 1)
         else (p, 0))"

text \<open>One iteration of the nested loop over \<open>(x, y)\<close>, state \<open>(out, changed)\<close>.\<close>

definition remap_step ::
  "image \<Rightarrow> nat option \<Rightarrow> nat option \<Rightarrow> u8 \<Rightarrow> u8 \<Rightarrow> u8 \<Rightarrow> nat \<times> nat \<Rightarrow>
     image \<times> nat \<Rightarrow> image \<times> nat" where
  "remap_step img high_mode low_mode opaque_alpha transparent_alpha lower_target_alpha xy st =
     (let (out, changed) = st;
          (p', d) = remap_pixel high_mode low_mode opaque_alpha transparent_alpha
                      lower_target_alpha (getpixel img xy)
      in (putpixel out xy p', changed + d))"

text \<open>The modes, the output image and the \<open>changed\<close> counter of one run.\<close>

definition transform_pixels ::
  "image \<Rightarrow> u8 \<Rightarrow> u8 \<Rightarrow> (nat option \<times> nat option) \<times> image \<times> nat" where
  "transform_pixels img opaque_alpha transparent_alpha =
     (let (high_mode, low_mode) = detect_alpha_modes img;
          w = width img; h = height img;
          out = new_image w h;
          lower_target_alpha = min opaque_alpha transparent_alpha;
          (out', changed) = fold (remap_step img high_mode low_mode opaque_alpha
                                    transparent_alpha lower_target_alpha)
                              (coords w h) (out, 0)
      in ((high_mode, low_mode), out', changed))"

text \<open>
  Whether a pixel takes one of the replacing branches of the loop: the pixels the
  diagnostic \<open>changed\<close> counts.
\<close>

definition hits_mode :: "nat option \<times> nat option \<Rightarrow> pixel \<Rightarrow> bool" where
  "hits_mode modes p \<longleftrightarrow>
     ((snd modes = None \<or> snd modes = Some 0) \<and> 0 < alpha p) \<or>
     fst modes = Some (unat (alpha p)) \<or> snd modes = Some (unat (alpha p))"

subsection \<open>The loop computes a pointwise map\<close>

lemma remap_pixel_changed:
  "snd (remap_pixel hm lm oa ta lo p) = (if hits_mode (hm, lm) p then 1 else 0)"
  by (auto simp: remap_pixel_def hits_mode_def Let_def)

lemma remap_pixel_rgb [simp]:
  "red (fst (remap_pixel hm lm oa ta lo p)) = red p"
  "green (fst (remap_pixel hm lm oa ta lo p)) = green p"
  "blue (fst (remap_pixel hm lm oa ta lo p)) = blue p"
  by (simp_all add: remap_pixel_def Let_def)

lemma fold_remap_step:
  "fold (remap_step img hm lm oa ta lo) L (out, c) =
     (fold (\<lambda>xy out'. putpixel out' xy (fst (remap_pixel hm lm oa ta lo (getpixel img xy)))) L out,
      c + sum_list (map (\<lambda>xy. snd (remap_pixel hm lm oa ta lo (getpixel img xy))) L))"
  by (induction L arbitrary: out c)
     (simp_all add: remap_step_def Let_def split_def add.assoc)

lemma transform_pixels_eq:
  fixes img :: image
  assumes "wf_image img"
  shows "transform_pixels img oa ta =
     (detect_alpha_modes img,
      map_image (\<lambda>p. fst (remap_pixel (fst (detect_alpha_modes img)) (snd (detect_alpha_modes img))
                          oa ta (min oa ta) p)) img,
      length (filter (hits_mode (detect_alpha_modes img)) (pixels img)))"
proof -
  obtain hm lm where d: "detect_alpha_modes img = (hm, lm)"
    by (cases "detect_alpha_modes img")
  let ?f = "\<lambda>p. fst (remap_pixel hm lm oa ta (min oa ta) p)"
  have "sum_list (map (\<lambda>xy. snd (remap_pixel hm lm oa ta (min oa ta) (getpixel img xy)))
          (coords (width img) (height img)))
        = length (filter (hits_mode (hm, lm)) (pixels img))"
    by (simp add: remap_pixel_changed pixels_def sum_list_indicator filter_map comp_def)
  moreover have "fold (\<lambda>xy out'. putpixel out' xy (?f (getpixel img xy)))
                   (coords (width img) (height img)) (new_image (width img) (height img))
                 = map_image ?f img"
    by (rule fold_putpixel_map_image [OF assms])
  ultimately show ?thesis
    by (simp add: transform_pixels_def d fold_remap_step)
qed

lemma remap_pixel_two_modes:
  "0 < b \<Longrightarrow> fst (remap_pixel (Some a) (Some b) oa ta lo p) =
     (if unat (alpha p) = a then p\<lparr>alpha := oa\<rparr>
      else if unat (alpha p) = b then p\<lparr>alpha := ta\<rparr> else p)"
  by (auto simp: remap_pixel_def Let_def)

lemma remap_pixel_one_mode:
  "fst (remap_pixel hm None oa ta lo p) =
     (if 0 < alpha p then p\<lparr>alpha := lo\<rparr>
      else if hm = Some (unat (alpha p)) then p\<lparr>alpha := oa\<rparr> else p)"
  by (auto simp: remap_pixel_def Let_def)

lemma transform_pixels_getpixel:
  assumes "wf_image img" "transform_pixels img oa ta = (m, out, changed)"
    and "x < width img" "y < height img"
  shows "m = detect_alpha_modes img"
    and "getpixel out (x, y) = fst (remap_pixel (fst m) (snd m) oa ta (min oa ta) (getpixel img (x, y)))"
  using assms by (auto simp: transform_pixels_eq getpixel_map_image)

subsection \<open>Properties of the remapper\<close>

text \<open>
  C3: on an image whose non-zero alphas are exactly \<open>a > b\<close>, every pixel of alpha
  \<open>a\<close> gets the opaque target, every pixel of alpha \<open>b\<close> the transparent target,
  and every other pixel (alpha 0 included) is copied unchanged; the mapping is by
  mode, whichever target is larger.
\<close>

theorem remap_two_modes:
  assumes "wf_image img" "set (nonzero_alphas img) = {a, b}" "b < a"
    and "transform_pixels img oa ta = (m, out, changed)"
    and "x < width img" "y < height img"
  shows "getpixel out (x, y) =
           (let p = getpixel img (x, y)
            in if unat (alpha p) = a then p\<lparr>alpha := oa\<rparr>
               else if unat (alpha p) = b then p\<lparr>alpha := ta\<rparr> else p)"
proof -
  have "is_top_two (alpha_count img) (nonzero_alphas img) a b"
    using assms(2,3) by (auto simp: is_top_two_def)
  then have "m = (Some a, Some b)"
    using transform_pixels_getpixel(1) [OF assms(1,4-6)] by (simp add: detect_alpha_modes_top_two_iff)
  moreover have "0 < b"
    using assms(2) by (auto simp: mem_nonzero_alphas)
  ultimately show ?thesis
    using transform_pixels_getpixel(2) [OF assms(1,4-6)] by (simp add: remap_pixel_two_modes)
qed

theorem remap_two_modes_witness:
  "wf_image two_mode_sample \<and> set (nonzero_alphas two_mode_sample) = {102, 38} \<and>
   transform_pixels two_mode_sample 26 64 =
     ((Some 102, Some 38), \<lparr>width = 2, height = 1, rows = [[px 255 0 0 26, px 0 255 0 64]]\<rparr>, 2) \<and>
   getpixel \<lparr>width = 2, height = 1, rows = [[px 255 0 0 26, px 0 255 0 64]]\<rparr> (1, 0) = px 0 255 0 64"
proof -
  have wf: "wf_image two_mode_sample" by code_simp
  have nz: "set (nonzero_alphas two_mode_sample) = {102, 38}" by code_simp
  have t: "transform_pixels two_mode_sample 26 64 =
     ((Some 102, Some 38), \<lparr>width = 2, height = 1, rows = [[px 255 0 0 26, px 0 255 0 64]]\<rparr>, 2)"
    by code_simp
  have "getpixel \<lparr>width = 2, height = 1, rows = [[px 255 0 0 26, px 0 255 0 64]]\<rparr> (1, 0) =
          (let p = getpixel two_mode_sample (1, 0)
           in if unat (alpha p) = 102 then p\<lparr>alpha := 26\<rparr>
              else if unat (alpha p) = 38 then p\<lparr>alpha := 64\<rparr> else p)"
    by (rule remap_two_modes [OF wf nz _ t]) (simp_all add: two_mode_sample_def)
  also have "\<dots> = px 0 255 0 64" by code_simp
  finally show ?thesis using t wf nz by simp
qed

text \<open>
  C4: on an image with a single non-zero alpha, every pixel with alpha > 0 gets the
  smaller of the two targets and every fully transparent pixel is copied unchanged.
\<close>

theorem remap_single_mode:
  assumes "wf_image img" "set (nonzero_alphas img) = {v}"
    and "transform_pixels img oa ta = (m, out, changed)"
    and "x < width img" "y < height img"
  shows "getpixel out (x, y) =
           (let p = getpixel img (x, y)
            in if 0 < alpha p then p\<lparr>alpha := min oa ta\<rparr> else p)"
proof -
  have "m = (Some v, None)"
    using transform_pixels_getpixel(1) [OF assms(1,3-5)] assms(2)
    by (simp add: detect_alpha_modes_single_iff)
  moreover have "0 < v"
    using assms(2) by (auto simp: mem_nonzero_alphas)
  ultimately show ?thesis
    using transform_pixels_getpixel(2) [OF assms(1,3-5)]
    by (auto simp: remap_pixel_one_mode Let_def unat_gt_0 word_gt_0)
qed

theorem remap_single_mode_witness:
  "wf_image one_mode_sample \<and> set (nonzero_alphas one_mode_sample) = {200} \<and>
   transform_pixels one_mode_sample 102 38 =
     ((Some 200, None), \<lparr>width = 2, height = 2,
        rows = [[px 10 20 30 38, px 0 0 0 0], [px 0 0 0 0, px 40 50 60 38]]\<rparr>, 2) \<and>
   getpixel \<lparr>width = 2, height = 2,
        rows = [[px 10 20 30 38, px 0 0 0 0], [px 0 0 0 0, px 40 50 60 38]]\<rparr> (0, 0) = px 10 20 30 38"
proof -
  have wf: "wf_image one_mode_sample" by code_simp
  have nz: "set (nonzero_alphas one_mode_sample) = {200}" by code_simp
  have t: "transform_pixels one_mode_sample 102 38 =
     ((Some 200, None), \<lparr>width = 2, height = 2,
        rows = [[px 10 20 30 38, px 0 0 0 0], [px 0 0 0 0, px 40 50 60 38]]\<rparr>, 2)"
    by code_simp
  have "getpixel \<lparr>width = 2, height = 2,
        rows = [[px 10 20 30 38, px 0 0 0 0], [px 0 0 0 0, px 40 50 60 38]]\<rparr> (0, 0) =
          (let p = getpixel one_mode_sample (0, 0)
           in if 0 < alpha p then p\<lparr>alpha := min 102 38\<rparr> else p)"
    by (rule remap_single_mode [OF wf nz t]) (simp_all add: one_mode_sample_def)
  also have "\<dots> = px 10 20 30 38" by code_simp
  finally show ?thesis using t wf nz by simp
qed

text \<open>
  C5: the remapper keeps the structure of the image: the output is a well-formed
  image of the same width and height, and its pixels carry the input's red, green
  and blue channels in the same order; only alpha may differ.
\<close>

theorem transform_preserves_structure:
  assumes "wf_image img" "transform_pixels img oa ta = (m, out, changed)"
  shows "wf_image out \<and> width out = width img \<and> height out = height img \<and>
         map (\<lambda>p. (red p, green p, blue p)) (pixels out) =
         map (\<lambda>p. (red p, green p, blue p)) (pixels img)"
  using assms by (auto simp: transform_pixels_eq pixels_map_image comp_def)

theorem transform_preserves_structure_witness:
  "wf_image two_mode_sample \<and>
   transform_pixels two_mode_sample 26 64 =
     ((Some 102, Some 38), \<lparr>width = 2, height = 1, rows = [[px 255 0 0 26, px 0 255 0 64]]\<rparr>, 2) \<and>
   width \<lparr>width = 2, height = 1, rows = [[px 255 0 0 26, px 0 255 0 64]]\<rparr> = width two_mode_sample"
proof -
  have wf: "wf_image two_mode_sample" by code_simp
  have t: "transform_pixels two_mode_sample 26 64 =
     ((Some 102, Some 38), \<lparr>width = 2, height = 1, rows = [[px 255 0 0 26, px 0 255 0 64]]\<rparr>, 2)"
    by code_simp
  show ?thesis using transform_preserves_structure [OF wf t] wf t by simp
qed

text \<open>
  C6: the putpixel loop over all coordinates computes, at every position of the
  image, the per-pixel rule of lines 129--142 applied to the input pixel there, with
  the detector's modes and \<open>min(opaque, transparent)\<close> as the single-mode target.
\<close>

theorem transform_pixels_pointwise:
  assumes "wf_image img" "transform_pixels img oa ta = ((hm, lm), out, changed)"
    and "x < width img" "y < height img"
  shows "(hm, lm) = detect_alpha_modes img \<and>
         getpixel out (x, y) = fst (remap_pixel hm lm oa ta (min oa ta) (getpixel img (x, y)))"
proof -
  have "detect_alpha_modes img = (hm, lm)"
    using transform_pixels_getpixel(1) [OF assms] by simp
  then show ?thesis
    using transform_pixels_getpixel(2) [OF assms] by simp
qed

theorem transform_pixels_pointwise_witness:
  "wf_image two_mode_sample \<and>
   transform_pixels two_mode_sample 26 64 =
     ((Some 102, Some 38), \<lparr>width = 2, height = 1, rows = [[px 255 0 0 26, px 0 255 0 64]]\<rparr>, 2) \<and>
   getpixel \<lparr>width = 2, height = 1, rows = [[px 255 0 0 26, px 0 255 0 64]]\<rparr> (0, 0) =
     fst (remap_pixel (Some 102) (Some 38) 26 64 (min 26 64) (getpixel two_mode_sample (0, 0)))"
proof -
  have wf: "wf_image two_mode_sample" by code_simp
  have t: "transform_pixels two_mode_sample 26 64 =
     ((Some 102, Some 38), \<lparr>width = 2, height = 1, rows = [[px 255 0 0 26, px 0 255 0 64]]\<rparr>, 2)"
    by code_simp
  have "0 < width two_mode_sample" "0 < height two_mode_sample"
    by (simp_all add: two_mode_sample_def)
  then show ?thesis using transform_pixels_pointwise [OF wf t] wf t by simp
qed

text \<open>
  C9: an image in which every pixel is fully transparent comes out unchanged, and no
  pixel is counted as changed.
\<close>

theorem transform_clear_unchanged:
  assumes "wf_image img" "\<forall>p\<in>set (pixels img). alpha p = 0"
  shows "transform_pixels img oa ta = ((None, None), img, 0)"
proof -
  have nz: "nonzero_alphas img = []"
    using assms(2) by (auto simp: nonzero_alphas_def alphas_def filter_empty_conv)
  then have d: "detect_alpha_modes img = (None, None)"
    by (simp add: detect_alpha_modes_none_iff)
  have "\<And>p. p \<in> set (pixels img) \<Longrightarrow> fst (remap_pixel None None oa ta (min oa ta) p) = p"
    using assms(2) by (simp add: remap_pixel_def)
  then have "map_image (\<lambda>p. fst (remap_pixel None None oa ta (min oa ta) p)) img = img"
    using assms(1) by (rule map_image_id_on)
  moreover have "filter (hits_mode (None, None)) (pixels img) = []"
    using assms(2) by (auto simp: filter_empty_conv hits_mode_def)
  ultimately show ?thesis
    using assms(1) by (simp add: transform_pixels_eq d)
qed

theorem transform_clear_unchanged_witness:
  "wf_image clear_sample \<and>
   transform_pixels clear_sample 102 38 = ((None, None), clear_sample, 0)"
proof -
  have wf: "wf_image clear_sample" by code_simp
  have h: "\<forall>p\<in>set (pixels clear_sample). alpha p = 0" by code_simp
  show ?thesis using transform_clear_unchanged [OF wf h] wf by simp
qed

text \<open>
  C12: the diagnostic counter \<open>changed\<close> counts the pixels that take a replacing
  branch -- every visible pixel in the single-mode case, every pixel whose alpha is
  a detected mode otherwise -- whether or not the new alpha differs from the old.
\<close>

theorem transform_changed_count:
  assumes "wf_image img" "transform_pixels img oa ta = (m, out, changed)"
  shows "changed = length (filter (hits_mode m) (pixels img))"
  using assms(2) transform_pixels_eq [OF assms(1), of oa ta] by auto

theorem transform_changed_count_witness:
  "wf_image two_mode_sample \<and>
   transform_pixels two_mode_sample 102 38 = ((Some 102, Some 38), two_mode_sample, 2) \<and>
   (2::nat) = length (filter (hits_mode (Some 102, Some 38)) (pixels two_mode_sample))"
proof -
  have wf: "wf_image two_mode_sample" by code_simp
  have t: "transform_pixels two_mode_sample 102 38 = ((Some 102, Some 38), two_mode_sample, 2)"
    by code_simp
  show ?thesis using transform_changed_count [OF wf t] wf t by simp
qed

subsection \<open>Images without an alpha channel\<close>

text \<open>
  An image whose pixels all carry the same non-zero alpha has that alpha as its
  only mode, so every pixel takes the single-mode branch: all of them get the
  lower target and all are counted.
\<close>

lemma uniform_alpha_modes:
  assumes "pixels img \<noteq> []" "\<forall>p\<in>set (pixels img). alpha p = a" "0 < a"
  shows "detect_alpha_modes img = (Some (unat a), None)"
proof -
  have "set (nonzero_alphas img) = {unat a}"
    using assms by (auto simp: nonzero_alphas_def alphas_def unat_gt_0 word_gt_0 neq_Nil_conv)
  then show ?thesis by (simp add: detect_alpha_modes_single_iff)
qed

lemma transform_uniform_alpha:
  assumes "wf_image img" "0 < width img" "0 < height img"
    and "\<forall>p\<in>set (pixels img). alpha p = a" "0 < a"
  shows "transform_pixels img oa ta =
           ((Some (unat a), None), map_image (\<lambda>p. p\<lparr>alpha := min oa ta\<rparr>) img, width img * height img)"
proof -
  have len: "length (pixels img) = width img * height img"
    by (simp add: pixels_def)
  with assms(2,3) have "pixels img \<noteq> []"
    by (metis length_0_conv mult_is_0 not_gr0)
  then have m: "detect_alpha_modes img = (Some (unat a), None)"
    using assms(4,5) by (rule uniform_alpha_modes)
  have "\<forall>p\<in>set (concat (rows img)). alpha p = a"
    using assms(4) pixels_wf [OF assms(1)] by simp
  then have "map (map (\<lambda>p. fst (remap_pixel (Some (unat a)) None oa ta (min oa ta) p))) (rows img) =
             map (map (\<lambda>p. p\<lparr>alpha := min oa ta\<rparr>)) (rows img)"
    using assms(5) by (auto simp: remap_pixel_one_mode)
  moreover have "filter (hits_mode (Some (unat a), None)) (pixels img) = pixels img"
    using assms(4,5) by (auto simp: hits_mode_def)
  ultimately show ?thesis
    by (simp add: transform_pixels_eq [OF assms(1)] m map_image_def len)
qed

text \<open>
  C32: a PNG without an alpha channel (mode RGB, without a transparent colour)
  is opaque after \<open>convert("RGBA")\<close>: its one mode is 255, and the script makes
  the whole image, background included, uniformly translucent with
  \<open>min(opaque, transparent)\<close>, every pixel counted as changed.
\<close>

theorem transform_opaque_rgb:
  assumes "raster_wf r" "0 < rwidth r" "0 < rheight r"
  shows "transform_pixels (convert_rgba (ModeRGB None r)) oa ta =
           ((Some 255, None), map_image (\<lambda>p. p\<lparr>alpha := min oa ta\<rparr>) (convert_rgba (ModeRGB None r)),
            rwidth r * rheight r)"
  using transform_uniform_alpha [of "convert_rgba (ModeRGB None r)" 255 oa ta] assms
  by (simp add: pixels_raster_map)

theorem transform_opaque_rgb_witness:
  "transform_pixels (convert_rgba (ModeRGB None rgb_sample)) 102 38 =
     ((Some 255, None), map_image (\<lambda>p. p\<lparr>alpha := 38\<rparr>) (convert_rgba (ModeRGB None rgb_sample)), 2)"
proof -
  have "raster_wf rgb_sample" "0 < rwidth rgb_sample" "0 < rheight rgb_sample"
    by (simp_all add: rgb_sample_def raster_wf_def)
  from transform_opaque_rgb [OF this, of 102 38] show ?thesis
    by (simp add: rgb_sample_def)
qed

text \<open>The same for a greyscale PNG without a transparent grey value.\<close>

lemma transform_opaque_l:
  assumes "raster_wf r" "0 < rwidth r" "0 < rheight r"
  shows "transform_pixels (convert_rgba (ModeL None r)) oa ta =
           ((Some 255, None), map_image (\<lambda>p. p\<lparr>alpha := min oa ta\<rparr>) (convert_rgba (ModeL None r)),
            rwidth r * rheight r)"
  using transform_uniform_alpha [of "convert_rgba (ModeL None r)" 255 oa ta] assms
  by (simp add: pixels_raster_map)

end
