(* ===== verification/Filesystem.thy ===== *)
theory Filesystem
  imports Image "HOL-Library.Sublist"
begin

text \<open>
  The filesystem and the file operations the batch driver of
  \<open>make_boundary_translucent.py\<close> calls: \<open>os.path.isdir\<close>,
  \<open>os.path.isfile\<close>, \<open>os.listdir\<close>, \<open>os.makedirs(path, exist_ok=True)\<close> (the
  script's \<open>ensure_dir\<close>), Pillow's \<open>Image.open(...).convert("RGBA")\<close> and
  \<open>Image.save\<close>. A filesystem is a map from paths (component lists) to nodes; a
  directory node keeps its entry names in the order \<open>os.listdir\<close> returns them,
  and creating an entry appends its name to the parent's list. A file holds a
  decodable PNG (an RGBA one as its pixels, one of another mode as what
  \<open>Image.open\<close> decodes, which \<open>open_rgba\<close> converts) or bytes Pillow cannot
  identify; \<open>pngs_wf\<close> says every decodable file has the size it declares. Every failure of
  these calls is an \<open>error\<close> value, as the Python exception would be.
\<close>

text \<open>
  The contents of a file: a PNG Pillow stores as RGBA, a PNG of another mode, a PNG
  that \<open>Image.open\<close> identifies but whose pixel data is cut short or corrupt, so
  that loading it (by \<open>convert\<close>) fails, and bytes no Pillow plugin identifies.
\<close>

datatype content = Png image | PngOther decoded | Truncated | Undecodable

datatype node = File content | Dir "string list"

type_synonym fs = "path \<Rightarrow> node option"

datatype error =
    FileNotFoundError path
  | IsADirectoryError path
  | NotADirectoryError path
  | FileExistsError path
  | UnidentifiedImageError path
  | OSError path

definition isdir :: "fs \<Rightarrow> path \<Rightarrow> bool" where
  "isdir fs p = (case fs p of Some (Dir _) \<Rightarrow> True | _ \<Rightarrow> False)"

definition isfile :: "fs \<Rightarrow> path \<Rightarrow> bool" where
  "isfile fs p = (case fs p of Some (File _) \<Rightarrow> True | _ \<Rightarrow> False)"

definition listdir :: "fs \<Rightarrow> path \<Rightarrow> error + string list" where
  "listdir fs p =
     (case fs p of
        Some (Dir names) \<Rightarrow> Inr names
      | Some (File _) \<Rightarrow> Inl (NotADirectoryError p)
      | None \<Rightarrow> Inl (FileNotFoundError p))"

text \<open>Creating or overwriting the entry \<open>p\<close>, registered in its parent directory.\<close>

definition add_entry :: "path \<Rightarrow> node \<Rightarrow> fs \<Rightarrow> fs" where
  "add_entry p n fs =
     (if p = [] then fs(p \<mapsto> n)
      else case fs (butlast p) of
        Some (Dir names) \<Rightarrow>
          if last p \<in> set names then fs(p \<mapsto> n)
          else fs(p \<mapsto> n, butlast p \<mapsto> Dir (names @ [last p]))
      | _ \<Rightarrow> fs(p \<mapsto> n))"

text \<open>
  \<open>os.makedirs(p, exist_ok=True)\<close>: every prefix of \<open>p\<close>, shortest first, is
  created when missing, kept when a directory. A prefix that is a file stops it:
  \<open>os.mkdir\<close> of the next prefix raises \<open>NotADirectoryError\<close> for that prefix,
  and when the file is \<open>p\<close> itself, \<open>os.mkdir(p)\<close> raises \<open>FileExistsError\<close>,
  which \<open>exist_ok\<close> does not suppress because \<open>p\<close> is not a directory.
\<close>

fun mkdirs :: "path list \<Rightarrow> fs \<Rightarrow> error + fs" where
  "mkdirs [] fs = Inr fs"
| "mkdirs (d # ds) fs =
     (case fs d of
        Some (Dir _) \<Rightarrow> mkdirs ds fs
      | Some (File _) \<Rightarrow> Inl (if ds = [] then FileExistsError d else NotADirectoryError (hd ds))
      | None \<Rightarrow> mkdirs ds (add_entry d (Dir []) fs))"

definition ensure_dir :: "path \<Rightarrow> fs \<Rightarrow> error + fs" where
  "ensure_dir p fs = mkdirs (map (\<lambda>i. take i p) [1..<Suc (length p)]) fs"

text \<open>\<open>Image.open(p).convert("RGBA")\<close>: the decoded RGBA pixels or the exception.\<close>

definition open_rgba :: "path \<Rightarrow> fs \<Rightarrow> error + image" where
  "open_rgba p fs =
     (case fs p of
        None \<Rightarrow> Inl (FileNotFoundError p)
      | Some (Dir _) \<Rightarrow> Inl (IsADirectoryError p)
      | Some (File Undecodable) \<Rightarrow> Inl (UnidentifiedImageError p)
      | Some (File Truncated) \<Rightarrow> Inl (OSError p)
      | Some (File (Png img)) \<Rightarrow> Inr img
      | Some (File (PngOther d)) \<Rightarrow> Inr (convert_rgba d))"

text \<open>
  \<open>img.save(p)\<close> opens \<open>p\<close> for writing, so every error names \<open>p\<close>. PNG is
  lossless, so the file holds exactly the pixels saved.
\<close>

definition save :: "path \<Rightarrow> image \<Rightarrow> fs \<Rightarrow> error + fs" where
  "save p img fs =
     (case fs p of
        Some (Dir _) \<Rightarrow> Inl (IsADirectoryError p)
      | _ \<Rightarrow>
          (case fs (butlast p) of
             Some (Dir _) \<Rightarrow> Inr (add_entry p (File (Png img)) fs)
           | Some (File _) \<Rightarrow> Inl (NotADirectoryError p)
           | None \<Rightarrow> Inl (FileNotFoundError p)))"

text \<open>The paths an operation may have changed: a frame condition.\<close>

definition changes_within :: "fs \<Rightarrow> fs \<Rightarrow> (path \<Rightarrow> bool) \<Rightarrow> bool" where
  "changes_within fs fs' P \<longleftrightarrow> (\<forall>q. fs' q \<noteq> fs q \<longrightarrow> P q)"

text \<open>\<open>q\<close> lies on the way to \<open>d\<close> or inside it.\<close>

definition on_path :: "path \<Rightarrow> path \<Rightarrow> bool" where
  "on_path d q \<longleftrightarrow> prefix q d \<or> prefix d q"

text \<open>
  Well-formedness of a tree: the root is a directory, every other entry is listed
  by its parent directory, and a directory lists distinct names of existing
  entries. \<open>dir_chain d0 ds\<close> says that each path of \<open>ds\<close> extends the
  previous one (starting at \<open>d0\<close>) by one component, as the prefixes
  \<open>os.makedirs\<close> creates do.
\<close>

definition wf_fs :: "fs \<Rightarrow> bool" where
  "wf_fs fs \<longleftrightarrow>
     (\<exists>names. fs [] = Some (Dir names)) \<and>
     (\<forall>p n. fs p = Some n \<longrightarrow> p \<noteq> [] \<longrightarrow>
        (\<exists>names. fs (butlast p) = Some (Dir names) \<and> last p \<in> set names)) \<and>
     (\<forall>p names. fs p = Some (Dir names) \<longrightarrow>
        distinct names \<and> (\<forall>m\<in>set names. fs (p @ [m]) \<noteq> None))"

fun dir_chain :: "path \<Rightarrow> path list \<Rightarrow> bool" where
  "dir_chain d0 [] = True"
| "dir_chain d0 (d # ds) = (d \<noteq> [] \<and> butlast d = d0 \<and> dir_chain d ds)"

text \<open>Every PNG file of the tree decodes to a well-formed image (rows of the stated width).\<close>

fun content_wf :: "content \<Rightarrow> bool" where
  "content_wf (Png img) = wf_image img"
| "content_wf (PngOther d) = decoded_wf d"
| "content_wf Truncated = True"
| "content_wf Undecodable = True"

definition pngs_wf :: "fs \<Rightarrow> bool" where
  "pngs_wf fs \<longleftrightarrow> (\<forall>p c. fs p = Some (File c) \<longrightarrow> content_wf c)"

subsection \<open>Frame lemmas\<close>

lemma changes_within_refl [simp]: "changes_within fs fs P"
  by (simp add: changes_within_def)

lemma changes_within_trans:
  "changes_within fs1 fs2 P \<Longrightarrow> changes_within fs2 fs3 Q \<Longrightarrow>
     changes_within fs1 fs3 (\<lambda>q. P q \<or> Q q)"
  by (auto simp: changes_within_def) metis

lemma changes_within_mono:
  "changes_within fs fs' P \<Longrightarrow> (\<And>q. P q \<Longrightarrow> Q q) \<Longrightarrow> changes_within fs fs' Q"
  by (auto simp: changes_within_def)

lemma add_entry_changes: "changes_within fs (add_entry p n fs) (\<lambda>q. q = p \<or> q = butlast p)"
  by (auto simp: changes_within_def add_entry_def split: option.splits node.splits)

lemma add_entry_at [simp]: "add_entry p n fs p = Some n"
  by (auto simp: add_entry_def split: option.splits node.splits)

lemma add_entry_parent_dir:
  "isdir fs q \<Longrightarrow> isdir (add_entry p (Dir []) fs) q"
  by (auto simp: isdir_def add_entry_def split: option.splits node.splits)

lemma mkdirs_changes:
  "mkdirs ds fs = Inr fs' \<Longrightarrow> changes_within fs fs' (\<lambda>q. \<exists>d\<in>set ds. q = d \<or> q = butlast d)"
proof (induction ds arbitrary: fs)
  case Nil
  then show ?case by simp
next
  case (Cons d ds)
  show ?case
  proof (cases "fs d")
    case None
    with Cons.prems have "mkdirs ds (add_entry d (Dir []) fs) = Inr fs'" by simp
    then have "changes_within (add_entry d (Dir []) fs) fs' (\<lambda>q. \<exists>d\<in>set ds. q = d \<or> q = butlast d)"
      by (rule Cons.IH)
    with add_entry_changes show ?thesis
      by (rule changes_within_mono [OF changes_within_trans]) auto
  next
    case (Some n)
    with Cons.prems show ?thesis
      by (cases n) (auto intro: changes_within_mono [OF Cons.IH])
  qed
qed

lemma ensure_dir_changes:
  "ensure_dir p fs = Inr fs' \<Longrightarrow> changes_within fs fs' (\<lambda>q. prefix q p)"
proof -
  assume "ensure_dir p fs = Inr fs'"
  then have "changes_within fs fs'
      (\<lambda>q. \<exists>d\<in>set (map (\<lambda>i. take i p) [1..<Suc (length p)]). q = d \<or> q = butlast d)"
    unfolding ensure_dir_def by (rule mkdirs_changes)
  then show ?thesis
    by (rule changes_within_mono) (auto simp: butlast_take take_is_prefix prefixeq_butlast)
qed

lemma save_changes:
  "save p img fs = Inr fs' \<Longrightarrow> changes_within fs fs' (\<lambda>q. prefix q p)"
  by (auto simp: save_def prefixeq_butlast split: option.splits node.splits
           intro!: changes_within_mono [OF add_entry_changes])

lemma save_lookup:
  "save p img fs = Inr fs' \<Longrightarrow> fs' p = Some (File (Png img))"
  by (auto simp: save_def split: option.splits node.splits)

subsection \<open>The tree invariant\<close>

lemma wf_fsD:
  assumes "wf_fs fs"
  shows "\<exists>names. fs [] = Some (Dir names)"
    and "fs p = Some n \<Longrightarrow> p \<noteq> [] \<Longrightarrow> \<exists>names. fs (butlast p) = Some (Dir names) \<and> last p \<in> set names"
    and "fs p = Some (Dir names) \<Longrightarrow> distinct names"
    and "fs p = Some (Dir names) \<Longrightarrow> m \<in> set names \<Longrightarrow> fs (p @ [m]) \<noteq> None"
  using assms unfolding wf_fs_def by blast+

lemma add_entry_wf:
  assumes wf: "wf_fs fs" and p: "p \<noteq> []" and par: "fs (butlast p) = Some (Dir names)"
    and notdir: "\<And>ns. fs p \<noteq> Some (Dir ns)" and new: "\<And>ns. n = Dir ns \<Longrightarrow> ns = []"
  shows "wf_fs (add_entry p n fs)"
proof (cases "last p \<in> set names")
  case True
  then have fs': "add_entry p n fs = fs(p \<mapsto> n)" using p par by (simp add: add_entry_def)
  show ?thesis
    unfolding fs' wf_fs_def
  proof (intro conjI allI impI)
    show "\<exists>names. (fs(p \<mapsto> n)) [] = Some (Dir names)" using wf_fsD(1) [OF wf] p by simp
  next
    fix q m assume "(fs(p \<mapsto> n)) q = Some m" "q \<noteq> []"
    then show "\<exists>names. (fs(p \<mapsto> n)) (butlast q) = Some (Dir names) \<and> last q \<in> set names"
      using wf_fsD(2) [OF wf, of q m] par True notdir butlast_neq_self(1) [OF p]
      by (cases "q = p") (auto split: if_splits)
  next
    fix q ns assume "(fs(p \<mapsto> n)) q = Some (Dir ns)"
    then show "distinct ns" using wf_fsD(3) [OF wf] new by (auto split: if_splits)
  next
    fix q ns assume "(fs(p \<mapsto> n)) q = Some (Dir ns)"
    then show "\<forall>m\<in>set ns. (fs(p \<mapsto> n)) (q @ [m]) \<noteq> None" using wf_fsD(4) [OF wf] new
      by (auto split: if_splits)
  qed
next
  case False
  then have fs': "add_entry p n fs = fs(p \<mapsto> n, butlast p \<mapsto> Dir (names @ [last p]))"
    using p par by (simp add: add_entry_def)
  have bp: "butlast p \<noteq> p" by (rule butlast_neq_self(1) [OF p])
  have pe: "butlast p @ [last p] = p" using p by simp
  show ?thesis
    unfolding fs' wf_fs_def
  proof (intro conjI allI impI)
    show "\<exists>ns. (fs(p \<mapsto> n, butlast p \<mapsto> Dir (names @ [last p]))) [] = Some (Dir ns)"
      using wf_fsD(1) [OF wf] p by auto
  next
    fix q m assume q: "(fs(p \<mapsto> n, butlast p \<mapsto> Dir (names @ [last p]))) q = Some m" "q \<noteq> []"
    show "\<exists>ns. (fs(p \<mapsto> n, butlast p \<mapsto> Dir (names @ [last p]))) (butlast q) = Some (Dir ns) \<and> last q \<in> set ns"
    proof (cases "q = p")
      case True
      then show ?thesis using bp by simp
    next
      case qp: False
      have "fs q \<noteq> None" using q qp par by (auto split: if_splits)
      then obtain m' where "fs q = Some m'" by blast
      from wf_fsD(2) [OF wf this q(2)] obtain ns where ns: "fs (butlast q) = Some (Dir ns)" "last q \<in> set ns"
        by blast
      have "butlast q \<noteq> p" using ns notdir by auto
      then show ?thesis using ns par by auto
    qed
  next
    fix q ns assume "(fs(p \<mapsto> n, butlast p \<mapsto> Dir (names @ [last p]))) q = Some (Dir ns)"
    then show "distinct ns" using wf_fsD(3) [OF wf] wf_fsD(3) [OF wf par] False new bp
      by (auto split: if_splits)
  next
    fix q ns assume "(fs(p \<mapsto> n, butlast p \<mapsto> Dir (names @ [last p]))) q = Some (Dir ns)"
    then show "\<forall>m\<in>set ns. (fs(p \<mapsto> n, butlast p \<mapsto> Dir (names @ [last p]))) (q @ [m]) \<noteq> None"
      using wf_fsD(4) [OF wf] wf_fsD(4) [OF wf par] new pe
      by (auto split: if_splits)
  qed
qed

lemma mkdirs_wf:
  "wf_fs fs \<Longrightarrow> isdir fs d0 \<Longrightarrow> dir_chain d0 ds \<Longrightarrow> mkdirs ds fs = Inr fs' \<Longrightarrow>
     wf_fs fs' \<and> isdir fs' (last (d0 # ds))"
proof (induction ds arbitrary: fs d0)
  case Nil
  then show ?case by simp
next
  case (Cons d ds)
  from Cons.prems(3) have d: "d \<noteq> []" "butlast d = d0" "dir_chain d ds" by simp_all
  show ?case
  proof (cases "fs d")
    case None
    from Cons.prems(2) d(2) obtain names where par: "fs (butlast d) = Some (Dir names)"
      by (auto simp: isdir_def split: option.splits node.splits)
    have "wf_fs (add_entry d (Dir []) fs)"
      using Cons.prems(1) d(1) par by (rule add_entry_wf) (simp_all add: None)
    moreover have "isdir (add_entry d (Dir []) fs) d" by (simp add: isdir_def)
    moreover have "mkdirs ds (add_entry d (Dir []) fs) = Inr fs'" using Cons.prems(4) None by simp
    ultimately show ?thesis using Cons.IH d(3) by simp
  next
    case (Some nd)
    with Cons.prems(4) obtain names where "nd = Dir names" and mk: "mkdirs ds fs = Inr fs'"
      by (cases nd) (simp_all split: if_splits)
    with Some have "isdir fs d" by (simp add: isdir_def)
    from Cons.IH [OF Cons.prems(1) this d(3) mk] show ?thesis by simp
  qed
qed

lemma dir_chain_take:
  "k \<le> length p \<Longrightarrow> dir_chain (take k p) (map (\<lambda>i. take i p) [Suc k..<Suc (length p)])"
proof (induction "length p - k" arbitrary: k)
  case 0
  then show ?case by simp
next
  case (Suc x)
  then have "k < length p" by simp
  then have u: "[Suc k..<Suc (length p)] = Suc k # [Suc (Suc k)..<Suc (length p)]"
    by (simp del: upt_Suc add: upt_conv_Cons)
  have "p \<noteq> []" using \<open>k < length p\<close> by auto
  with Suc.hyps(1) [of "Suc k"] Suc.hyps(2) \<open>k < length p\<close> show ?case
    unfolding u by (simp del: upt_Suc add: butlast_take)
qed

lemma ensure_dir_wf:
  assumes "wf_fs fs" "ensure_dir p fs = Inr fs'"
  shows "wf_fs fs' \<and> isdir fs' p"
proof -
  have "isdir fs (take 0 p)" using wf_fsD(1) [OF assms(1)] by (auto simp: isdir_def)
  moreover have "dir_chain (take 0 p) (map (\<lambda>i. take i p) [Suc 0..<Suc (length p)])"
    by (rule dir_chain_take) simp
  moreover have "last (take 0 p # map (\<lambda>i. take i p) [Suc 0..<Suc (length p)]) = p"
    by (cases p) (simp_all add: last_map)
  ultimately show ?thesis
    using mkdirs_wf [OF assms(1)] assms(2) unfolding ensure_dir_def by fastforce
qed

lemma save_wf:
  assumes "wf_fs fs" "save p img fs = Inr fs'"
  shows "wf_fs fs'"
proof -
  from assms(2) obtain names where par: "fs (butlast p) = Some (Dir names)"
    and nd: "\<And>ns. fs p \<noteq> Some (Dir ns)" and fs': "fs' = add_entry p (File (Png img)) fs"
    by (auto simp: save_def split: option.splits node.splits)
  have "p \<noteq> []" using par nd by auto
  from assms(1) this par nd show ?thesis unfolding fs' by (rule add_entry_wf) simp
qed

lemma dir_chain_longer: "dir_chain d0 ds \<Longrightarrow> d \<in> set ds \<Longrightarrow> length d0 < length d"
proof (induction ds arbitrary: d0)
  case Nil
  then show ?case by simp
next
  case (Cons d1 ds)
  from Cons.prems(1) have d1: "d1 \<noteq> []" "butlast d1 = d0" "dir_chain d1 ds" by simp_all
  then have "length d0 < length d1" by (metis length_butlast diff_less length_greater_0_conv zero_less_one)
  moreover have "d \<in> set ds \<Longrightarrow> length d1 < length d" using Cons.IH [OF d1(3)] by blast
  ultimately show ?case using Cons.prems(2) by auto
qed

lemma mkdirs_Inl_iff:
  "wf_fs fs \<Longrightarrow> isdir fs d0 \<Longrightarrow> dir_chain d0 ds \<Longrightarrow>
     (\<exists>e. mkdirs ds fs = Inl e) \<longleftrightarrow> (\<exists>d\<in>set ds. isfile fs d)"
proof (induction ds arbitrary: fs d0)
  case Nil
  then show ?case by simp
next
  case (Cons d ds)
  from Cons.prems(3) have d: "d \<noteq> []" "butlast d = d0" "dir_chain d ds" by simp_all
  show ?case
  proof (cases "fs d")
    case None
    from Cons.prems(2) d(2) obtain names where par: "fs (butlast d) = Some (Dir names)"
      by (auto simp: isdir_def split: option.splits node.splits)
    let ?fs1 = "add_entry d (Dir []) fs"
    have w1: "wf_fs ?fs1"
      using Cons.prems(1) d(1) par by (rule add_entry_wf) (simp_all add: None)
    have "isdir ?fs1 d" by (simp add: isdir_def)
    from Cons.IH [OF w1 this d(3)] have ih: "(\<exists>e. mkdirs ds ?fs1 = Inl e) \<longleftrightarrow> (\<exists>d'\<in>set ds. isfile ?fs1 d')" .
    have "isfile ?fs1 d' = isfile fs d'" if "d' \<in> set ds" for d'
    proof -
      from dir_chain_longer [OF d(3) that] d(2) have "d' \<noteq> d" "d' \<noteq> butlast d" by auto
      then have "?fs1 d' = fs d'" using add_entry_changes [of fs d "Dir []"]
        by (auto simp: changes_within_def)
      then show ?thesis by (simp add: isfile_def)
    qed
    with ih None show ?thesis by (simp add: isfile_def)
  next
    case (Some nd)
    show ?thesis
    proof (cases nd)
      case (File c)
      with Some show ?thesis by (auto simp: isfile_def)
    next
      case (Dir names)
      with Some have "isdir fs d" by (simp add: isdir_def)
      from Cons.IH [OF Cons.prems(1) this d(3)] Some Dir show ?thesis by (simp add: isfile_def)
    qed
  qed
qed

lemma ensure_dir_Inl_iff:
  assumes "wf_fs fs"
  shows "(\<exists>e. ensure_dir p fs = Inl e) \<longleftrightarrow> (\<exists>i. 0 < i \<and> i \<le> length p \<and> isfile fs (take i p))"
proof -
  have "isdir fs (take 0 p)" using wf_fsD(1) [OF assms] by (auto simp: isdir_def)
  moreover have "dir_chain (take 0 p) (map (\<lambda>i. take i p) [Suc 0..<Suc (length p)])"
    by (rule dir_chain_take) simp
  ultimately have "(\<exists>e. ensure_dir p fs = Inl e) \<longleftrightarrow>
      (\<exists>d\<in>set (map (\<lambda>i. take i p) [Suc 0..<Suc (length p)]). isfile fs d)"
    unfolding ensure_dir_def One_nat_def by (rule mkdirs_Inl_iff [OF assms])
  also have "\<dots> \<longleftrightarrow> (\<exists>i. 0 < i \<and> i \<le> length p \<and> isfile fs (take i p))"
    by (auto simp del: upt_Suc simp: Suc_le_eq)
  finally show ?thesis .
qed

subsection \<open>Well-formed images in the tree\<close>

lemma add_entry_pngs:
  "pngs_wf fs \<Longrightarrow> (\<And>c. n = File c \<Longrightarrow> content_wf c) \<Longrightarrow> pngs_wf (add_entry p n fs)"
  by (auto simp: pngs_wf_def add_entry_def split: option.splits node.splits if_splits)

lemma mkdirs_pngs: "pngs_wf fs \<Longrightarrow> mkdirs ds fs = Inr fs' \<Longrightarrow> pngs_wf fs'"
  by (induction ds arbitrary: fs)
     (auto split: option.splits node.splits if_splits intro: add_entry_pngs)

lemma ensure_dir_pngs: "pngs_wf fs \<Longrightarrow> ensure_dir p fs = Inr fs' \<Longrightarrow> pngs_wf fs'"
  unfolding ensure_dir_def by (rule mkdirs_pngs)

lemma save_pngs: "pngs_wf fs \<Longrightarrow> wf_image img \<Longrightarrow> save p img fs = Inr fs' \<Longrightarrow> pngs_wf fs'"
  by (auto simp: save_def split: option.splits node.splits intro!: add_entry_pngs)

lemma open_rgba_wf: "pngs_wf fs \<Longrightarrow> open_rgba p fs = Inr img \<Longrightarrow> wf_image img"
  by (force simp: open_rgba_def pngs_wf_def split: option.splits node.splits content.splits)

end
