(* ===== verification/Driver.thy ===== *)
theory Driver
  imports Remap Filesystem Complex_Main
begin

text \<open>
  The batch driver of \<open>src/scripts/make_boundary_translucent.py\<close>: the
  \<open>Variant\<close> configuration, the conversion \<open>int(round(255 * fraction))\<close>, the
  input and output paths under the mod root, \<open>transform_image\<close> with its file I/O,
  \<open>process_folder\<close> and \<open>main\<close>, all as functions of the filesystem state that
  return the new state or the exception that ends the run. The fractions are the
  decimal literals of \<open>VARIANTS\<close> as exact rationals; Python multiplies the binary
  doubles, and for these six constants both products round to the same integer
  (102, 38, 51, 19, 26, 64), the one case near a half (\<open>255 * 0.10\<close>) rounding
  to the double 25.5 exactly.
\<close>

subsection \<open>Configuration\<close>

record variant =
  tag :: string
  opaque_alpha :: rat
  transparent_alpha :: rat

definition VARIANTS :: "variant list" where
  "VARIANTS =
     [\<lparr>tag = ''a40_15'', opaque_alpha = 2 / 5, transparent_alpha = 3 / 20\<rparr>,
      \<lparr>tag = ''a20_075'', opaque_alpha = 1 / 5, transparent_alpha = 3 / 40\<rparr>,
      \<lparr>tag = ''a10_25'', opaque_alpha = 1 / 10, transparent_alpha = 1 / 4\<rparr>]"

text \<open>Python's \<open>round\<close> on a number: to the nearest integer, ties to even.\<close>

definition py_round :: "rat \<Rightarrow> int" where
  "py_round x =
     (let f = \<lfloor>x\<rfloor>; d = x - of_int f
      in if d < 1 / 2 then f
         else if 1 / 2 < d then f + 1
         else if even f then f else f + 1)"

definition variant_targets :: "variant \<Rightarrow> int \<times> int" where
  "variant_targets v = (py_round (255 * opaque_alpha v), py_round (255 * transparent_alpha v))"

subsection \<open>Paths\<close>

definition gfx :: "path \<Rightarrow> path" where
  "gfx mod_root = mod_root @ [''graphics'']"

definition edges_in :: "path \<Rightarrow> path" where
  "edges_in mod_root = gfx mod_root @ [''base'', ''edge'']"

definition corners_in :: "path \<Rightarrow> path" where
  "corners_in mod_root = gfx mod_root @ [''base'', ''corner'']"

definition centers_in :: "path \<Rightarrow> path" where
  "centers_in mod_root = gfx mod_root @ [''base'', ''center'']"

definition border_in :: "path \<Rightarrow> path" where
  "border_in mod_root = gfx mod_root @ [''base'', ''chart-border.png'']"

definition variant_root :: "path \<Rightarrow> string \<Rightarrow> path" where
  "variant_root mod_root t = gfx mod_root @ [t]"

definition edges_out_dir :: "path \<Rightarrow> string \<Rightarrow> path" where
  "edges_out_dir mod_root t = variant_root mod_root t @ [''edge'']"

definition corners_out_dir :: "path \<Rightarrow> string \<Rightarrow> path" where
  "corners_out_dir mod_root t = variant_root mod_root t @ [''corner'']"

definition centers_out_dir :: "path \<Rightarrow> string \<Rightarrow> path" where
  "centers_out_dir mod_root t = variant_root mod_root t @ [''center'']"

definition border_out_path :: "path \<Rightarrow> string \<Rightarrow> path" where
  "border_out_path mod_root t = variant_root mod_root t @ [''chart-border.png'']"

subsection \<open>File names\<close>

text \<open>\<open>str.lower\<close> on ASCII letters, and \<open>str.endswith\<close>.\<close>

definition py_lower_char :: "char \<Rightarrow> char" where
  "py_lower_char c =
     (let n = (of_char c :: nat) in if 65 \<le> n \<and> n \<le> 90 then char_of (n + 32) else c)"

definition py_endswith :: "string \<Rightarrow> string \<Rightarrow> bool" where
  "py_endswith s suf \<longleftrightarrow> length suf \<le> length s \<and> drop (length s - length suf) s = suf"

definition is_png_name :: "string \<Rightarrow> bool" where
  "is_png_name name \<longleftrightarrow> py_endswith (map py_lower_char name) ''.png''"

subsection \<open>Operations\<close>

definition transform_image :: "path \<Rightarrow> path \<Rightarrow> u8 \<Rightarrow> u8 \<Rightarrow> fs \<Rightarrow> error + fs" where
  "transform_image in_path out_path oa ta fs =
     (case open_rgba in_path fs of
        Inl e \<Rightarrow> Inl e
      | Inr img \<Rightarrow>
          (case transform_pixels img oa ta of
             (modes, out, changed) \<Rightarrow>
               (case ensure_dir (butlast out_path) fs of
                  Inl e \<Rightarrow> Inl e
                | Inr fs' \<Rightarrow> save out_path out fs')))"

text \<open>The loop \<open>for name in os.listdir(in_dir)\<close> of \<open>process_folder\<close>.\<close>

fun process_names ::
  "path \<Rightarrow> path \<Rightarrow> u8 \<Rightarrow> u8 \<Rightarrow> string list \<Rightarrow> fs \<times> nat \<Rightarrow> error + fs \<times> nat" where
  "process_names in_dir out_dir oa ta [] st = Inr st"
| "process_names in_dir out_dir oa ta (name # names) (fs, count) =
     (if \<not> is_png_name name then process_names in_dir out_dir oa ta names (fs, count)
      else case transform_image (in_dir @ [name]) (out_dir @ [name]) oa ta fs of
             Inl e \<Rightarrow> Inl e
           | Inr fs' \<Rightarrow> process_names in_dir out_dir oa ta names (fs', count + 1))"

definition process_folder :: "path \<Rightarrow> path \<Rightarrow> u8 \<Rightarrow> u8 \<Rightarrow> fs \<Rightarrow> error + fs \<times> nat" where
  "process_folder in_dir out_dir oa ta fs =
     (if \<not> isdir fs in_dir then Inr (fs, 0)
      else case ensure_dir out_dir fs of
        Inl e \<Rightarrow> Inl e
      | Inr fs1 \<Rightarrow>
          (case listdir fs1 in_dir of
             Inl e \<Rightarrow> Inl e
           | Inr names \<Rightarrow> process_names in_dir out_dir oa ta names (fs1, 0)))"

text \<open>One iteration of the loop over \<open>VARIANTS\<close> in \<open>main\<close>, and the loop.\<close>

fun main_loop :: "path \<Rightarrow> variant list \<Rightarrow> fs \<times> nat \<Rightarrow> error + fs \<times> nat" where
  "main_loop mod_root [] st = Inr st"
| "main_loop mod_root (v # vs) (fs, total_n) =
     (let (oa, ta) = variant_targets v;
          oa8 = word_of_int oa; ta8 = word_of_int ta
      in case process_folder (edges_in mod_root) (edges_out_dir mod_root (tag v)) oa8 ta8 fs of
           Inl e \<Rightarrow> Inl e
         | Inr (fs1, c1) \<Rightarrow>
         case process_folder (corners_in mod_root) (corners_out_dir mod_root (tag v)) oa8 ta8 fs1 of
           Inl e \<Rightarrow> Inl e
         | Inr (fs2, c2) \<Rightarrow>
         case process_folder (centers_in mod_root) (centers_out_dir mod_root (tag v)) oa8 ta8 fs2 of
           Inl e \<Rightarrow> Inl e
         | Inr (fs3, c3) \<Rightarrow>
           if isfile fs3 (border_in mod_root) then
             (case transform_image (border_in mod_root) (border_out_path mod_root (tag v)) oa8 ta8 fs3 of
                Inl e \<Rightarrow> Inl e
              | Inr fs4 \<Rightarrow> main_loop mod_root vs (fs4, total_n + c1 + c2 + c3 + 1))
           else main_loop mod_root vs (fs3, total_n + c1 + c2 + c3))"

definition main :: "path \<Rightarrow> fs \<Rightarrow> error + fs \<times> nat" where
  "main mod_root fs = main_loop mod_root VARIANTS (fs, 0)"

text \<open>
  What the run depends on: the number of PNG names listed in an input folder (0
  for a missing one), and the number of files one variant processes.
\<close>

definition png_count :: "fs \<Rightarrow> path \<Rightarrow> nat" where
  "png_count fs d = (case fs d of Some (Dir names) \<Rightarrow> length (filter is_png_name names) | _ \<Rightarrow> 0)"

definition inputs_count :: "path \<Rightarrow> fs \<Rightarrow> nat" where
  "inputs_count mod_root fs =
     png_count fs (edges_in mod_root) + png_count fs (corners_in mod_root) + png_count fs (centers_in mod_root) +
     (if isfile fs (border_in mod_root) then 1 else 0)"

text \<open>
  Sample filesystems for the scenarios: the mod root \<open>/mod\<close> with an edge folder
  holding two PNG files (one named in upper case) and a text file, and the border
  image; and the same tree with an undecodable PNG listed first.
\<close>

definition sample_root :: path where
  "sample_root = [''mod'']"

definition sample_fs :: fs where
  "sample_fs = map_of
     [([], Dir [''mod'']), ([''mod''], Dir [''graphics'']), ([''mod'', ''graphics''], Dir [''base'']),
      ([''mod'', ''graphics'', ''base''], Dir [''edge'', ''chart-border.png'']),
      ([''mod'', ''graphics'', ''base'', ''edge''], Dir [''a.png'', ''B.PNG'', ''notes.txt'']),
      ([''mod'', ''graphics'', ''base'', ''edge'', ''a.png''], File (Png two_mode_sample)),
      ([''mod'', ''graphics'', ''base'', ''edge'', ''B.PNG''], File (Png one_mode_sample)),
      ([''mod'', ''graphics'', ''base'', ''edge'', ''notes.txt''], File Undecodable),
      ([''mod'', ''graphics'', ''base'', ''chart-border.png''], File (Png clear_sample))]"

definition broken_fs :: fs where
  "broken_fs = sample_fs
     ([''mod'', ''graphics'', ''base'', ''edge''] \<mapsto> Dir [''bad.png'', ''a.png''],
      [''mod'', ''graphics'', ''base'', ''edge'', ''bad.png''] \<mapsto> File Undecodable)"

text \<open>The process's exit status: 0 from \<open>main\<close>, 1 from an uncaught exception.\<close>

definition exit_status :: "error + fs \<times> nat \<Rightarrow> nat" where
  "exit_status r = (case r of Inl _ \<Rightarrow> 1 | Inr _ \<Rightarrow> 0)"

text \<open>
  The script as a process: \<open>ROOT\<close> is two directories above the script's own path
  (\<open>os.path.dirname\<close> twice), and without Pillow the import guard exits with 1
  before \<open>main\<close> runs; otherwise the status is that of \<open>sys.exit(main())\<close>.
\<close>

definition script_root :: "path \<Rightarrow> path" where
  "script_root script = butlast (butlast script)"

definition script_status :: "bool \<Rightarrow> path \<Rightarrow> fs \<Rightarrow> nat" where
  "script_status pillow_available script fs =
     (if \<not> pillow_available then 1 else exit_status (main (script_root script) fs))"

subsection \<open>Rounding and the 8-bit targets\<close>

lemma py_round_near: "\<bar>of_int (py_round x) - x\<bar> \<le> 1 / 2"
proof -
  let ?f = "\<lfloor>x\<rfloor>"
  have lo: "of_int ?f \<le> x" and hi: "x < of_int ?f + 1"
    by (simp_all add: of_int_floor_le floor_le_iff [symmetric])
  have "py_round x = ?f \<or> py_round x = ?f + 1" by (simp add: py_round_def Let_def)
  moreover have "py_round x = ?f \<Longrightarrow> x - of_int ?f \<le> 1 / 2"
    by (auto simp: py_round_def Let_def split: if_splits)
  moreover have "py_round x = ?f + 1 \<Longrightarrow> 1 / 2 \<le> x - of_int ?f"
    by (auto simp: py_round_def Let_def split: if_splits)
  ultimately show ?thesis
    using lo hi by (auto simp: abs_le_iff)
qed

lemma py_round_range:
  assumes "0 \<le> x" "x \<le> 255"
  shows "0 \<le> py_round x \<and> py_round x \<le> 255"
proof -
  have "of_int (py_round x) - x \<le> (1 / 2 :: rat) \<and> - (of_int (py_round x) - x) \<le> 1 / 2"
    using py_round_near [of x] by (simp only: abs_le_iff)
  then have "of_int (py_round x) \<le> x + 1 / 2" "x - 1 / 2 \<le> of_int (py_round x)"
    by linarith+
  with assms have "of_int (py_round x) < (of_int 256 :: rat)" "(of_int (-1) :: rat) < of_int (py_round x)"
    by simp_all
  then have "py_round x < 256" "-1 < py_round x"
    by (simp_all only: of_int_less_iff)
  then show ?thesis by simp
qed

lemma uint_word_of_int_u8:
  "0 \<le> t \<Longrightarrow> t \<le> 255 \<Longrightarrow> uint (word_of_int t :: u8) = t"
  by (simp add: uint_word_of_int)

subsection \<open>Frame conditions and counts\<close>

lemma prefix_snoc_snoc: "\<not> prefix i od \<Longrightarrow> \<not> prefix (i @ [x]) (od @ [y])"
  by (auto dest: append_prefixD)

lemma on_path_snoc: "on_path (d @ [x]) q \<Longrightarrow> on_path d q"
  by (auto simp: on_path_def dest: append_prefixD)

lemma prefix_on_path_snoc: "prefix q (d @ [x]) \<Longrightarrow> on_path d q"
  by (auto simp: on_path_def)

lemma transform_image_changes:
  "transform_image i od oa ta fs = Inr fs' \<Longrightarrow> changes_within fs fs' (\<lambda>q. prefix q od)"
proof -
  assume t: "transform_image i od oa ta fs = Inr fs'"
  then obtain img fs1 where "open_rgba i fs = Inr img" "ensure_dir (butlast od) fs = Inr fs1"
    and s: "save od (fst (snd (transform_pixels img oa ta))) fs1 = Inr fs'"
    by (auto simp: transform_image_def split: sum.splits prod.splits)
  then have "changes_within fs fs1 (\<lambda>q. prefix q (butlast od))"
    by (simp add: ensure_dir_changes)
  moreover have "changes_within fs1 fs' (\<lambda>q. prefix q od)"
    using s by (rule save_changes)
  ultimately show ?thesis
    by (rule changes_within_mono [OF changes_within_trans])
       (auto intro: prefix_order.trans prefixeq_butlast)
qed

lemma transform_image_saves:
  assumes "fs i = Some (File (Png img))" "transform_image i od oa ta fs = Inr fs'"
  shows "fs' od = Some (File (Png (fst (snd (transform_pixels img oa ta)))))"
  using assms by (auto simp: transform_image_def open_rgba_def split: sum.splits prod.splits
                       intro: save_lookup)

lemma process_names_changes:
  "process_names i od oa ta names (fs, c) = Inr (fs', n) \<Longrightarrow> changes_within fs fs' (on_path od)"
proof (induction names arbitrary: fs c)
  case Nil
  then show ?case by simp
next
  case (Cons name names)
  show ?case
  proof (cases "is_png_name name")
    case False
    with Cons show ?thesis by simp
  next
    case True
    with Cons.prems obtain fs1 where t: "transform_image (i @ [name]) (od @ [name]) oa ta fs = Inr fs1"
      and r: "process_names i od oa ta names (fs1, c + 1) = Inr (fs', n)"
      by (auto split: sum.splits)
    have "changes_within fs fs1 (on_path od)"
      using transform_image_changes [OF t] by (rule changes_within_mono) (rule prefix_on_path_snoc)
    from changes_within_trans [OF this Cons.IH [OF r]] show ?thesis
      by (rule changes_within_mono) auto
  qed
qed

lemma process_names_count:
  "process_names i od oa ta names (fs, c) = Inr (fs', n) \<Longrightarrow> n = c + length (filter is_png_name names)"
  by (induction names arbitrary: fs c) (fastforce split: if_splits sum.splits)+

lemma process_folder_missing:
  "\<not> isdir fs i \<Longrightarrow> process_folder i od oa ta fs = Inr (fs, 0)"
  by (simp add: process_folder_def)

lemma process_folder_changes:
  "process_folder i od oa ta fs = Inr (fs', n) \<Longrightarrow> changes_within fs fs' (on_path od)"
proof -
  assume r: "process_folder i od oa ta fs = Inr (fs', n)"
  show ?thesis
  proof (cases "isdir fs i")
    case False
    with r show ?thesis by (simp add: process_folder_def)
  next
    case True
    with r obtain fs1 names where e: "ensure_dir od fs = Inr fs1"
      and p: "process_names i od oa ta names (fs1, 0) = Inr (fs', n)"
      by (auto simp: process_folder_def split: sum.splits)
    have "changes_within fs fs1 (on_path od)"
      using ensure_dir_changes [OF e] by (rule changes_within_mono) (simp add: on_path_def)
    from changes_within_trans [OF this process_names_changes [OF p]] show ?thesis
      by (rule changes_within_mono) auto
  qed
qed

lemma unchanged_off:
  "changes_within fs fs' P \<Longrightarrow> \<not> P q \<Longrightarrow> fs' q = fs q"
  by (auto simp: changes_within_def)

lemma process_folder_count:
  assumes "fs i = Some (Dir names)" "\<not> prefix i od" "process_folder i od oa ta fs = Inr (fs', n)"
  shows "n = length (filter is_png_name names)"
proof -
  from assms(1,3) obtain fs1 names1 where e: "ensure_dir od fs = Inr fs1"
    and l: "listdir fs1 i = Inr names1"
    and p: "process_names i od oa ta names1 (fs1, 0) = Inr (fs', n)"
    by (auto simp: process_folder_def isdir_def split: sum.splits)
  have "fs1 i = fs i"
    using ensure_dir_changes [OF e] assms(2) by (rule unchanged_off)
  with assms(1) l have "names1 = names" by (simp add: listdir_def)
  with process_names_count [OF p] show ?thesis by simp
qed

lemma process_names_open_error:
  assumes "name \<in> set names" "is_png_name name" "isl (open_rgba (i @ [name]) fs)"
    and "\<not> prefix i od"
  shows "\<exists>e. process_names i od oa ta names (fs, c) = Inl e"
  using assms(1,3)
proof (induction names arbitrary: fs c)
  case Nil
  then show ?case by simp
next
  case (Cons n0 names)
  show ?case
  proof (cases "n0 = name")
    case True
    with Cons.prems assms(2) show ?thesis
      by (cases "open_rgba (i @ [name]) fs") (simp_all add: transform_image_def)
  next
    case False
    with Cons.prems have mem: "name \<in> set names" by simp
    show ?thesis
    proof (cases "is_png_name n0")
      case False
      have "\<exists>e. process_names i od oa ta names (fs, c) = Inl e"
        using Cons.IH mem Cons.prems(2) by blast
      with False show ?thesis by simp
    next
      case True
      show ?thesis
      proof (cases "transform_image (i @ [n0]) (od @ [n0]) oa ta fs")
        case (Inl e)
        with True show ?thesis by simp
      next
        case (Inr fs1)
        have "fs1 (i @ [name]) = fs (i @ [name])"
          using transform_image_changes [OF Inr] prefix_snoc_snoc [OF assms(4)] by (rule unchanged_off)
        with Cons.prems(2) have "isl (open_rgba (i @ [name]) fs1)" by (simp add: open_rgba_def)
        then have "\<exists>e. process_names i od oa ta names (fs1, c + 1) = Inl e"
          using Cons.IH mem by blast
        with True Inr show ?thesis by simp
      qed
    qed
  qed
qed

lemma variant_out_on_path:
  "on_path (edges_out_dir mod_root t) q \<Longrightarrow> on_path (variant_root mod_root t) q"
  "on_path (corners_out_dir mod_root t) q \<Longrightarrow> on_path (variant_root mod_root t) q"
  "on_path (centers_out_dir mod_root t) q \<Longrightarrow> on_path (variant_root mod_root t) q"
  "prefix q (border_out_path mod_root t) \<Longrightarrow> on_path (variant_root mod_root t) q"
  by (simp_all add: edges_out_dir_def corners_out_dir_def centers_out_dir_def border_out_path_def
                    on_path_snoc prefix_on_path_snoc)

lemma main_loop_step_fine:
  assumes "main_loop mod_root (v # vs) (fs, t) = Inr (fs', n)"
  obtains fs1 c1 fs2 c2 fs3 c3 fs4 where
    "process_folder (edges_in mod_root) (edges_out_dir mod_root (tag v))
       (word_of_int (fst (variant_targets v))) (word_of_int (snd (variant_targets v))) fs = Inr (fs1, c1)"
    "process_folder (corners_in mod_root) (corners_out_dir mod_root (tag v))
       (word_of_int (fst (variant_targets v))) (word_of_int (snd (variant_targets v))) fs1 = Inr (fs2, c2)"
    "process_folder (centers_in mod_root) (centers_out_dir mod_root (tag v))
       (word_of_int (fst (variant_targets v))) (word_of_int (snd (variant_targets v))) fs2 = Inr (fs3, c3)"
    "main_loop mod_root vs (fs4, t + c1 + c2 + c3 + (if isfile fs3 (border_in mod_root) then 1 else 0)) = Inr (fs', n)"
    "changes_within fs fs1 (on_path (edges_out_dir mod_root (tag v)))"
    "changes_within fs1 fs2 (on_path (corners_out_dir mod_root (tag v)))"
    "changes_within fs2 fs3 (on_path (centers_out_dir mod_root (tag v)))"
    "changes_within fs3 fs4 (\<lambda>q. prefix q (border_out_path mod_root (tag v)))"
proof -
  let ?oa = "word_of_int (fst (variant_targets v)) :: u8"
  let ?ta = "word_of_int (snd (variant_targets v)) :: u8"
  obtain fs1 c1 fs2 c2 fs3 c3 fs4 where
    p1: "process_folder (edges_in mod_root) (edges_out_dir mod_root (tag v)) ?oa ?ta fs = Inr (fs1, c1)"
    and p2: "process_folder (corners_in mod_root) (corners_out_dir mod_root (tag v)) ?oa ?ta fs1 = Inr (fs2, c2)"
    and p3: "process_folder (centers_in mod_root) (centers_out_dir mod_root (tag v)) ?oa ?ta fs2 = Inr (fs3, c3)"
    and b: "if isfile fs3 (border_in mod_root)
            then transform_image (border_in mod_root) (border_out_path mod_root (tag v)) ?oa ?ta fs3 = Inr fs4
            else fs4 = fs3"
    and r: "main_loop mod_root vs (fs4, t + c1 + c2 + c3 + (if isfile fs3 (border_in mod_root) then 1 else 0))
              = Inr (fs', n)"
    using assms by (cases "variant_targets v") (auto simp: Let_def split: sum.splits prod.splits if_splits)
  have "changes_within fs3 fs4 (\<lambda>q. prefix q (border_out_path mod_root (tag v)))"
    using b by (auto split: if_splits intro: transform_image_changes)
  then show thesis
    using that [OF p1 p2 p3 r process_folder_changes [OF p1] process_folder_changes [OF p2]
                   process_folder_changes [OF p3]] by blast
qed

lemma main_loop_step:
  assumes "main_loop mod_root (v # vs) (fs, t) = Inr (fs', n)"
  obtains fs1 c1 fs2 c2 fs3 c3 fs4 where
    "process_folder (edges_in mod_root) (edges_out_dir mod_root (tag v))
       (word_of_int (fst (variant_targets v))) (word_of_int (snd (variant_targets v))) fs = Inr (fs1, c1)"
    "process_folder (corners_in mod_root) (corners_out_dir mod_root (tag v))
       (word_of_int (fst (variant_targets v))) (word_of_int (snd (variant_targets v))) fs1 = Inr (fs2, c2)"
    "process_folder (centers_in mod_root) (centers_out_dir mod_root (tag v))
       (word_of_int (fst (variant_targets v))) (word_of_int (snd (variant_targets v))) fs2 = Inr (fs3, c3)"
    "main_loop mod_root vs (fs4, t + c1 + c2 + c3 + (if isfile fs3 (border_in mod_root) then 1 else 0)) = Inr (fs', n)"
    "changes_within fs fs1 (on_path (variant_root mod_root (tag v)))"
    "changes_within fs1 fs2 (on_path (variant_root mod_root (tag v)))"
    "changes_within fs2 fs3 (on_path (variant_root mod_root (tag v)))"
    "changes_within fs3 fs4 (on_path (variant_root mod_root (tag v)))"
proof -
  obtain fs1 c1 fs2 c2 fs3 c3 fs4 where
    p: "process_folder (edges_in mod_root) (edges_out_dir mod_root (tag v))
       (word_of_int (fst (variant_targets v))) (word_of_int (snd (variant_targets v))) fs = Inr (fs1, c1)"
    "process_folder (corners_in mod_root) (corners_out_dir mod_root (tag v))
       (word_of_int (fst (variant_targets v))) (word_of_int (snd (variant_targets v))) fs1 = Inr (fs2, c2)"
    "process_folder (centers_in mod_root) (centers_out_dir mod_root (tag v))
       (word_of_int (fst (variant_targets v))) (word_of_int (snd (variant_targets v))) fs2 = Inr (fs3, c3)"
    "main_loop mod_root vs (fs4, t + c1 + c2 + c3 + (if isfile fs3 (border_in mod_root) then 1 else 0)) = Inr (fs', n)"
    and c: "changes_within fs fs1 (on_path (edges_out_dir mod_root (tag v)))"
    "changes_within fs1 fs2 (on_path (corners_out_dir mod_root (tag v)))"
    "changes_within fs2 fs3 (on_path (centers_out_dir mod_root (tag v)))"
    "changes_within fs3 fs4 (\<lambda>q. prefix q (border_out_path mod_root (tag v)))"
    using assms by (rule main_loop_step_fine)
  show thesis
    using that [OF p changes_within_mono [OF c(1) variant_out_on_path(1)]
                     changes_within_mono [OF c(2) variant_out_on_path(2)]
                     changes_within_mono [OF c(3) variant_out_on_path(3)]
                     changes_within_mono [OF c(4) variant_out_on_path(4)]] .
qed

lemma not_base_on_path_variant:
  assumes "t \<noteq> ''base''" "on_path (variant_root mod_root t) q"
  shows "\<not> prefix (gfx mod_root @ [''base'']) q"
proof
  assume b: "prefix (gfx mod_root @ [''base'']) q"
  from assms(2) show False
  proof (unfold on_path_def variant_root_def, elim disjE)
    assume "prefix q (gfx mod_root @ [t])"
    with b have "prefix (gfx mod_root @ [''base'']) (gfx mod_root @ [t])" by (rule prefix_order.trans)
    with assms(1) show False by simp
  next
    assume "prefix (gfx mod_root @ [t]) q"
    with b have "prefix (gfx mod_root @ [''base'']) (gfx mod_root @ [t]) \<or> prefix (gfx mod_root @ [t]) (gfx mod_root @ [''base''])"
      by (rule prefix_same_cases)
    with assms(1) show False by auto
  qed
qed

lemma main_loop_changes:
  "main_loop mod_root vs (fs, t) = Inr (fs', n) \<Longrightarrow>
     changes_within fs fs' (\<lambda>q. \<exists>v\<in>set vs. on_path (variant_root mod_root (tag v)) q)"
proof (induction vs arbitrary: fs t)
  case Nil
  then show ?case by simp
next
  case (Cons v vs)
  obtain fs1 c1 fs2 c2 fs3 c3 fs4 where
    r: "main_loop mod_root vs (fs4, t + c1 + c2 + c3 + (if isfile fs3 (border_in mod_root) then 1 else 0)) = Inr (fs', n)"
    and c: "changes_within fs fs1 (on_path (variant_root mod_root (tag v)))"
      "changes_within fs1 fs2 (on_path (variant_root mod_root (tag v)))"
      "changes_within fs2 fs3 (on_path (variant_root mod_root (tag v)))"
      "changes_within fs3 fs4 (on_path (variant_root mod_root (tag v)))"
    using Cons.prems by (rule main_loop_step)
  have "changes_within fs fs4 (on_path (variant_root mod_root (tag v)))"
    using changes_within_trans [OF changes_within_trans [OF changes_within_trans [OF c(1) c(2)] c(3)] c(4)]
    by (rule changes_within_mono) auto
  from changes_within_trans [OF this Cons.IH [OF r]] show ?case
    by (rule changes_within_mono) auto
qed

lemma process_folder_png_count:
  assumes "\<not> prefix i od" "process_folder i od oa ta fs = Inr (fs', c)"
  shows "c = png_count fs i"
proof (cases "fs i")
  case None
  with assms(2) show ?thesis by (simp add: process_folder_def isdir_def png_count_def)
next
  case (Some nd)
  show ?thesis
  proof (cases nd)
    case (File x)
    with Some assms(2) show ?thesis by (simp add: process_folder_def isdir_def png_count_def)
  next
    case (Dir names)
    with Some process_folder_count [OF _ assms] show ?thesis by (simp add: png_count_def)
  qed
qed

lemma base_unchanged:
  "changes_within fs fs' (on_path (variant_root mod_root t)) \<Longrightarrow> t \<noteq> ''base'' \<Longrightarrow>
     prefix (gfx mod_root @ [''base'']) q \<Longrightarrow> fs' q = fs q"
  by (erule unchanged_off) (auto dest: not_base_on_path_variant)

lemma inputs_under_base:
  "prefix (gfx mod_root @ [''base'']) (edges_in mod_root)" "prefix (gfx mod_root @ [''base'']) (corners_in mod_root)"
  "prefix (gfx mod_root @ [''base'']) (centers_in mod_root)" "prefix (gfx mod_root @ [''base'']) (border_in mod_root)"
  by (simp_all add: edges_in_def corners_in_def centers_in_def border_in_def)

lemma inputs_count_cong:
  assumes "\<And>q. prefix (gfx mod_root @ [''base'']) q \<Longrightarrow> fs' q = fs q"
  shows "inputs_count mod_root fs' = inputs_count mod_root fs"
  using assms [OF inputs_under_base(1)] assms [OF inputs_under_base(2)]
        assms [OF inputs_under_base(3)] assms [OF inputs_under_base(4)]
  by (simp add: inputs_count_def png_count_def isfile_def)

lemma out_not_under_in:
  assumes "t \<noteq> ''base''"
  shows "\<not> prefix (edges_in mod_root) (edges_out_dir mod_root t)"
  "\<not> prefix (corners_in mod_root) (corners_out_dir mod_root t)"
  "\<not> prefix (centers_in mod_root) (centers_out_dir mod_root t)"
  using assms by (auto simp: edges_in_def corners_in_def centers_in_def edges_out_dir_def
                 corners_out_dir_def centers_out_dir_def variant_root_def)

lemma main_loop_total:
  "(\<forall>v\<in>set vs. tag v \<noteq> ''base'') \<Longrightarrow> main_loop mod_root vs (fs, t) = Inr (fs', n) \<Longrightarrow>
     n = t + length vs * inputs_count mod_root fs"
proof (induction vs arbitrary: fs t)
  case Nil
  then show ?case by simp
next
  case (Cons v vs)
  have tag: "tag v \<noteq> ''base''" using Cons.prems(1) by simp
  obtain fs1 c1 fs2 c2 fs3 c3 fs4 where
    p1: "process_folder (edges_in mod_root) (edges_out_dir mod_root (tag v))
       (word_of_int (fst (variant_targets v))) (word_of_int (snd (variant_targets v))) fs = Inr (fs1, c1)"
    and p2: "process_folder (corners_in mod_root) (corners_out_dir mod_root (tag v))
       (word_of_int (fst (variant_targets v))) (word_of_int (snd (variant_targets v))) fs1 = Inr (fs2, c2)"
    and p3: "process_folder (centers_in mod_root) (centers_out_dir mod_root (tag v))
       (word_of_int (fst (variant_targets v))) (word_of_int (snd (variant_targets v))) fs2 = Inr (fs3, c3)"
    and r: "main_loop mod_root vs (fs4, t + c1 + c2 + c3 + (if isfile fs3 (border_in mod_root) then 1 else 0)) = Inr (fs', n)"
    and c: "changes_within fs fs1 (on_path (variant_root mod_root (tag v)))"
      "changes_within fs1 fs2 (on_path (variant_root mod_root (tag v)))"
      "changes_within fs2 fs3 (on_path (variant_root mod_root (tag v)))"
      "changes_within fs3 fs4 (on_path (variant_root mod_root (tag v)))"
    using Cons.prems(2) by (rule main_loop_step)
  have a1: "\<And>q. prefix (gfx mod_root @ [''base'']) q \<Longrightarrow> fs1 q = fs q"
    using base_unchanged [OF c(1) tag] .
  have a2: "\<And>q. prefix (gfx mod_root @ [''base'']) q \<Longrightarrow> fs2 q = fs q"
    using base_unchanged [OF c(2) tag] a1 by simp
  have a3: "\<And>q. prefix (gfx mod_root @ [''base'']) q \<Longrightarrow> fs3 q = fs q"
    using base_unchanged [OF c(3) tag] a2 by simp
  have a4: "\<And>q. prefix (gfx mod_root @ [''base'']) q \<Longrightarrow> fs4 q = fs q"
    using base_unchanged [OF c(4) tag] a3 by simp
  have "c1 = png_count fs (edges_in mod_root)"
    using process_folder_png_count [OF out_not_under_in(1) [OF tag] p1] .
  moreover have "c2 = png_count fs (corners_in mod_root)"
    using process_folder_png_count [OF out_not_under_in(2) [OF tag] p2] a1 [OF inputs_under_base(2)]
    by (simp add: png_count_def)
  moreover have "c3 = png_count fs (centers_in mod_root)"
    using process_folder_png_count [OF out_not_under_in(3) [OF tag] p3] a2 [OF inputs_under_base(3)]
    by (simp add: png_count_def)
  moreover have "isfile fs3 (border_in mod_root) = isfile fs (border_in mod_root)"
    using a3 [OF inputs_under_base(4)] by (simp add: isfile_def)
  moreover have "inputs_count mod_root fs4 = inputs_count mod_root fs"
    using a4 by (rule inputs_count_cong)
  ultimately show ?case
    using Cons.IH [OF _ r] Cons.prems(1) by (simp add: inputs_count_def)
qed

end
