(* ===== verification/Driver_Runs.thy ===== *)
theory Driver_Runs
  imports Driver
begin

text \<open>
  What a successful run of the batch driver leaves in the filesystem: the file each
  input PNG is written to under every variant's folder (\<open>main_loop_output\<close>,
  \<open>main_loop_border\<close>) and the frame of one variant's iteration, with the
  sample tree's well-formedness and the error lemma behind an aborted folder.
\<close>

subsection \<open>Output files\<close>

lemma variant_root_on_path:
  "t \<noteq> t' \<Longrightarrow> \<not> on_path (variant_root mod_root t') (variant_root mod_root t @ x # xs)"
  by (auto simp: on_path_def variant_root_def)

lemma out_files_apart:
  "\<not> on_path (corners_out_dir mod_root t) (edges_out_dir mod_root t @ [name])"
  "\<not> on_path (centers_out_dir mod_root t) (edges_out_dir mod_root t @ [name])"
  "\<not> on_path (centers_out_dir mod_root t) (corners_out_dir mod_root t @ [name])"
  "\<not> prefix (edges_out_dir mod_root t @ [name]) (border_out_path mod_root t)"
  "\<not> prefix (corners_out_dir mod_root t @ [name]) (border_out_path mod_root t)"
  "\<not> prefix (centers_out_dir mod_root t @ [name]) (border_out_path mod_root t)"
  by (auto simp: on_path_def edges_out_dir_def corners_out_dir_def centers_out_dir_def
                 border_out_path_def variant_root_def)

lemma process_names_changes_names:
  "process_names i od oa ta names (fs, c) = Inr (fs', n) \<Longrightarrow>
     changes_within fs fs' (\<lambda>q. prefix q od \<or> (\<exists>m\<in>set names. q = od @ [m]))"
proof (induction names arbitrary: fs c)
  case Nil
  then show ?case by simp
next
  case (Cons name names)
  show ?case
  proof (cases "is_png_name name")
    case False
    with Cons.prems have "process_names i od oa ta names (fs, c) = Inr (fs', n)" by simp
    from Cons.IH [OF this] show ?thesis by (rule changes_within_mono) auto
  next
    case True
    with Cons.prems obtain fs1 where t: "transform_image (i @ [name]) (od @ [name]) oa ta fs = Inr fs1"
      and r: "process_names i od oa ta names (fs1, c + 1) = Inr (fs', n)"
      by (auto split: sum.splits)
    from changes_within_trans [OF transform_image_changes [OF t] Cons.IH [OF r]] show ?thesis
      by (rule changes_within_mono) (auto simp: prefix_snoc)
  qed
qed

lemma process_names_output:
  assumes "process_names i od oa ta names (fs, c) = Inr (fs', n)" "name \<in> set names" "is_png_name name"
    and "fs (i @ [name]) = Some (File (Png img))" "\<not> prefix i od"
  shows "fs' (od @ [name]) = Some (File (Png (fst (snd (transform_pixels img oa ta)))))"
  using assms(1,2,4)
proof (induction names arbitrary: fs c)
  case Nil
  then show ?case by simp
next
  case (Cons m ms)
  show ?case
  proof (cases "is_png_name m")
    case False
    with Cons.prems assms(3) have "m \<noteq> name" "process_names i od oa ta ms (fs, c) = Inr (fs', n)" by auto
    with Cons.prems Cons.IH show ?thesis by simp
  next
    case True
    with Cons.prems(1) obtain fs1 where t: "transform_image (i @ [m]) (od @ [m]) oa ta fs = Inr fs1"
      and r: "process_names i od oa ta ms (fs1, c + 1) = Inr (fs', n)"
      by (auto split: sum.splits)
    show ?thesis
    proof (cases "name \<in> set ms")
      case True
      have "fs1 (i @ [name]) = fs (i @ [name])"
        using transform_image_changes [OF t] prefix_snoc_snoc [OF assms(5)]
        by (rule unchanged_off)
      with Cons.prems(3) Cons.IH [OF r True] show ?thesis by simp
    next
      case False
      with Cons.prems(2) have m: "m = name" by simp
      have "fs' (od @ [name]) = fs1 (od @ [name])"
        using process_names_changes_names [OF r] by (rule unchanged_off) (use False in auto)
      with transform_image_saves [OF Cons.prems(3) t [unfolded m]] show ?thesis by simp
    qed
  qed
qed

lemma process_folder_output:
  assumes "process_folder i od oa ta fs = Inr (fs', n)" "fs i = Some (Dir names)" "\<not> prefix i od"
    and "name \<in> set names" "is_png_name name" "fs (i @ [name]) = Some (File (Png img))"
  shows "fs' (od @ [name]) = Some (File (Png (fst (snd (transform_pixels img oa ta)))))"
proof -
  from assms(1,2) obtain fs1 names1 where e: "ensure_dir od fs = Inr fs1"
    and l: "listdir fs1 i = Inr names1"
    and p: "process_names i od oa ta names1 (fs1, 0) = Inr (fs', n)"
    by (auto simp: process_folder_def isdir_def split: sum.splits)
  have "fs1 i = fs i"
    using ensure_dir_changes [OF e] assms(3) by (rule unchanged_off)
  with assms(2) l have "names1 = names" by (simp add: listdir_def)
  moreover have "fs1 (i @ [name]) = fs (i @ [name])"
    using ensure_dir_changes [OF e] by (rule unchanged_off) (use assms(3) in \<open>auto dest: append_prefixD\<close>)
  ultimately show ?thesis
    using process_names_output [OF p _ assms(5) _ assms(3)] assms(4,6) by simp
qed

lemma variant_step_output:
  assumes p1: "process_folder (edges_in mod_root) (edges_out_dir mod_root t) oa ta fs = Inr (fs1, c1)"
    and p2: "process_folder (corners_in mod_root) (corners_out_dir mod_root t) oa ta fs1 = Inr (fs2, c2)"
    and p3: "process_folder (centers_in mod_root) (centers_out_dir mod_root t) oa ta fs2 = Inr (fs3, c3)"
    and c: "changes_within fs fs1 (on_path (edges_out_dir mod_root t))"
      "changes_within fs1 fs2 (on_path (corners_out_dir mod_root t))"
      "changes_within fs2 fs3 (on_path (centers_out_dir mod_root t))"
      "changes_within fs3 fs4 (\<lambda>q. prefix q (border_out_path mod_root t))"
    and tag: "t \<noteq> ''base''"
    and io: "(i, od) \<in> {(edges_in mod_root, edges_out_dir mod_root t),
                        (corners_in mod_root, corners_out_dir mod_root t),
                        (centers_in mod_root, centers_out_dir mod_root t)}"
    and inp: "fs i = Some (Dir names)" "name \<in> set names" "is_png_name name"
      "fs (i @ [name]) = Some (File (Png img))"
  shows "fs4 (od @ [name]) = Some (File (Png (fst (snd (transform_pixels img oa ta)))))"
proof -
  have i_base: "prefix (gfx mod_root @ [''base'']) i"
    using io inputs_under_base by auto
  then have n_base: "prefix (gfx mod_root @ [''base'']) (i @ [name])"
    by (rule prefix_prefix)
  have b1: "\<And>q. prefix (gfx mod_root @ [''base'']) q \<Longrightarrow> fs1 q = fs q"
    using base_unchanged [OF changes_within_mono [OF c(1) variant_out_on_path(1)] tag] .
  have b2: "\<And>q. prefix (gfx mod_root @ [''base'']) q \<Longrightarrow> fs2 q = fs q"
    using base_unchanged [OF changes_within_mono [OF c(2) variant_out_on_path(2)] tag] b1 by simp
  from io consider (e) "i = edges_in mod_root" "od = edges_out_dir mod_root t"
    | (k) "i = corners_in mod_root" "od = corners_out_dir mod_root t"
    | (m) "i = centers_in mod_root" "od = centers_out_dir mod_root t"
    by auto
  then show ?thesis
  proof cases
    case e
    have "fs1 (od @ [name]) = Some (File (Png (fst (snd (transform_pixels img oa ta)))))"
      using process_folder_output [OF p1 _ out_not_under_in(1) [OF tag]] inp e by simp
    moreover have "fs2 (od @ [name]) = fs1 (od @ [name])"
      using unchanged_off [OF c(2) out_files_apart(1)] e by simp
    moreover have "fs3 (od @ [name]) = fs2 (od @ [name])"
      using unchanged_off [OF c(3) out_files_apart(2)] e by simp
    moreover have "fs4 (od @ [name]) = fs3 (od @ [name])"
      using unchanged_off [OF c(4) out_files_apart(4)] e by simp
    ultimately show ?thesis by simp
  next
    case k
    have "fs2 (od @ [name]) = Some (File (Png (fst (snd (transform_pixels img oa ta)))))"
      using process_folder_output [OF p2 _ out_not_under_in(2) [OF tag]] inp k b1 [OF i_base] b1 [OF n_base]
      by simp
    moreover have "fs3 (od @ [name]) = fs2 (od @ [name])"
      using unchanged_off [OF c(3) out_files_apart(3)] k by simp
    moreover have "fs4 (od @ [name]) = fs3 (od @ [name])"
      using unchanged_off [OF c(4) out_files_apart(5)] k by simp
    ultimately show ?thesis by simp
  next
    case m
    have "fs3 (od @ [name]) = Some (File (Png (fst (snd (transform_pixels img oa ta)))))"
      using process_folder_output [OF p3 _ out_not_under_in(3) [OF tag]] inp m b2 [OF i_base] b2 [OF n_base]
      by simp
    moreover have "fs4 (od @ [name]) = fs3 (od @ [name])"
      using unchanged_off [OF c(4) out_files_apart(6)] m by simp
    ultimately show ?thesis by simp
  qed
qed

lemma main_loop_output:
  assumes "main_loop mod_root vs (fs, t) = Inr (fs', n)" "v \<in> set vs" "distinct (map tag vs)"
    and "\<forall>w\<in>set vs. tag w \<noteq> ''base''"
    and io: "(i, od) \<in> {(edges_in mod_root, edges_out_dir mod_root (tag v)),
                        (corners_in mod_root, corners_out_dir mod_root (tag v)),
                        (centers_in mod_root, centers_out_dir mod_root (tag v))}"
    and inp: "fs i = Some (Dir names)" "name \<in> set names" "is_png_name name"
      "fs (i @ [name]) = Some (File (Png img))"
  shows "fs' (od @ [name]) = Some (File (Png (fst (snd (transform_pixels img
           (word_of_int (fst (variant_targets v))) (word_of_int (snd (variant_targets v))))))))"
  using assms(1-4) inp
proof (induction vs arbitrary: fs t)
  case Nil
  then show ?case by simp
next
  case (Cons w ws)
  obtain fs1 c1 fs2 c2 fs3 c3 fs4 where
    p: "process_folder (edges_in mod_root) (edges_out_dir mod_root (tag w))
       (word_of_int (fst (variant_targets w))) (word_of_int (snd (variant_targets w))) fs = Inr (fs1, c1)"
    "process_folder (corners_in mod_root) (corners_out_dir mod_root (tag w))
       (word_of_int (fst (variant_targets w))) (word_of_int (snd (variant_targets w))) fs1 = Inr (fs2, c2)"
    "process_folder (centers_in mod_root) (centers_out_dir mod_root (tag w))
       (word_of_int (fst (variant_targets w))) (word_of_int (snd (variant_targets w))) fs2 = Inr (fs3, c3)"
    and r: "main_loop mod_root ws (fs4, t + c1 + c2 + c3 + (if isfile fs3 (border_in mod_root) then 1 else 0)) = Inr (fs', n)"
    and c: "changes_within fs fs1 (on_path (edges_out_dir mod_root (tag w)))"
    "changes_within fs1 fs2 (on_path (corners_out_dir mod_root (tag w)))"
    "changes_within fs2 fs3 (on_path (centers_out_dir mod_root (tag w)))"
    "changes_within fs3 fs4 (\<lambda>q. prefix q (border_out_path mod_root (tag w)))"
    using Cons.prems(1) by (rule main_loop_step_fine)
  have tag: "tag w \<noteq> ''base''" using Cons.prems(4) by simp
  show ?case
  proof (cases "v = w")
    case True
    have out: "fs4 (od @ [name]) = Some (File (Png (fst (snd (transform_pixels img
           (word_of_int (fst (variant_targets v))) (word_of_int (snd (variant_targets v))))))))"
      using variant_step_output [OF p c tag _ Cons.prems(5-8)] io True by simp
    have "\<not> on_path (variant_root mod_root (tag u)) (od @ [name])" if "u \<in> set ws" for u
    proof -
      from Cons.prems(3) that True have "tag v \<noteq> tag u" by auto
      then show ?thesis using io
        by (auto simp: edges_out_dir_def corners_out_dir_def centers_out_dir_def
                 dest: variant_root_on_path)
    qed
    then have "fs' (od @ [name]) = fs4 (od @ [name])"
      using main_loop_changes [OF r] by (auto intro: unchanged_off)
    with out show ?thesis by simp
  next
    case False
    have i_base: "prefix (gfx mod_root @ [''base'']) i"
      using io inputs_under_base by auto
    then have n_base: "prefix (gfx mod_root @ [''base'']) (i @ [name])"
      by (rule prefix_prefix)
    have "\<And>q. prefix (gfx mod_root @ [''base'']) q \<Longrightarrow> fs4 q = fs q"
      using base_unchanged [OF changes_within_mono [OF c(1) variant_out_on_path(1)] tag]
            base_unchanged [OF changes_within_mono [OF c(2) variant_out_on_path(2)] tag]
            base_unchanged [OF changes_within_mono [OF c(3) variant_out_on_path(3)] tag]
            base_unchanged [OF changes_within_mono [OF c(4) variant_out_on_path(4)] tag]
      by simp
    with Cons.prems False i_base n_base show ?thesis
      by (intro Cons.IH [OF r]) simp_all
  qed
qed

lemma variant_step_base:
  assumes "changes_within fs fs1 (on_path (edges_out_dir mod_root t))"
    "changes_within fs1 fs2 (on_path (corners_out_dir mod_root t))"
    "changes_within fs2 fs3 (on_path (centers_out_dir mod_root t))"
    "changes_within fs3 fs4 (\<lambda>q. prefix q (border_out_path mod_root t))"
    and "t \<noteq> ''base''" "prefix (gfx mod_root @ [''base'']) q"
  shows "fs1 q = fs q \<and> fs2 q = fs q \<and> fs3 q = fs q \<and> fs4 q = fs q"
  using base_unchanged [OF changes_within_mono [OF assms(1) variant_out_on_path(1)] assms(5,6)]
        base_unchanged [OF changes_within_mono [OF assms(2) variant_out_on_path(2)] assms(5,6)]
        base_unchanged [OF changes_within_mono [OF assms(3) variant_out_on_path(3)] assms(5,6)]
        base_unchanged [OF changes_within_mono [OF assms(4) variant_out_on_path(4)] assms(5,6)]
  by simp

lemma main_loop_border_step:
  assumes "main_loop mod_root (v # vs) (fs, t) = Inr (fs', n)"
    and "process_folder (edges_in mod_root) (edges_out_dir mod_root (tag v))
       (word_of_int (fst (variant_targets v))) (word_of_int (snd (variant_targets v))) fs = Inr (fs1, c1)"
    "process_folder (corners_in mod_root) (corners_out_dir mod_root (tag v))
       (word_of_int (fst (variant_targets v))) (word_of_int (snd (variant_targets v))) fs1 = Inr (fs2, c2)"
    "process_folder (centers_in mod_root) (centers_out_dir mod_root (tag v))
       (word_of_int (fst (variant_targets v))) (word_of_int (snd (variant_targets v))) fs2 = Inr (fs3, c3)"
    and "isfile fs3 (border_in mod_root)"
  shows "\<exists>fs4. transform_image (border_in mod_root) (border_out_path mod_root (tag v))
                (word_of_int (fst (variant_targets v))) (word_of_int (snd (variant_targets v))) fs3 = Inr fs4 \<and>
              main_loop mod_root vs (fs4, t + c1 + c2 + c3 + 1) = Inr (fs', n)"
  using assms by (cases "variant_targets v") (auto simp: Let_def split: sum.splits)

lemma main_loop_border:
  assumes "main_loop mod_root vs (fs, t) = Inr (fs', n)" "v \<in> set vs" "distinct (map tag vs)"
    and "\<forall>w\<in>set vs. tag w \<noteq> ''base''" "fs (border_in mod_root) = Some (File (Png img))"
  shows "fs' (border_out_path mod_root (tag v)) = Some (File (Png (fst (snd (transform_pixels img
           (word_of_int (fst (variant_targets v))) (word_of_int (snd (variant_targets v))))))))"
  using assms
proof (induction vs arbitrary: fs t)
  case Nil
  then show ?case by simp
next
  case (Cons w ws)
  obtain fs1 c1 fs2 c2 fs3 c3 fs4 where
    p: "process_folder (edges_in mod_root) (edges_out_dir mod_root (tag w))
       (word_of_int (fst (variant_targets w))) (word_of_int (snd (variant_targets w))) fs = Inr (fs1, c1)"
    "process_folder (corners_in mod_root) (corners_out_dir mod_root (tag w))
       (word_of_int (fst (variant_targets w))) (word_of_int (snd (variant_targets w))) fs1 = Inr (fs2, c2)"
    "process_folder (centers_in mod_root) (centers_out_dir mod_root (tag w))
       (word_of_int (fst (variant_targets w))) (word_of_int (snd (variant_targets w))) fs2 = Inr (fs3, c3)"
    and r: "main_loop mod_root ws (fs4, t + c1 + c2 + c3 + (if isfile fs3 (border_in mod_root) then 1 else 0)) = Inr (fs', n)"
    and c: "changes_within fs fs1 (on_path (edges_out_dir mod_root (tag w)))"
    "changes_within fs1 fs2 (on_path (corners_out_dir mod_root (tag w)))"
    "changes_within fs2 fs3 (on_path (centers_out_dir mod_root (tag w)))"
    "changes_within fs3 fs4 (\<lambda>q. prefix q (border_out_path mod_root (tag w)))"
    using Cons.prems(1) by (rule main_loop_step_fine)
  have tag: "tag w \<noteq> ''base''" using Cons.prems(4) by simp
  have base: "fs3 (border_in mod_root) = fs (border_in mod_root) \<and> fs4 (border_in mod_root) = fs (border_in mod_root)"
    using variant_step_base [OF c tag inputs_under_base(4)] by simp
  show ?case
  proof (cases "v = w")
    case True
    have "isfile fs3 (border_in mod_root)" using base Cons.prems(5) by (simp add: isfile_def)
    then obtain fs5 where t: "transform_image (border_in mod_root) (border_out_path mod_root (tag w))
        (word_of_int (fst (variant_targets w))) (word_of_int (snd (variant_targets w))) fs3 = Inr fs5"
      and r5: "main_loop mod_root ws (fs5, t + c1 + c2 + c3 + 1) = Inr (fs', n)"
      using main_loop_border_step [OF Cons.prems(1) p] by blast
    have "\<not> on_path (variant_root mod_root (tag u)) (border_out_path mod_root (tag v))" if "u \<in> set ws" for u
    proof -
      from Cons.prems(3) that True have "tag v \<noteq> tag u" by auto
      then show ?thesis by (auto simp: border_out_path_def dest: variant_root_on_path)
    qed
    then have "fs' (border_out_path mod_root (tag v)) = fs5 (border_out_path mod_root (tag v))"
      using main_loop_changes [OF r5] by (auto intro: unchanged_off)
    with transform_image_saves [OF _ t] base Cons.prems(5) True show ?thesis by simp
  next
    case False
    with Cons.prems base show ?thesis
      by (intro Cons.IH [OF r]) simp_all
  qed
qed

subsection \<open>Samples and helpers\<close>

lemma wf_sample_fs: "wf_fs sample_fs"
  unfolding wf_fs_def sample_fs_def by (auto dest!: map_of_SomeD)

lemma process_folder_open_error:
  assumes "fs i = Some (Dir names)" "\<not> prefix i od" "name \<in> set names" "is_png_name name"
    and "isl (open_rgba (i @ [name]) fs)"
  shows "\<exists>e. process_folder i od oa ta fs = Inl e"
proof (cases "ensure_dir od fs")
  case (Inl e)
  with assms(1) show ?thesis by (simp add: process_folder_def isdir_def)
next
  case (Inr fs1)
  have i: "fs1 i = fs i"
    using ensure_dir_changes [OF Inr] assms(2) by (rule unchanged_off)
  have "fs1 (i @ [name]) = fs (i @ [name])"
    using ensure_dir_changes [OF Inr] by (rule unchanged_off) (use assms(2) in \<open>auto dest: append_prefixD\<close>)
  then have "\<exists>e. process_names i od oa ta names (fs1, 0) = Inl e"
    using process_names_open_error [OF assms(3,4) _ assms(2)] assms(5) by (simp add: open_rgba_def)
  with Inr i assms(1) show ?thesis by (simp add: process_folder_def isdir_def listdir_def)
qed

lemma Inr_projr: "\<not> isl r \<Longrightarrow> r = Inr (projr r)"
  by (cases r) simp_all

end
