(* ===== verification/Driver_Props.thy ===== *)
theory Driver_Props
  imports Driver_Runs
begin

text \<open>
  The properties of the batch driver of \<open>make_boundary_translucent.py\<close>, each
  with a witness on the sample trees of \<open>Driver\<close>.
\<close>

subsection \<open>Properties of the driver\<close>



text \<open>
  C14: a missing input folder is skipped: \<open>process_folder\<close> changes nothing and
  counts no file.
\<close>

theorem process_folder_missing_skips:
  "\<not> isdir fs in_dir \<Longrightarrow> process_folder in_dir out_dir oa ta fs = Inr (fs, 0)"
  by (simp add: process_folder_def)

theorem process_folder_missing_skips_witness:
  "process_folder (corners_in sample_root) (corners_out_dir sample_root ''a40_15'') 102 38 sample_fs
     = Inr (sample_fs, 0)"
proof -
  have "\<not> isdir sample_fs (corners_in sample_root)" by code_simp
  then show ?thesis by (rule process_folder_missing_skips)
qed

text \<open>
  C15: after a successful \<open>transform_image\<close>, the output path holds exactly the
  remapped image computed from the decoded input.
\<close>

theorem transform_image_writes_result:
  assumes "fs in_path = Some (File (Png img))" "transform_image in_path out_path oa ta fs = Inr fs'"
  shows "fs' out_path = Some (File (Png (fst (snd (transform_pixels img oa ta)))))"
  using assms by (rule transform_image_saves)

theorem transform_image_writes_result_witness:
  "projr (transform_image (edges_in sample_root @ [''a.png''])
            (edges_out_dir sample_root ''a10_25'' @ [''a.png'']) 26 64 sample_fs)
     (edges_out_dir sample_root ''a10_25'' @ [''a.png''])
   = Some (File (Png (fst (snd (transform_pixels two_mode_sample 26 64)))))"
proof -
  let ?r = "transform_image (edges_in sample_root @ [''a.png''])
              (edges_out_dir sample_root ''a10_25'' @ [''a.png'']) 26 64 sample_fs"
  have i: "sample_fs (edges_in sample_root @ [''a.png'']) = Some (File (Png two_mode_sample))"
    by code_simp
  have "\<not> isl ?r" by code_simp
  then have "?r = Inr (projr ?r)" by (rule Inr_projr)
  with i show ?thesis by (rule transform_image_writes_result)
qed

text \<open>
  C16: a successful \<open>process_folder\<close> on an existing folder outside its output
  folder processes and counts exactly the listed names ending in \<open>.png\<close>, in any
  letter case.
\<close>

theorem process_folder_counts_pngs:
  assumes "fs in_dir = Some (Dir names)" "\<not> prefix in_dir out_dir"
    and "process_folder in_dir out_dir oa ta fs = Inr (fs', n)"
  shows "n = length (filter is_png_name names)"
  using assms by (rule process_folder_count)

theorem process_folder_counts_pngs_witness:
  "snd (projr (process_folder (edges_in sample_root) (edges_out_dir sample_root ''a40_15'') 102 38 sample_fs))
     = length (filter is_png_name [''a.png'', ''B.PNG'', ''notes.txt'']) \<and>
   length (filter is_png_name [''a.png'', ''B.PNG'', ''notes.txt'']) = 2"
proof -
  let ?r = "process_folder (edges_in sample_root) (edges_out_dir sample_root ''a40_15'') 102 38 sample_fs"
  have d: "sample_fs (edges_in sample_root) = Some (Dir [''a.png'', ''B.PNG'', ''notes.txt''])"
    by code_simp
  have np: "\<not> prefix (edges_in sample_root) (edges_out_dir sample_root ''a40_15'')"
    by code_simp
  have "\<not> isl ?r" by code_simp
  then have "?r = Inr (fst (projr ?r), snd (projr ?r))" by (simp add: Inr_projr [symmetric])
  from process_folder_counts_pngs [OF d np this] show ?thesis by code_simp
qed

text \<open>
  C17: one listed name ending in \<open>.png\<close> that \<open>Image.open\<close> cannot read (bytes
  that are no image, a sub-directory, or an entry gone from the tree) anywhere in
  an input folder makes \<open>process_folder\<close> raise, so the batch stops there instead
  of reporting that file and going on.
\<close>

theorem process_folder_aborts_on_undecodable:
  assumes "fs in_dir = Some (Dir names)" "\<not> prefix in_dir out_dir"
    and "name \<in> set names" "is_png_name name"
    and "isl (open_rgba (in_dir @ [name]) fs)"
  shows "\<exists>e. process_folder in_dir out_dir oa ta fs = Inl e"
  using assms by (rule process_folder_open_error)

theorem process_folder_aborts_on_undecodable_witness:
  "\<exists>e. process_folder (edges_in sample_root) (edges_out_dir sample_root ''a40_15'') 102 38 broken_fs = Inl e"
proof -
  have "broken_fs (edges_in sample_root) = Some (Dir [''bad.png'', ''a.png''])"
    "\<not> prefix (edges_in sample_root) (edges_out_dir sample_root ''a40_15'')"
    "''bad.png'' \<in> set [''bad.png'', ''a.png'']" "is_png_name ''bad.png''"
    "isl (open_rgba (edges_in sample_root @ [''bad.png'']) broken_fs)"
    by code_simp+
  then show ?thesis by (rule process_folder_aborts_on_undecodable)
qed

text \<open>
  C18: a successful run of \<open>main\<close> never changes anything under
  \<open>graphics/base\<close>: every file and directory it writes lies on the path to or
  inside a variant's folder \<open>graphics/<tag>\<close>, and no tag is \<open>base\<close>.
\<close>

theorem main_preserves_inputs:
  assumes "main mod_root fs = Inr st" "prefix (gfx mod_root @ [''base'']) p"
  shows "fst st p = fs p"
proof -
  obtain fs' n where st: "st = (fs', n)" by (cases st)
  have ch: "changes_within fs fs' (\<lambda>q. \<exists>v\<in>set VARIANTS. on_path (variant_root mod_root (tag v)) q)"
    using assms(1) st by (simp add: main_def main_loop_changes)
  have "\<forall>v\<in>set VARIANTS. tag v \<noteq> ''base''" by (simp add: VARIANTS_def)
  then have "\<not> (\<exists>v\<in>set VARIANTS. on_path (variant_root mod_root (tag v)) p)"
    using assms(2) not_base_on_path_variant by blast
  with ch st show ?thesis by (simp add: unchanged_off)
qed

theorem main_preserves_inputs_witness:
  "fst (projr (main sample_root sample_fs)) (edges_in sample_root @ [''a.png'']) =
     Some (File (Png two_mode_sample))"
proof -
  have "\<not> isl (main sample_root sample_fs)" by code_simp
  then have m: "main sample_root sample_fs = Inr (projr (main sample_root sample_fs))"
    by (rule Inr_projr)
  have p: "prefix (gfx sample_root @ [''base'']) (edges_in sample_root @ [''a.png''])"
    by code_simp
  have "sample_fs (edges_in sample_root @ [''a.png'']) = Some (File (Png two_mode_sample))"
    by code_simp
  with main_preserves_inputs [OF m p] show ?thesis by simp
qed

text \<open>
  C19: a successful run of \<open>main\<close> reports as its total three times the number of
  input files: the PNG names of the three input folders plus the border image.
\<close>

theorem main_total_files:
  assumes "main mod_root fs = Inr (fs', n)"
  shows "n = 3 * inputs_count mod_root fs"
proof -
  have "\<forall>v\<in>set VARIANTS. tag v \<noteq> ''base''" by (simp add: VARIANTS_def)
  from this assms have "n = 0 + length VARIANTS * inputs_count mod_root fs"
    unfolding main_def by (rule main_loop_total)
  then show ?thesis by (simp add: VARIANTS_def)
qed

theorem main_total_files_witness:
  "snd (projr (main sample_root sample_fs)) = 3 * inputs_count sample_root sample_fs \<and>
   inputs_count sample_root sample_fs = 3"
proof -
  let ?r = "main sample_root sample_fs"
  have "\<not> isl ?r" by code_simp
  then have "?r = Inr (fst (projr ?r), snd (projr ?r))" by (simp add: Inr_projr [symmetric])
  from main_total_files [OF this] show ?thesis by code_simp
qed

text \<open>
  C20: after a successful run of \<open>main\<close>, for every variant and every PNG file
  listed in one of the three input folders, the mirrored path under the variant's
  folder holds the input remapped with that variant's 8-bit targets.
\<close>

theorem main_writes_outputs:
  assumes "main mod_root fs = Inr (fs', n)" "v \<in> set VARIANTS"
    and "(i, od) \<in> {(edges_in mod_root, edges_out_dir mod_root (tag v)),
                    (corners_in mod_root, corners_out_dir mod_root (tag v)),
                    (centers_in mod_root, centers_out_dir mod_root (tag v))}"
    and "fs i = Some (Dir names)" "name \<in> set names" "is_png_name name"
      "fs (i @ [name]) = Some (File (Png img))"
  shows "fs' (od @ [name]) = Some (File (Png (fst (snd (transform_pixels img
           (word_of_int (fst (variant_targets v))) (word_of_int (snd (variant_targets v))))))))"
proof -
  have "distinct (map tag VARIANTS)" "\<forall>w\<in>set VARIANTS. tag w \<noteq> ''base''"
    by (simp_all add: VARIANTS_def)
  with assms show ?thesis
    unfolding main_def by (intro main_loop_output [of mod_root VARIANTS fs 0 fs' n]) simp_all
qed

theorem main_writes_outputs_witness:
  "fst (projr (main sample_root sample_fs)) (edges_out_dir sample_root ''a10_25'' @ [''a.png'']) =
     Some (File (Png (two_mode_sample\<lparr>rows := [[px 255 0 0 26, px 0 255 0 64]]\<rparr>)))"
proof -
  let ?r = "main sample_root sample_fs"
  let ?v = "\<lparr>tag = ''a10_25'', opaque_alpha = 1 / 10, transparent_alpha = 1 / 4\<rparr>"
  have "\<not> isl ?r" by code_simp
  then have r: "?r = Inr (fst (projr ?r), snd (projr ?r))" by (simp add: Inr_projr [symmetric])
  have v: "?v \<in> set VARIANTS" by (simp add: VARIANTS_def)
  have io: "(edges_in sample_root, edges_out_dir sample_root (tag ?v)) \<in>
              {(edges_in sample_root, edges_out_dir sample_root (tag ?v)),
               (corners_in sample_root, corners_out_dir sample_root (tag ?v)),
               (centers_in sample_root, centers_out_dir sample_root (tag ?v))}" by simp
  have inp: "sample_fs (edges_in sample_root) = Some (Dir [''a.png'', ''B.PNG'', ''notes.txt''])"
    "''a.png'' \<in> set [''a.png'', ''B.PNG'', ''notes.txt'']" "is_png_name ''a.png''"
    "sample_fs (edges_in sample_root @ [''a.png'']) = Some (File (Png two_mode_sample))"
    by code_simp+
  from main_writes_outputs [OF r v io inp] show ?thesis by code_simp
qed

text \<open>
  C25: after a successful run of \<open>main\<close>, when \<open>graphics/base/chart-border.png\<close>
  is a PNG, every variant's folder holds \<open>chart-border.png\<close> remapped with that
  variant's targets.
\<close>

theorem main_writes_border:
  assumes "main mod_root fs = Inr (fs', n)" "v \<in> set VARIANTS"
    and "fs (border_in mod_root) = Some (File (Png img))"
  shows "fs' (border_out_path mod_root (tag v)) = Some (File (Png (fst (snd (transform_pixels img
           (word_of_int (fst (variant_targets v))) (word_of_int (snd (variant_targets v))))))))"
proof -
  have "distinct (map tag VARIANTS)" "\<forall>w\<in>set VARIANTS. tag w \<noteq> ''base''"
    by (simp_all add: VARIANTS_def)
  with assms show ?thesis
    unfolding main_def by (intro main_loop_border [of mod_root VARIANTS fs 0 fs' n]) simp_all
qed

theorem main_writes_border_witness:
  "fst (projr (main sample_root sample_fs)) (border_out_path sample_root ''a20_075'') =
     Some (File (Png clear_sample))"
proof -
  let ?r = "main sample_root sample_fs"
  let ?v = "\<lparr>tag = ''a20_075'', opaque_alpha = 1 / 5, transparent_alpha = 3 / 40\<rparr>"
  have "\<not> isl ?r" by code_simp
  then have r: "?r = Inr (fst (projr ?r), snd (projr ?r))" by (simp add: Inr_projr [symmetric])
  have v: "?v \<in> set VARIANTS" by (simp add: VARIANTS_def)
  have b: "sample_fs (border_in sample_root) = Some (File (Png clear_sample))" by code_simp
  from main_writes_border [OF r v b] show ?thesis by code_simp
qed

text \<open>
  C26: on a well-formed tree, \<open>ensure_dir\<close> (\<open>os.makedirs(p, exist_ok=True)\<close>)
  fails exactly when some prefix of \<open>p\<close> is a file; when it succeeds, \<open>p\<close> is a
  directory and the tree is still well-formed.
\<close>

theorem ensure_dir_outcome:
  assumes "wf_fs fs"
  shows "((\<exists>e. ensure_dir p fs = Inl e) \<longleftrightarrow> (\<exists>i. 0 < i \<and> i \<le> length p \<and> isfile fs (take i p))) \<and>
         (\<forall>fs'. ensure_dir p fs = Inr fs' \<longrightarrow> wf_fs fs' \<and> isdir fs' p)"
  using ensure_dir_Inl_iff [OF assms] ensure_dir_wf [OF assms] by blast

theorem ensure_dir_outcome_witness:
  "isfile sample_fs (take 5 (edges_in sample_root @ [''a.png'', ''sub''])) \<and>
   (\<exists>e. ensure_dir (edges_in sample_root @ [''a.png'', ''sub'']) sample_fs = Inl e)"
proof -
  have f: "isfile sample_fs (take 5 (edges_in sample_root @ [''a.png'', ''sub'']))" by code_simp
  have "5 \<le> length (edges_in sample_root @ [''a.png'', ''sub''])" by code_simp
  with f ensure_dir_outcome [OF wf_sample_fs, of "edges_in sample_root @ [''a.png'', ''sub'']"]
  show ?thesis by (metis zero_less_numeral)
qed

end
