(* ===== verification/Driver_Log.thy ===== *)
theory Driver_Log
  imports Driver_Runs "HOL-Library.Sublist"
begin

text \<open>
  What the batch driver of \<open>src/scripts/make_boundary_translucent.py\<close> prints on
  standard output: the diagnostic line of every \<open>transform_image\<close> call that
  completes, the \<open>Skip\<close> line of a missing input folder and the closing \<open>Done\<close>
  line of \<open>main\<close>. The driver functions are restated here with their \<open>print\<close>
  calls; each returns its result (the new state or the exception) together with
  the lines printed, in order, as a writer: \<open>log_bind\<close> runs the rest of a
  function on a result and concatenates the lines, and stops at an exception,
  keeping what was printed before it. Paths are printed as Python prints them:
  an input folder as its absolute path, a processed file relative to the mod
  root by \<open>os.path.relpath\<close>. The lemmas show that the state and result are those
  of the silent model of \<open>Driver\<close>, what each line says, and that a printed
  relative path leads back to the file it names.
\<close>

type_synonym log = "string list"

type_synonym 'a logged = "(error + 'a) \<times> log"

subsection \<open>Writer\<close>

definition lift :: "error + 'a \<Rightarrow> 'a logged" where
  "lift r = (r, [])"

definition emit :: "string \<Rightarrow> 'a \<Rightarrow> 'a logged" where
  "emit line x = (Inr x, [line])"

definition log_bind :: "'a logged \<Rightarrow> ('a \<Rightarrow> 'b logged) \<Rightarrow> 'b logged" where
  "log_bind m f =
     (case m of
        (Inl e, out) \<Rightarrow> (Inl e, out)
      | (Inr x, out) \<Rightarrow> (case f x of (r, out') \<Rightarrow> (r, out @ out')))"

subsection \<open>Printing\<close>

text \<open>
  \<open>os.path.relpath(path, start)\<close> on two absolute normalised paths: as many
  \<open>..\<close> as \<open>start\<close> has components below the common prefix, then the rest of
  \<open>path\<close>, or \<open>.\<close> when nothing is left.
\<close>

definition relpath :: "path \<Rightarrow> path \<Rightarrow> string" where
  "relpath p start =
     (let i = length (longest_common_prefix start p);
          rel_list = replicate (length start - i) ''..'' @ drop i p
      in if rel_list = [] then ''.'' else path_str rel_list)"

text \<open>An absolute path as \<open>os.path.join\<close> under \<open>os.path.abspath\<close> prints it.\<close>

definition abspath_str :: "path \<Rightarrow> string" where
  "abspath_str p = ''/'' @ path_str p"

text \<open>\<open>str()\<close> of a detected mode, an \<open>int\<close> or \<open>None\<close>.\<close>

definition opt_str :: "nat option \<Rightarrow> string" where
  "opt_str m = (case m of None \<Rightarrow> ''None'' | Some a \<Rightarrow> nat_str a)"

definition modes_str :: "nat option \<times> nat option \<Rightarrow> u8 \<Rightarrow> string" where
  "modes_str modes lower_target_alpha =
     (case modes of (high_mode, low_mode) \<Rightarrow>
        ''modes high='' @ opt_str high_mode @ '' low='' @ opt_str low_mode @
        ''; lower_target='' @ nat_str (unat lower_target_alpha))"

definition processed_line :: "path \<Rightarrow> path \<Rightarrow> path \<Rightarrow> nat \<Rightarrow> string \<Rightarrow> string" where
  "processed_line mod_root in_path out_path changed ms =
     ''Processed '' @ relpath in_path mod_root @ '' -> '' @ relpath out_path mod_root @
     '' (changed '' @ nat_str changed @ '' pixels; '' @ ms @ '')''"

definition skip_line :: "path \<Rightarrow> string" where
  "skip_line in_dir = ''Skip: missing '' @ abspath_str in_dir"

definition done_line :: "nat \<Rightarrow> string" where
  "done_line total_n =
     ''Done. '' @ nat_str total_n @ '' files processed across '' @ nat_str (length VARIANTS) @ '' variants.''"

subsection \<open>The driver with its output\<close>

definition transform_image_log :: "path \<Rightarrow> path \<Rightarrow> path \<Rightarrow> u8 \<Rightarrow> u8 \<Rightarrow> fs \<Rightarrow> fs logged" where
  "transform_image_log mod_root in_path out_path oa ta fs =
     log_bind (lift (open_rgba in_path fs)) (\<lambda>img.
       case transform_pixels img oa ta of
         (modes, out, changed) \<Rightarrow>
           log_bind (lift (ensure_dir (butlast out_path) fs)) (\<lambda>fs'.
           log_bind (lift (save out_path out fs')) (\<lambda>fs''.
           emit (processed_line mod_root in_path out_path changed (modes_str modes (min oa ta))) fs'')))"

fun process_names_log ::
  "path \<Rightarrow> path \<Rightarrow> path \<Rightarrow> u8 \<Rightarrow> u8 \<Rightarrow> string list \<Rightarrow> fs \<times> nat \<Rightarrow> (fs \<times> nat) logged" where
  "process_names_log mod_root in_dir out_dir oa ta [] st = (Inr st, [])"
| "process_names_log mod_root in_dir out_dir oa ta (name # names) (fs, count) =
     (if \<not> is_png_name name then process_names_log mod_root in_dir out_dir oa ta names (fs, count)
      else log_bind (transform_image_log mod_root (in_dir @ [name]) (out_dir @ [name]) oa ta fs)
             (\<lambda>fs'. process_names_log mod_root in_dir out_dir oa ta names (fs', count + 1)))"

definition process_folder_log :: "path \<Rightarrow> path \<Rightarrow> path \<Rightarrow> u8 \<Rightarrow> u8 \<Rightarrow> fs \<Rightarrow> (fs \<times> nat) logged" where
  "process_folder_log mod_root in_dir out_dir oa ta fs =
     (if \<not> isdir fs in_dir then emit (skip_line in_dir) (fs, 0)
      else log_bind (lift (ensure_dir out_dir fs)) (\<lambda>fs1.
           log_bind (lift (listdir fs1 in_dir)) (\<lambda>names.
           process_names_log mod_root in_dir out_dir oa ta names (fs1, 0))))"

fun main_loop_log :: "path \<Rightarrow> variant list \<Rightarrow> fs \<times> nat \<Rightarrow> (fs \<times> nat) logged" where
  "main_loop_log mod_root [] st = (Inr st, [])"
| "main_loop_log mod_root (v # vs) (fs, total_n) =
     (let (oa, ta) = variant_targets v;
          oa8 = word_of_int oa; ta8 = word_of_int ta
      in log_bind (process_folder_log mod_root (edges_in mod_root) (edges_out_dir mod_root (tag v)) oa8 ta8 fs)
           (\<lambda>(fs1, c1).
         log_bind (process_folder_log mod_root (corners_in mod_root) (corners_out_dir mod_root (tag v)) oa8 ta8 fs1)
           (\<lambda>(fs2, c2).
         log_bind (process_folder_log mod_root (centers_in mod_root) (centers_out_dir mod_root (tag v)) oa8 ta8 fs2)
           (\<lambda>(fs3, c3).
           if isfile fs3 (border_in mod_root) then
             log_bind (transform_image_log mod_root (border_in mod_root) (border_out_path mod_root (tag v)) oa8 ta8 fs3)
               (\<lambda>fs4. main_loop_log mod_root vs (fs4, total_n + c1 + c2 + c3 + 1))
           else main_loop_log mod_root vs (fs3, total_n + c1 + c2 + c3)))))"

definition main_log :: "path \<Rightarrow> fs \<Rightarrow> (fs \<times> nat) logged" where
  "main_log mod_root fs =
     log_bind (main_loop_log mod_root VARIANTS (fs, 0)) (\<lambda>(fs', total_n).
       emit (done_line total_n) (fs', total_n))"

text \<open>The sample tree of \<open>Driver\<close> with an undecodable border image.\<close>

definition late_broken_fs :: fs where
  "late_broken_fs = sample_fs ([''mod'', ''graphics'', ''base'', ''chart-border.png''] \<mapsto> File Undecodable)"

subsection \<open>Reading a printed path back\<close>

text \<open>
  The inverse direction, for stating what a printed path means: \<open>str.split('/')\<close>,
  and \<open>os.path.normpath(os.path.join(start, rel))\<close> for an absolute \<open>start\<close> on
  the components of \<open>rel\<close>. A name that \<open>os.listdir\<close> returns is not empty, holds no
  \<open>/\<close> and is neither \<open>.\<close> nor \<open>..\<close>.
\<close>

fun split_sep :: "string \<Rightarrow> string list" where
  "split_sep [] = [[]]"
| "split_sep (c # cs) =
     (let ws = split_sep cs in if c = CHR ''/'' then [] # ws else (c # hd ws) # tl ws)"

fun resolve :: "path \<Rightarrow> string list \<Rightarrow> path" where
  "resolve d [] = d"
| "resolve d (c # cs) =
     resolve (if c = ''..'' then butlast d else if c = ''.'' \<or> c = [] then d else d @ [c]) cs"

definition valid_name :: "string \<Rightarrow> bool" where
  "valid_name c \<longleftrightarrow> c \<noteq> [] \<and> CHR ''/'' \<notin> set c \<and> c \<noteq> ''.'' \<and> c \<noteq> ''..''"

text \<open>The lines a run prints before its closing line, and how many report a file.\<close>

definition body_line :: "string \<Rightarrow> bool" where
  "body_line l \<longleftrightarrow> prefix ''Processed '' l \<or> prefix ''Skip: missing '' l"

definition processed_count :: "log \<Rightarrow> nat" where
  "processed_count out = length (filter (prefix ''Processed '') out)"

subsection \<open>Evaluating the writer\<close>

lemma log_bind_Inl [simp]: "log_bind (Inl e, out) f = (Inl e, out)"
  by (simp add: log_bind_def)

lemma log_bind_Inr [simp]: "log_bind (Inr x, out) f = (fst (f x), out @ snd (f x))"
  by (simp add: log_bind_def split: prod.split)

lemma log_bind_lift [simp]: "log_bind (lift r) f = (case r of Inl e \<Rightarrow> (Inl e, []) | Inr x \<Rightarrow> f x)"
  by (cases r) (simp_all add: lift_def)

lemma fst_log_bind: "fst (log_bind m f) = (case fst m of Inl e \<Rightarrow> Inl e | Inr x \<Rightarrow> fst (f x))"
  by (cases m) (auto simp: log_bind_def split: sum.split prod.split)

lemma snd_log_bind: "snd (log_bind m f) = snd m @ (case fst m of Inl e \<Rightarrow> [] | Inr x \<Rightarrow> snd (f x))"
  by (cases m) (auto simp: log_bind_def split: sum.split prod.split)

lemma fst_emit [simp]: "fst (emit l x) = Inr x" and snd_emit [simp]: "snd (emit l x) = [l]"
  by (simp_all add: emit_def)

subsection \<open>The logged driver computes the silent one\<close>

lemma transform_image_log_result:
  "fst (transform_image_log mod_root in_path out_path oa ta fs) = transform_image in_path out_path oa ta fs"
  by (simp add: transform_image_log_def transform_image_def split: sum.split prod.split)

lemma process_names_log_result:
  "fst (process_names_log mod_root in_dir out_dir oa ta names st) = process_names in_dir out_dir oa ta names st"
  by (induction mod_root in_dir out_dir oa ta names st rule: process_names_log.induct)
     (auto simp: fst_log_bind transform_image_log_result split: sum.split)

lemma process_folder_log_result:
  "fst (process_folder_log mod_root in_dir out_dir oa ta fs) = process_folder in_dir out_dir oa ta fs"
  by (simp add: process_folder_log_def process_folder_def process_names_log_result split: sum.split)

lemma main_loop_log_result:
  "fst (main_loop_log mod_root vs st) = main_loop mod_root vs st"
  by (induction mod_root vs st rule: main_loop_log.induct)
     (auto simp: fst_log_bind process_folder_log_result transform_image_log_result Let_def
           split: sum.split prod.split)

lemma main_log_result: "fst (main_log mod_root fs) = main mod_root fs"
  by (auto simp: main_log_def main_def fst_log_bind main_loop_log_result split: sum.split)

subsection \<open>What the lines say\<close>

lemma processed_line_body [simp]:
  "body_line (processed_line mod_root i p c ms)" "prefix ''Processed '' (processed_line mod_root i p c ms)"
  by (simp_all add: body_line_def processed_line_def)

lemma skip_line_body [simp]:
  "body_line (skip_line d)" "\<not> prefix ''Processed '' (skip_line d)"
  by (simp_all add: body_line_def skip_line_def)

lemma done_line_not_body [simp]:
  "\<not> body_line (done_line n)" "\<not> prefix ''Processed '' (done_line n)"
  by (simp_all add: body_line_def done_line_def)

lemma processed_count_simps [simp]:
  "processed_count [] = 0"
  "processed_count (l # out) = (if prefix ''Processed '' l then Suc (processed_count out) else processed_count out)"
  "processed_count (out @ out') = processed_count out + processed_count out'"
  by (simp_all add: processed_count_def)

lemma log_bind_count:
  assumes "fst (log_bind m f) = Inr y"
  shows "\<exists>x. fst m = Inr x \<and> fst (f x) = Inr y \<and>
           processed_count (snd (log_bind m f)) = processed_count (snd m) + processed_count (snd (f x))"
  using assms by (cases m) (auto simp: log_bind_def split: sum.splits prod.splits)

lemma log_bind_countE:
  assumes "fst (log_bind m f) = Inr y"
  obtains x where "fst m = Inr x" "fst (f x) = Inr y"
    "processed_count (snd (log_bind m f)) = processed_count (snd m) + processed_count (snd (f x))"
  using log_bind_count [OF assms] by blast

lemma transform_image_log_lines:
  "\<exists>c ms. snd (transform_image_log mod_root i p oa ta fs) =
     (if isl (transform_image i p oa ta fs) then [] else [processed_line mod_root i p c ms])"
  by (auto simp: transform_image_log_def transform_image_def split: sum.split prod.split)

lemma transform_image_log_body:
  "list_all body_line (snd (transform_image_log mod_root i p oa ta fs))"
  using transform_image_log_lines [of mod_root i p oa ta fs] by auto

lemma transform_image_log_count:
  "fst (transform_image_log mod_root i p oa ta fs) = Inr fs' \<Longrightarrow>
   processed_count (snd (transform_image_log mod_root i p oa ta fs)) = 1"
  using transform_image_log_lines [of mod_root i p oa ta fs]
  by (auto simp: transform_image_log_result)

lemma process_names_log_body:
  "list_all body_line (snd (process_names_log mod_root in_dir out_dir oa ta names st))"
  by (induction mod_root in_dir out_dir oa ta names st rule: process_names_log.induct)
     (auto simp: snd_log_bind transform_image_log_body split: sum.split)

lemma process_names_log_count:
  "fst (process_names_log mod_root in_dir out_dir oa ta names (fs, c)) = Inr (fs', c') \<Longrightarrow>
   c' = c + processed_count (snd (process_names_log mod_root in_dir out_dir oa ta names (fs, c)))"
proof (induction names arbitrary: fs c)
  case (Cons name names)
  then show ?case
    by (auto split: if_splits elim!: log_bind_countE dest!: transform_image_log_count Cons.IH)
qed simp

lemma process_folder_log_body:
  "list_all body_line (snd (process_folder_log mod_root in_dir out_dir oa ta fs))"
  by (simp add: process_folder_log_def process_names_log_body split: sum.split)

lemma process_folder_log_count:
  "fst (process_folder_log mod_root in_dir out_dir oa ta fs) = Inr (fs', c) \<Longrightarrow>
   c = processed_count (snd (process_folder_log mod_root in_dir out_dir oa ta fs))"
  by (auto simp: process_folder_log_def dest: process_names_log_count split: if_splits sum.splits)

lemma main_loop_log_body:
  "list_all body_line (snd (main_loop_log mod_root vs st))"
  by (induction mod_root vs st rule: main_loop_log.induct)
     (auto simp: snd_log_bind Let_def process_folder_log_body transform_image_log_body
           split: sum.split prod.split)

lemma main_loop_log_count:
  "fst (main_loop_log mod_root vs (fs, n)) = Inr (fs', n') \<Longrightarrow>
   n' = n + processed_count (snd (main_loop_log mod_root vs (fs, n)))"
proof (induction vs arbitrary: fs n)
  case Nil
  then show ?case by simp
next
  case (Cons v vs)
  obtain oa ta where vt: "variant_targets v = (oa, ta)" by fastforce
  from Cons.prems vt show ?case
    by (auto simp: Let_def split: prod.splits if_splits elim!: log_bind_countE
             dest!: process_folder_log_count transform_image_log_count Cons.IH)
qed

lemma unat_min_u8: "unat (min (a :: u8) b) = min (unat a) (unat b)"
  by (simp add: min_def word_le_nat_alt)

subsection \<open>Printed paths lead back to their files\<close>

lemma split_sep_ne [simp]: "split_sep s \<noteq> []"
  by (induction s) (simp_all add: Let_def)

lemma split_sep_word:
  "CHR ''/'' \<notin> set w \<Longrightarrow> split_sep (w @ s) = (w @ hd (split_sep s)) # tl (split_sep s)"
  by (induction w) (auto simp: Let_def)

lemma split_sep_path_str:
  "xs \<noteq> [] \<Longrightarrow> \<forall>c\<in>set xs. CHR ''/'' \<notin> set c \<Longrightarrow> split_sep (path_str xs) = xs"
proof (induction xs rule: path_str.induct)
  case (2 c)
  then show ?case using split_sep_word [of c "[]"] by simp
next
  case (3 c d ds)
  then show ?case using split_sep_word [of c "''/'' @ path_str (d # ds)"] by (simp add: Let_def)
qed simp

lemma resolve_append: "resolve d (xs @ ys) = resolve (resolve d xs) ys"
  by (induction xs arbitrary: d) simp_all

lemma resolve_parents: "resolve d (replicate k ''..'') = take (length d - k) d"
  by (induction k arbitrary: d) (simp_all add: butlast_conv_take diff_diff_add)

lemma resolve_names: "\<forall>c\<in>set xs. valid_name c \<Longrightarrow> resolve d xs = d @ xs"
  by (induction xs arbitrary: d) (auto simp: valid_name_def)

lemma take_length_prefix: "prefix xs ys \<Longrightarrow> take (length xs) ys = xs"
  by (auto elim: prefixE)

lemma longest_common_prefix_take:
  "take (length (longest_common_prefix xs ys)) xs = longest_common_prefix xs ys"
  "take (length (longest_common_prefix xs ys)) ys = longest_common_prefix xs ys"
  using longest_common_prefix_prefix1 [of xs ys] longest_common_prefix_prefix2 [of xs ys]
  by (simp_all add: take_length_prefix)

text \<open>
  \<open>os.path.relpath\<close> read back: for a path of listed names, resolving the relative
  path against the start directory gives the path back, whatever the start.
\<close>

lemma relpath_resolve:
  assumes "\<forall>c\<in>set p. valid_name c"
  shows "resolve start (split_sep (relpath p start)) = p"
proof -
  define i where "i = length (longest_common_prefix start p)"
  define rel where "rel = replicate (length start - i) ''..'' @ drop i p"
  have ts: "take i start = take i p"
    using longest_common_prefix_take [of start p] by (simp add: i_def)
  have il: "i \<le> length start"
    unfolding i_def using prefix_length_le [OF longest_common_prefix_prefix1] .
  have rt: "resolve start rel = p"
  proof -
    have "resolve start rel = resolve (take i start) (drop i p)"
      using il by (simp add: rel_def resolve_append resolve_parents)
    also have "\<dots> = take i p @ drop i p"
      using assms ts by (simp add: resolve_names in_set_dropD)
    finally show ?thesis by simp
  qed
  have rp: "relpath p start = (if rel = [] then ''.'' else path_str rel)"
    by (simp add: relpath_def Let_def i_def rel_def)
  show ?thesis
  proof (cases "rel = []")
    case True
    then have "relpath p start = ''.''" using rp by simp
    moreover have "start = p" using rt True by simp
    ultimately show ?thesis by simp
  next
    case False
    have "\<forall>c\<in>set rel. CHR ''/'' \<notin> set c"
      using assms by (auto simp: rel_def valid_name_def dest: in_set_dropD)
    with False rt show ?thesis
      by (simp add: rp split_sep_path_str)
  qed
qed

subsection \<open>Properties of the output\<close>

text \<open>
  C28: a run that ends normally has the result of the silent \<open>main\<close>, prints one
  \<open>Processed\<close> line for every file it counts, and ends with the \<open>Done\<close> line
  reporting that total.
\<close>

theorem main_log_reports_total:
  assumes "main_log mod_root fs = (Inr (fs', n), out)"
  shows "main mod_root fs = Inr (fs', n) \<and> out = butlast out @ [done_line n] \<and> processed_count out = n"
proof -
  obtain r0 out0 where m: "main_loop_log mod_root VARIANTS (fs, 0) = (r0, out0)"
    by fastforce
  with assms have r0: "r0 = Inr (fs', n)" and out: "out = out0 @ [done_line n]"
    by (auto simp: main_log_def log_bind_def emit_def split: sum.splits)
  have "main mod_root fs = Inr (fs', n)"
    using main_log_result [of mod_root fs] assms by simp
  moreover have "n = processed_count out0"
    using main_loop_log_count [of mod_root VARIANTS fs 0 fs' n] m r0 by simp
  ultimately show ?thesis using out by simp
qed

theorem main_log_reports_total_witness:
  "processed_count (snd (main_log sample_root sample_fs)) = 9 \<and>
   last (snd (main_log sample_root sample_fs)) = ''Done. 9 files processed across 3 variants.''"
proof -
  let ?r = "main_log sample_root sample_fs"
  have ok: "\<not> isl (fst ?r)" by code_simp
  have n: "snd (projr (fst ?r)) = 9" by code_simp
  have "?r = (Inr (fst (projr (fst ?r)), snd (projr (fst ?r))), snd ?r)"
    using Inr_projr [OF ok] by (metis prod.collapse)
  from main_log_reports_total [OF this] n
  have "snd ?r = butlast (snd ?r) @ [done_line 9]" "processed_count (snd ?r) = 9" by simp_all
  moreover have "done_line 9 = ''Done. 9 files processed across 3 variants.''"
    by code_simp
  ultimately show ?thesis by (metis last_snoc)
qed

text \<open>
  C29: the two paths of the \<open>Processed a -> b\<close> line that \<open>transform_image\<close>
  prints name the files of that call: read back against the mod root \<open>ROOT\<close>,
  as \<open>os.path.normpath(os.path.join(ROOT, a))\<close> does, \<open>a\<close> is the input path and
  \<open>b\<close> the output path.
\<close>

theorem processed_line_roundtrip:
  assumes "\<forall>c\<in>set in_path. valid_name c" "\<forall>c\<in>set out_path. valid_name c"
    and "fst (transform_image_log mod_root in_path out_path oa ta fs) = Inr fs'"
  shows "\<exists>a b rest. snd (transform_image_log mod_root in_path out_path oa ta fs) =
                      [''Processed '' @ a @ '' -> '' @ b @ rest] \<and>
                    resolve mod_root (split_sep a) = in_path \<and> resolve mod_root (split_sep b) = out_path"
proof -
  obtain c ms where "snd (transform_image_log mod_root in_path out_path oa ta fs) =
      (if isl (transform_image in_path out_path oa ta fs) then [] else [processed_line mod_root in_path out_path c ms])"
    using transform_image_log_lines by blast
  moreover have "\<not> isl (transform_image in_path out_path oa ta fs)"
    using assms(3) transform_image_log_result [of mod_root in_path out_path oa ta fs] by simp
  ultimately have "snd (transform_image_log mod_root in_path out_path oa ta fs) =
      [''Processed '' @ relpath in_path mod_root @ '' -> '' @ relpath out_path mod_root @
       '' (changed '' @ nat_str c @ '' pixels; '' @ ms @ '')'']"
    by (simp add: processed_line_def)
  with relpath_resolve [OF assms(1)] relpath_resolve [OF assms(2)] show ?thesis
    by blast
qed

theorem processed_line_roundtrip_witness:
  "\<exists>a b rest. snd (transform_image_log sample_root (edges_in sample_root @ [''a.png''])
                   (edges_out_dir sample_root ''a40_15'' @ [''a.png'']) 102 38 sample_fs) =
                [''Processed '' @ a @ '' -> '' @ b @ rest] \<and>
              resolve sample_root (split_sep a) = edges_in sample_root @ [''a.png''] \<and>
              resolve sample_root (split_sep b) = edges_out_dir sample_root ''a40_15'' @ [''a.png'']"
proof -
  let ?t = "transform_image_log sample_root (edges_in sample_root @ [''a.png''])
              (edges_out_dir sample_root ''a40_15'' @ [''a.png'']) 102 38 sample_fs"
  have v1: "\<forall>c\<in>set (edges_in sample_root @ [''a.png'']). valid_name c"
    by code_simp
  have v2: "\<forall>c\<in>set (edges_out_dir sample_root ''a40_15'' @ [''a.png'']). valid_name c"
    by code_simp
  have ok: "\<not> isl (fst ?t)" by code_simp
  show ?thesis using processed_line_roundtrip [OF v1 v2 Inr_projr [OF ok]] .
qed

text \<open>
  C30: a run that an exception ends raises what the silent \<open>main\<close> raises and has
  printed only \<open>Processed\<close> and \<open>Skip\<close> lines: the closing \<open>Done\<close> line is missing.
\<close>

theorem main_log_failure:
  assumes "main_log mod_root fs = (Inl e, out)"
  shows "main mod_root fs = Inl e \<and> list_all body_line out"
proof -
  obtain r0 out0 where m: "main_loop_log mod_root VARIANTS (fs, 0) = (r0, out0)"
    by fastforce
  with assms have "out = out0"
    by (auto simp: main_log_def log_bind_def emit_def split: sum.splits)
  moreover have "list_all body_line out0"
    using main_loop_log_body [of mod_root VARIANTS "(fs, 0)"] m by simp
  moreover have "main mod_root fs = Inl e"
    using main_log_result [of mod_root fs] assms by simp
  ultimately show ?thesis by simp
qed

theorem main_log_failure_witness:
  "main sample_root late_broken_fs = Inl (UnidentifiedImageError (border_in sample_root)) \<and>
   list_all body_line (snd (main_log sample_root late_broken_fs)) \<and>
   length (snd (main_log sample_root late_broken_fs)) = 4"
proof -
  let ?r = "main_log sample_root late_broken_fs"
  have f: "isl (fst ?r)" by code_simp
  have e: "projl (fst ?r) = UnidentifiedImageError (border_in sample_root)" by code_simp
  have l: "length (snd ?r) = 4" by code_simp
  have "?r = (Inl (UnidentifiedImageError (border_in sample_root)), snd ?r)"
    using f e by (metis prod.collapse sum.collapse(1))
  from main_log_failure [OF this] l show ?thesis by simp
qed

text \<open>
  C31: the diagnostic line of a completed \<open>transform_image\<close> names the input and
  output relative to the mod root, the number of pixels that took a replacing
  branch, the detected modes and the lower of the two targets.
\<close>

theorem transform_image_log_line:
  assumes "open_rgba in_path fs = Inr img" "wf_image img"
    and "fst (transform_image_log mod_root in_path out_path oa ta fs) = Inr fs'"
  shows "snd (transform_image_log mod_root in_path out_path oa ta fs) =
           [''Processed '' @ relpath in_path mod_root @ '' -> '' @ relpath out_path mod_root @
            '' (changed '' @ nat_str (length (filter (hits_mode (detect_alpha_modes img)) (pixels img))) @
            '' pixels; modes high='' @ opt_str (fst (detect_alpha_modes img)) @
            '' low='' @ opt_str (snd (detect_alpha_modes img)) @
            ''; lower_target='' @ nat_str (min (unat oa) (unat ta)) @ '')'']"
  using assms
  by (auto simp: transform_image_log_def transform_pixels_eq processed_line_def modes_str_def unat_min_u8
           split: sum.splits prod.splits)

theorem transform_image_log_line_witness:
  "snd (transform_image_log sample_root (edges_in sample_root @ [''a.png''])
          (edges_out_dir sample_root ''a40_15'' @ [''a.png'']) 102 38 sample_fs) =
   [''Processed graphics/base/edge/a.png -> graphics/a40_15/edge/a.png (changed 2 pixels; modes high=102 low=38; lower_target=38)'']"
proof -
  let ?t = "transform_image_log sample_root (edges_in sample_root @ [''a.png''])
              (edges_out_dir sample_root ''a40_15'' @ [''a.png'']) 102 38 sample_fs"
  have o: "open_rgba (edges_in sample_root @ [''a.png'']) sample_fs = Inr two_mode_sample" by code_simp
  have w: "wf_image two_mode_sample" by code_simp
  have ok: "\<not> isl (fst ?t)" by code_simp
  have s: "fst ?t = Inr (projr (fst ?t))" using Inr_projr [OF ok] .
  have "[''Processed '' @ relpath (edges_in sample_root @ [''a.png'']) sample_root @ '' -> '' @
          relpath (edges_out_dir sample_root ''a40_15'' @ [''a.png'']) sample_root @
          '' (changed '' @ nat_str (length (filter (hits_mode (detect_alpha_modes two_mode_sample)) (pixels two_mode_sample))) @
          '' pixels; modes high='' @ opt_str (fst (detect_alpha_modes two_mode_sample)) @
          '' low='' @ opt_str (snd (detect_alpha_modes two_mode_sample)) @
          ''; lower_target='' @ nat_str (min (unat (102 :: u8)) (unat (38 :: u8))) @ '')''] =
        [''Processed graphics/base/edge/a.png -> graphics/a40_15/edge/a.png (changed 2 pixels; modes high=102 low=38; lower_target=38)'']"
    by code_simp
  with transform_image_log_line [OF o w s] show ?thesis by simp
qed

end
