(* ===== verification/Floats.thy ===== *)
theory Floats
  imports Driver
begin

text \<open>
  Python's floats in the conversion \<open>int(round(255 * v.opaque_alpha))\<close> of
  \<open>main\<close>. \<open>Driver\<close> reads the fractions of \<open>VARIANTS\<close> as exact rationals;
  Python stores each literal as the nearest IEEE binary64 double, multiplies it by
  the integer 255 with one more rounding to a double, and rounds that double to an
  integer, ties to even. A double in the normal range is \<open>m * 2^(e - 52)\<close> with
  \<open>2^e \<le> |x| < 2^(e + 1)\<close> and an integer significand \<open>m\<close> of 53 bits;
  \<open>to_double\<close> rounds a rational to the nearest such value, ties to the even
  significand (overflow and subnormals are outside this model, and far outside
  the range of the constants). The lemmas show that the exponent is the right one,
  that the rounding error is at most half a unit in the last place, and that the
  float computation gives the targets of \<open>variant_targets\<close> for every configured
  variant, so the exact model of \<open>Driver\<close> loses nothing.
\<close>

text \<open>The number of binary digits of a non-negative integer.\<close>

function bits :: "int \<Rightarrow> int" where
  "bits n = (if n \<le> 0 then 0 else 1 + bits (n div 2))"
  by auto
termination
  by (relation "measure (\<lambda>n. nat n)") auto

declare bits.simps [simp del]

text \<open>The exponent \<open>e\<close> with \<open>2^e \<le> x < 2^(e+1)\<close> of a positive rational.\<close>

definition fl_exp :: "rat \<Rightarrow> int" where
  "fl_exp x =
     (case quotient_of x of (p, q) \<Rightarrow>
        let e = bits p - bits q in if x < 2 powi e then e - 1 else e)"

definition to_double :: "rat \<Rightarrow> rat" where
  "to_double x =
     (if x = 0 then 0
      else let y = \<bar>x\<bar>; u = 2 powi (fl_exp y - 52)
           in sgn x * of_int (py_round (y / u)) * u)"

text \<open>Python's \<open>*\<close> on two floats: the exact product, rounded to a double.\<close>

definition py_float_mul :: "rat \<Rightarrow> rat \<Rightarrow> rat" where
  "py_float_mul a b = to_double (a * b)"

definition variant_targets_float :: "variant \<Rightarrow> int \<times> int" where
  "variant_targets_float v =
     (py_round (py_float_mul 255 (to_double (opaque_alpha v))),
      py_round (py_float_mul 255 (to_double (transparent_alpha v))))"

subsection \<open>The exponent\<close>

lemma bits_bounds:
  "0 < n \<Longrightarrow> 1 \<le> bits n \<and> 2 ^ nat (bits n - 1) \<le> n \<and> n < 2 ^ nat (bits n)"
proof (induction n rule: bits.induct)
  case (1 n)
  show ?case
  proof (cases "n div 2 = 0")
    case True
    with "1.prems" have "n = 1" by auto
    then show ?thesis by (simp add: bits.simps)
  next
    case False
    with "1.prems" have "0 < n div 2" by auto
    with "1.IH" "1.prems" have ih: "1 \<le> bits (n div 2)" "2 ^ nat (bits (n div 2) - 1) \<le> n div 2"
        "n div 2 < 2 ^ nat (bits (n div 2))"
      by auto
    have b: "bits n = 1 + bits (n div 2)" using "1.prems" by (simp add: bits.simps)
    have "nat (bits n - 1) = Suc (nat (bits (n div 2) - 1))" "nat (bits n) = Suc (nat (bits (n div 2)))"
      using ih(1) b by auto
    moreover have "n = 2 * (n div 2) + n mod 2" "0 \<le> n mod 2" "n mod 2 < 2" by auto
    ultimately show ?thesis using ih b by simp linarith
  qed
qed

lemma powi_bits_bounds:
  assumes "0 < n"
  shows "(2 :: rat) powi (bits n - 1) \<le> of_int n \<and> of_int n < (2 :: rat) powi bits n"
proof -
  from bits_bounds [OF assms] have b: "1 \<le> bits n" "2 ^ nat (bits n - 1) \<le> n" "n < 2 ^ nat (bits n)"
    by auto
  then have "(2 :: rat) powi (bits n - 1) = of_int (2 ^ nat (bits n - 1))"
    "(2 :: rat) powi bits n = of_int (2 ^ nat (bits n))"
    by (simp_all add: power_int_def)
  with b show ?thesis by (simp only: of_int_le_iff of_int_less_iff)
qed

lemma fl_exp_bounds:
  assumes "0 < x"
  shows "2 powi fl_exp x \<le> x \<and> x < 2 powi (fl_exp x + 1)"
proof -
  obtain p q where pq: "quotient_of x = (p, q)" by fastforce
  then have x: "x = of_int p / of_int q" and q: "0 < q"
    by (simp_all add: quotient_of_div quotient_of_denom_pos)
  with assms have p: "0 < p" by (simp add: zero_less_divide_iff)
  define e where "e = bits p - bits q"
  from powi_bits_bounds [OF p] powi_bits_bounds [OF q]
  have P: "(2 :: rat) powi (bits p - 1) \<le> of_int p" "of_int p < (2 :: rat) powi bits p"
    and Q: "(2 :: rat) powi (bits q - 1) \<le> of_int q" "of_int q < (2 :: rat) powi bits q"
    by auto
  have lo: "2 powi (e - 1) < x"
  proof -
    have "(2 :: rat) powi (e - 1) * of_int q < 2 powi (e - 1) * 2 powi bits q"
      using Q(2) by simp
    also have "\<dots> = (2 :: rat) powi (bits p - 1)"
      by (simp add: e_def power_int_add [symmetric])
    also have "\<dots> \<le> of_int p" by (rule P(1))
    finally show ?thesis using q by (simp add: x pos_less_divide_eq)
  qed
  have hi: "x < 2 powi (e + 1)"
  proof -
    have "of_int p < (2 :: rat) powi bits p" by (rule P(2))
    also have "\<dots> = 2 powi (e + 1) * 2 powi (bits q - 1)"
      by (simp add: e_def power_int_add [symmetric])
    also have "\<dots> \<le> 2 powi (e + 1) * of_int q"
      using Q(1) by (simp add: mult_left_mono)
    finally show ?thesis using q by (simp add: x pos_divide_less_eq)
  qed
  have fe: "fl_exp x = (if x < 2 powi e then e - 1 else e)"
    by (simp add: fl_exp_def pq e_def)
  show ?thesis
  proof (cases "x < 2 powi e")
    case True
    then show ?thesis using lo fe by simp
  next
    case False
    then show ?thesis using hi fe by simp
  qed
qed

subsection \<open>Rounding to a double\<close>

lemma to_double_error:
  assumes "0 < x"
  shows "\<bar>to_double x - x\<bar> \<le> 2 powi (fl_exp x - 53)"
proof -
  define u :: rat where "u = 2 powi (fl_exp x - 52)"
  have u: "0 < u" by (simp add: u_def)
  have "to_double x - x = (of_int (py_round (x / u)) - x / u) * u"
    using assms u by (simp add: to_double_def u_def [symmetric] algebra_simps)
  then have "\<bar>to_double x - x\<bar> = \<bar>of_int (py_round (x / u)) - x / u\<bar> * u"
    using u by (simp add: abs_mult)
  also have "\<dots> \<le> 1 / 2 * u"
    using py_round_near [of "x / u"] u by (simp add: mult_right_mono)
  also have "1 / 2 * u = 2 powi (fl_exp x - 53)"
    by (simp add: u_def power_int_diff)
  finally show ?thesis .
qed

subsection \<open>The configured variants\<close>

text \<open>
  The doubles of the six literals of \<open>VARIANTS\<close>, and the one product that lands
  on a tie: \<open>255 * 0.1\<close> rounds to the double 25.5, which \<open>round\<close> takes to 26.
\<close>

lemma VARIANTS_doubles:
  "map (\<lambda>v. (to_double (opaque_alpha v), to_double (transparent_alpha v))) VARIANTS =
     [(3602879701896397 / 9007199254740992, 5404319552844595 / 36028797018963968),
      (3602879701896397 / 18014398509481984, 5404319552844595 / 72057594037927936),
      (3602879701896397 / 36028797018963968, 1 / 4)]"
  by code_simp

lemma tie_product: "py_float_mul 255 (to_double (1 / 10)) = 51 / 2 \<and> py_round (51 / 2) = 26"
  by code_simp

lemma variant_targets_float_eq: "map variant_targets_float VARIANTS = map variant_targets VARIANTS"
  by code_simp

end
