(* ===== verification/Export.thy ===== *)
theory Export
  imports Prelude
begin

text \<open>
  \<open>src/graphics/export_icons.py\<close>: it finds an Inkscape executable
  (\<open>find_inkscape\<close>), then runs one Inkscape export per entry of \<open>exports\<close>
  (\<open>export_svg_to_png\<close>) and exits with status 1 unless all of them succeeded.
  Its environment is an oracle: which paths exist, and what each
  \<open>subprocess.run\<close> of a command line does (it completes with a return code and
  standard error, times out, does not find the program, or fails with another
  \<open>OSError\<close>). A run returns its outcome (an exit status or an exception that
  escapes) and its trace: the command lines it spawned and the lines it printed, in
  order. A printed line is the UTF-8 bytes of the string passed to \<open>print\<close>.
  Paths are component lists, printed with \<open>/\<close> as separator by \<open>path_str\<close>.
\<close>

text \<open>\<open>Completed rc err\<close>: the process ran, with return code \<open>rc\<close> and standard error \<open>err\<close>.\<close>

datatype spawn_result = Completed int string | TimeoutExpired | FileNotFound | OtherOSError

record env =
  path_exists :: "path \<Rightarrow> bool"
  home :: path
  spawn :: "string list \<Rightarrow> spawn_result"

datatype exc = SpawnError "string list"

datatype outcome = Exit nat | Raised exc

datatype event = Spawned "string list" | Printed string

type_synonym trace = "event list"

text \<open>A line break, and the UTF-8 bytes of the check mark U+2713 printed on line 56.\<close>

definition NL :: string where
  "NL = [char_of (10 :: nat)]"

definition check_mark :: string where
  "check_mark = map char_of [226 :: nat, 156, 147]"

subsection \<open>find_inkscape\<close>

definition possible_paths :: "env \<Rightarrow> path list" where
  "possible_paths e =
     [[''C:'', ''Program Files'', ''Inkscape'', ''bin'', ''inkscape.exe''],
      [''C:'', ''Program Files (x86)'', ''Inkscape'', ''bin'', ''inkscape.exe''],
      home e @ [''AppData'', ''Local'', ''Programs'', ''Inkscape'', ''bin'', ''inkscape.exe'']]"

fun first_existing :: "env \<Rightarrow> path list \<Rightarrow> path option" where
  "first_existing e [] = None"
| "first_existing e (p # ps) = (if path_exists e p then Some p else first_existing e ps)"

definition probe_cmd :: "string list" where
  "probe_cmd = [''inkscape'', ''--version'']"

text \<open>
  The probe catches \<open>TimeoutExpired\<close> and \<open>FileNotFoundError\<close> only; any other
  \<open>OSError\<close> of \<open>subprocess.run\<close> escapes.
\<close>

definition find_inkscape :: "env \<Rightarrow> (exc + string option) \<times> trace" where
  "find_inkscape e =
     (case first_existing e (possible_paths e) of
        Some p \<Rightarrow> (Inr (Some (path_str p)), [])
      | None \<Rightarrow>
          (case spawn e probe_cmd of
             Completed rc _ \<Rightarrow> (Inr (if rc = 0 then Some ''inkscape'' else None), [Spawned probe_cmd])
           | TimeoutExpired \<Rightarrow> (Inr None, [Spawned probe_cmd])
           | FileNotFound \<Rightarrow> (Inr None, [Spawned probe_cmd])
           | OtherOSError \<Rightarrow> (Inl (SpawnError probe_cmd), [Spawned probe_cmd])))"

subsection \<open>export_svg_to_png and main\<close>

definition export_cmd :: "string \<Rightarrow> string \<Rightarrow> string \<Rightarrow> nat \<Rightarrow> string list" where
  "export_cmd ink svg out dpi =
     [ink, ''--export-type=png'', ''--export-area-page'', ''--export-dpi='' @ nat_str dpi,
      ''--export-filename='' @ out, svg]"

text \<open>\<open>subprocess.run(cmd)\<close> without a timeout: every failure to spawn escapes.\<close>

definition export_svg_to_png :: "env \<Rightarrow> string \<Rightarrow> string \<Rightarrow> string \<Rightarrow> nat \<Rightarrow> (exc + bool) \<times> trace" where
  "export_svg_to_png e ink svg out dpi =
     (let cmd = export_cmd ink svg out dpi;
          start = Printed (''Exporting '' @ out @ '' at '' @ nat_str dpi @ '' DPI...'')
      in case spawn e cmd of
           Completed rc err \<Rightarrow>
             if rc \<noteq> 0
             then (Inr False, [start, Spawned cmd, Printed (''Error exporting '' @ out @ '':''), Printed err])
             else (Inr True, [start, Spawned cmd, Printed (''  '' @ check_mark @ '' Created '' @ out)])
         | _ \<Rightarrow> (Inl (SpawnError cmd), [start, Spawned cmd]))"

definition EXPORTS :: "(nat \<times> string) list" where
  "EXPORTS = [(24, ''icons-16.png''), (48, ''icons-32.png''), (96, ''icons-64.png'')]"

text \<open>The command line of one entry of \<open>exports\<close>: \<open>output_file = icons_dir / filename\<close>.\<close>

definition export_job :: "string \<Rightarrow> path \<Rightarrow> path \<Rightarrow> nat \<times> string \<Rightarrow> string list" where
  "export_job ink icons svg job =
     (case job of (dpi, fname) \<Rightarrow> export_cmd ink (path_str svg) (path_str (icons @ [fname])) dpi)"

text \<open>The loop \<open>for dpi, filename in exports\<close> with its counter \<open>success_count\<close>.\<close>

fun export_loop ::
  "env \<Rightarrow> string \<Rightarrow> path \<Rightarrow> path \<Rightarrow> (nat \<times> string) list \<Rightarrow> nat \<Rightarrow> (exc + nat) \<times> trace" where
  "export_loop e ink icons svg [] n = (Inr n, [])"
| "export_loop e ink icons svg ((dpi, fname) # xs) n =
     (case export_svg_to_png e ink (path_str svg) (path_str (icons @ [fname])) dpi of
        (Inl x, tr) \<Rightarrow> (Inl x, tr)
      | (Inr ok, tr) \<Rightarrow>
          (case export_loop e ink icons svg xs (if ok then n + 1 else n) of
             (r, tr') \<Rightarrow> (r, tr @ tr')))"

definition main_export :: "env \<Rightarrow> path \<Rightarrow> outcome \<times> trace" where
  "main_export e script_dir =
     (let icons = script_dir @ [''icons'']; svg = icons @ [''icons.svg'']
      in if \<not> path_exists e svg then (Exit 1, [Printed (''Error: '' @ path_str svg @ '' not found!'')])
         else case find_inkscape e of
           (Inl x, tr) \<Rightarrow> (Raised x, tr)
         | (Inr None, tr) \<Rightarrow>
             (Exit 1, tr @ [Printed ''Error: Inkscape not found!'',
                            Printed ''Please install Inkscape or add it to your PATH''])
         | (Inr (Some ink), tr) \<Rightarrow>
             (let pre = tr @ [Printed (''Using Inkscape: '' @ ink), Printed (''Source: '' @ path_str svg @ NL)]
              in case export_loop e ink icons svg EXPORTS 0 of
                   (Inl x, tr') \<Rightarrow> (Raised x, pre @ tr')
                 | (Inr n, tr') \<Rightarrow>
                     (if n < length EXPORTS then Exit 1 else Exit 0,
                      pre @ tr' @ [Printed (NL @ ''Completed: '' @ nat_str n @ ''/'' @ nat_str (length EXPORTS)
                                            @ '' exports successful'')])))"

text \<open>The process status: \<open>sys.exit(n)\<close>, 0 when \<open>main\<close> returns, 1 for a traceback.\<close>

fun exit_code :: "outcome \<Rightarrow> nat" where
  "exit_code (Exit n) = n"
| "exit_code (Raised _) = 1"

text \<open>
  A sample environment: Inkscape on the PATH only, every export succeeding except
  the one at 48 DPI.
\<close>

definition sample_env :: env where
  "sample_env =
     \<lparr>path_exists = (\<lambda>p. p = [''proj'', ''icons'', ''icons.svg'']), home = [''home''],
      spawn = (\<lambda>cmd. if cmd = probe_cmd then Completed 0 []
                     else if ''--export-dpi=48'' \<in> set cmd then Completed 1 ''render failed''
                     else Completed 0 [])\<rparr>"

text \<open>The command lines of a trace, and whether a spawn completed (with return code 0).\<close>

fun spawns :: "trace \<Rightarrow> string list list" where
  "spawns [] = []"
| "spawns (Spawned c # tr) = c # spawns tr"
| "spawns (Printed _ # tr) = spawns tr"

fun completes :: "spawn_result \<Rightarrow> bool" where
  "completes (Completed _ _) = True"
| "completes _ = False"

fun succeeds :: "spawn_result \<Rightarrow> bool" where
  "succeeds (Completed rc _) = (rc = 0)"
| "succeeds _ = False"

subsection \<open>Lemmas\<close>

lemma succeeds_completes: "succeeds r \<Longrightarrow> completes r"
  by (cases r) simp_all

lemma spawns_append [simp]: "spawns (xs @ ys) = spawns xs @ spawns ys"
  by (induction xs rule: spawns.induct) simp_all

lemma first_existing_Some:
  "first_existing e ps = Some p \<Longrightarrow>
     \<exists>i<length ps. p = ps ! i \<and> path_exists e p \<and> (\<forall>j<i. \<not> path_exists e (ps ! j))"
proof (induction ps)
  case Nil
  then show ?case by simp
next
  case (Cons q qs)
  show ?case
  proof (cases "path_exists e q")
    case True
    with Cons.prems show ?thesis by (intro exI [of _ 0]) auto
  next
    case False
    with Cons.prems Cons.IH obtain i where "i < length qs" "p = qs ! i" "path_exists e p"
      "\<forall>j<i. \<not> path_exists e (qs ! j)" by auto
    with False show ?thesis by (intro exI [of _ "Suc i"]) (auto simp: less_Suc_eq_0_disj)
  qed
qed

lemma first_existing_None: "first_existing e ps = None \<longleftrightarrow> (\<forall>p\<in>set ps. \<not> path_exists e p)"
  by (induction ps) auto

lemma export_loop_complete:
  "\<forall>job\<in>set xs. completes (spawn e (export_job ink icons svg job)) \<Longrightarrow>
     fst (export_loop e ink icons svg xs n) =
       Inr (n + length (filter (\<lambda>job. succeeds (spawn e (export_job ink icons svg job))) xs)) \<and>
     spawns (snd (export_loop e ink icons svg xs n)) = map (export_job ink icons svg) xs"
proof (induction xs arbitrary: n)
  case Nil
  then show ?case by simp
next
  case (Cons job xs)
  obtain dpi fname where job: "job = (dpi, fname)" by (cases job)
  from Cons.prems job obtain rc err
    where sp: "spawn e (export_cmd ink (path_str svg) (path_str (icons @ [fname])) dpi) = Completed rc err"
    by (auto simp: export_job_def elim: completes.elims)
  from Cons.prems have all: "\<forall>job\<in>set xs. completes (spawn e (export_job ink icons svg job))" by simp
  show ?case
    using Cons.IH [OF all, of "n + 1"] Cons.IH [OF all, of n] sp job
    by (cases "rc = 0") (auto simp: export_svg_to_png_def Let_def export_job_def split: prod.splits)
qed

lemma export_loop_ok:
  "fst (export_loop e ink icons svg xs n) = Inr m \<Longrightarrow>
     m \<le> n + length xs \<and>
     (m = n + length xs \<longrightarrow> (\<forall>job\<in>set xs. succeeds (spawn e (export_job ink icons svg job))))"
proof (induction e ink icons svg xs n arbitrary: m rule: export_loop.induct)
  case (1 e ink icons svg n)
  then show ?case by simp
next
  case (2 e ink icons svg dpi fname xs n)
  then show ?case
    by (fastforce simp: export_svg_to_png_def export_job_def Let_def
                  split: spawn_result.splits prod.splits sum.splits if_splits)
qed

text \<open>The run of \<open>main\<close> once the SVG exists and Inkscape is found.\<close>

lemma main_export_found:
  assumes "path_exists e (d @ [''icons'', ''icons.svg''])" "fst (find_inkscape e) = Inr (Some ink)"
    and "fst (export_loop e ink (d @ [''icons'']) (d @ [''icons'', ''icons.svg'']) EXPORTS 0) = Inr n"
  shows "fst (main_export e d) = (if n < length EXPORTS then Exit 1 else Exit 0)"
    and "snd (main_export e d) =
           snd (find_inkscape e) @
           [Printed (''Using Inkscape: '' @ ink), Printed (''Source: '' @ path_str (d @ [''icons'', ''icons.svg'']) @ NL)] @
           snd (export_loop e ink (d @ [''icons'']) (d @ [''icons'', ''icons.svg'']) EXPORTS 0) @
           [Printed (NL @ ''Completed: '' @ nat_str n @ ''/'' @ nat_str (length EXPORTS) @ '' exports successful'')]"
  using assms
  by (cases "find_inkscape e", cases "export_loop e ink (d @ [''icons'']) (d @ [''icons'', ''icons.svg'']) EXPORTS 0";
      simp add: main_export_def Let_def)+

subsection \<open>Properties of the export script\<close>

text \<open>
  C21: the export script exits with status 0 exactly when \<open>icons/icons.svg\<close>
  exists, an Inkscape executable is found, and each of the three export commands
  completes with return code 0.
\<close>

theorem export_exit_zero_iff:
  "exit_code (fst (main_export e d)) = 0 \<longleftrightarrow>
     path_exists e (d @ [''icons'', ''icons.svg'']) \<and>
     (\<exists>ink. fst (find_inkscape e) = Inr (Some ink) \<and>
        (\<forall>job\<in>set EXPORTS. succeeds (spawn e (export_job ink (d @ [''icons'']) (d @ [''icons'', ''icons.svg'']) job))))"
  (is "?l \<longleftrightarrow> ?r")
proof
  assume l: ?l
  then have svg: "path_exists e (d @ [''icons'', ''icons.svg''])"
    by (auto simp: main_export_def Let_def split: if_splits)
  moreover obtain ink where f: "fst (find_inkscape e) = Inr (Some ink)"
    using l svg by (auto simp: main_export_def Let_def split: prod.splits sum.splits option.splits)
  moreover obtain m where x: "fst (export_loop e ink (d @ [''icons'']) (d @ [''icons'', ''icons.svg'']) EXPORTS 0) = Inr m"
    using l svg f by (auto simp: main_export_def Let_def split: prod.splits sum.splits option.splits)
  moreover have "m = length EXPORTS"
    using l main_export_found(1) [OF svg f x] export_loop_ok [OF x] by (simp split: if_splits)
  ultimately show ?r using export_loop_ok [OF x] by auto
next
  assume ?r
  then obtain ink where svg: "path_exists e (d @ [''icons'', ''icons.svg''])"
    and f: "fst (find_inkscape e) = Inr (Some ink)"
    and ok: "\<forall>job\<in>set EXPORTS. succeeds (spawn e (export_job ink (d @ [''icons'']) (d @ [''icons'', ''icons.svg'']) job))"
    by blast
  have "\<forall>job\<in>set EXPORTS. completes (spawn e (export_job ink (d @ [''icons'']) (d @ [''icons'', ''icons.svg'']) job))"
    using ok by (auto intro: succeeds_completes)
  from export_loop_complete [OF this, of 0] ok
  have "fst (export_loop e ink (d @ [''icons'']) (d @ [''icons'', ''icons.svg'']) EXPORTS 0) = Inr (length EXPORTS)"
    by simp
  from main_export_found(1) [OF svg f this] show ?l by simp
qed

theorem export_exit_zero_iff_witness:
  "exit_code (fst (main_export (sample_env\<lparr>spawn := \<lambda>_. Completed 0 []\<rparr>) [''proj''])) = 0"
proof -
  let ?e = "sample_env\<lparr>spawn := \<lambda>_. Completed 0 []\<rparr>"
  have "path_exists ?e ([''proj''] @ [''icons'', ''icons.svg''])" "fst (find_inkscape ?e) = Inr (Some ''inkscape'')"
    by code_simp+
  moreover have "\<forall>job\<in>set EXPORTS. succeeds (spawn ?e (export_job ''inkscape'' ([''proj''] @ [''icons''])
                    ([''proj''] @ [''icons'', ''icons.svg'']) job))"
    by simp
  ultimately show ?thesis using export_exit_zero_iff [of ?e "[''proj'']"] by blast
qed

text \<open>
  C22: once the SVG exists and Inkscape is found, the script runs all three export
  commands, at 24, 48 and 96 DPI in that order, whatever their return codes: a
  failed export does not stop the next one.
\<close>

theorem export_runs_every_job:
  assumes "path_exists e (d @ [''icons'', ''icons.svg''])" "fst (find_inkscape e) = Inr (Some ink)"
    and "\<forall>job\<in>set EXPORTS. completes (spawn e (export_job ink (d @ [''icons'']) (d @ [''icons'', ''icons.svg'']) job))"
  shows "spawns (snd (main_export e d)) =
           spawns (snd (find_inkscape e)) @ map (export_job ink (d @ [''icons'']) (d @ [''icons'', ''icons.svg''])) EXPORTS"
  using main_export_found(2) [OF assms(1,2) conjunct1 [OF export_loop_complete [OF assms(3)]]]
        export_loop_complete [OF assms(3), of 0]
  by simp

theorem export_runs_every_job_witness:
  "spawns (snd (main_export sample_env [''proj''])) =
     [probe_cmd,
      export_cmd ''inkscape'' ''proj/icons/icons.svg'' ''proj/icons/icons-16.png'' 24,
      export_cmd ''inkscape'' ''proj/icons/icons.svg'' ''proj/icons/icons-32.png'' 48,
      export_cmd ''inkscape'' ''proj/icons/icons.svg'' ''proj/icons/icons-64.png'' 96]"
proof -
  have h: "path_exists sample_env ([''proj''] @ [''icons'', ''icons.svg''])"
    "fst (find_inkscape sample_env) = Inr (Some ''inkscape'')"
    "\<forall>job\<in>set EXPORTS. completes (spawn sample_env (export_job ''inkscape'' ([''proj''] @ [''icons''])
        ([''proj''] @ [''icons'', ''icons.svg'']) job))"
    by (simp_all add: sample_env_def find_inkscape_def possible_paths_def probe_cmd_def)
  have "spawns (snd (find_inkscape sample_env)) = [probe_cmd]" by code_simp
  then show ?thesis using export_runs_every_job [OF h]
    by (simp add: EXPORTS_def export_job_def nat_str.simps)
qed

text \<open>
  C23: \<open>find_inkscape\<close> returns either the first of its candidate install paths
  that exists, or, when none exists, \<open>inkscape\<close> after the probe
  \<open>inkscape --version\<close> completed with return code 0.
\<close>

theorem find_inkscape_result:
  assumes "fst (find_inkscape e) = Inr (Some ink)"
  shows "(\<exists>i<length (possible_paths e). path_exists e (possible_paths e ! i) \<and>
            ink = path_str (possible_paths e ! i) \<and>
            (\<forall>j<i. \<not> path_exists e (possible_paths e ! j))) \<or>
         ((\<forall>p\<in>set (possible_paths e). \<not> path_exists e p) \<and> ink = ''inkscape'' \<and>
            succeeds (spawn e probe_cmd))"
proof (cases "first_existing e (possible_paths e)")
  case None
  with assms show ?thesis
    by (auto simp: find_inkscape_def first_existing_None split: spawn_result.splits if_splits)
next
  case (Some p)
  with assms have "ink = path_str p" by (simp add: find_inkscape_def)
  with first_existing_Some [OF Some] show ?thesis by blast
qed

theorem find_inkscape_result_witness:
  "fst (find_inkscape sample_env) = Inr (Some ''inkscape'') \<and> succeeds (spawn sample_env probe_cmd)"
proof -
  have f: "fst (find_inkscape sample_env) = Inr (Some ''inkscape'')" by code_simp
  have n: "\<forall>p\<in>set (possible_paths sample_env). \<not> path_exists sample_env p"
    by (simp add: possible_paths_def sample_env_def)
  from find_inkscape_result [OF f] n have "succeeds (spawn sample_env probe_cmd)"
    by (auto dest: nth_mem)
  with f show ?thesis by simp
qed

text \<open>
  C24: the probe of \<open>find_inkscape\<close> catches only \<open>TimeoutExpired\<close> and
  \<open>FileNotFoundError\<close>: when no candidate path exists and the probe fails with
  another \<open>OSError\<close>, the script ends with that exception (status 1) instead of
  its message "Inkscape not found", having printed nothing and run no export.
\<close>

theorem export_probe_oserror_escapes:
  assumes "path_exists e (d @ [''icons'', ''icons.svg''])"
    and "\<forall>p\<in>set (possible_paths e). \<not> path_exists e p" "spawn e probe_cmd = OtherOSError"
  shows "main_export e d = (Raised (SpawnError probe_cmd), [Spawned probe_cmd])"
proof -
  from assms(2) have "first_existing e (possible_paths e) = None" by (simp add: first_existing_None)
  with assms(1,3) show ?thesis by (simp add: main_export_def find_inkscape_def Let_def)
qed

theorem export_probe_oserror_escapes_witness:
  "main_export (sample_env\<lparr>spawn := \<lambda>_. OtherOSError\<rparr>) [''proj''] =
     (Raised (SpawnError probe_cmd), [Spawned probe_cmd]) \<and>
   exit_code (Raised (SpawnError probe_cmd)) = 1"
proof -
  let ?e = "sample_env\<lparr>spawn := \<lambda>_. OtherOSError\<rparr>"
  have "path_exists ?e ([''proj''] @ [''icons'', ''icons.svg''])"
    "\<forall>p\<in>set (possible_paths ?e). \<not> path_exists ?e p" "spawn ?e probe_cmd = OtherOSError"
    by (simp_all add: sample_env_def possible_paths_def)
  from export_probe_oserror_escapes [OF this] show ?thesis by simp
qed

text \<open>
  C27: when the exports run to the end, the last line the script prints is the
  summary \<open>Completed: k/3 exports successful\<close> with \<open>k\<close> the number of exports
  that returned 0, and the exit status is 1 exactly when \<open>k < 3\<close>.
\<close>

theorem export_summary_line:
  assumes "path_exists e (d @ [''icons'', ''icons.svg''])" "fst (find_inkscape e) = Inr (Some ink)"
    and "\<forall>job\<in>set EXPORTS. completes (spawn e (export_job ink (d @ [''icons'']) (d @ [''icons'', ''icons.svg'']) job))"
  defines "k \<equiv> length (filter (\<lambda>job. succeeds (spawn e (export_job ink (d @ [''icons'']) (d @ [''icons'', ''icons.svg'']) job))) EXPORTS)"
  shows "last (snd (main_export e d)) = Printed (NL @ ''Completed: '' @ nat_str k @ ''/3 exports successful'') \<and>
         exit_code (fst (main_export e d)) = (if k < 3 then 1 else 0)"
proof -
  have x: "fst (export_loop e ink (d @ [''icons'']) (d @ [''icons'', ''icons.svg'']) EXPORTS 0) = Inr k"
    using export_loop_complete [OF assms(3), of 0] by (simp add: k_def)
  have "nat_str (length EXPORTS) = ''3''" by code_simp
  with main_export_found [OF assms(1,2) x] show ?thesis by (simp add: EXPORTS_def)
qed

theorem export_summary_line_witness:
  "last (snd (main_export sample_env [''proj''])) = Printed (NL @ ''Completed: 2/3 exports successful'') \<and>
   exit_code (fst (main_export sample_env [''proj''])) = 1"
proof -
  have h: "path_exists sample_env ([''proj''] @ [''icons'', ''icons.svg''])"
    "fst (find_inkscape sample_env) = Inr (Some ''inkscape'')"
    "\<forall>job\<in>set EXPORTS. completes (spawn sample_env (export_job ''inkscape'' ([''proj''] @ [''icons''])
        ([''proj''] @ [''icons'', ''icons.svg'']) job))"
    by (simp_all add: sample_env_def find_inkscape_def possible_paths_def probe_cmd_def)
  have "length (filter (\<lambda>job. succeeds (spawn sample_env (export_job ''inkscape'' ([''proj''] @ [''icons''])
          ([''proj''] @ [''icons'', ''icons.svg'']) job))) EXPORTS) = 2"
    by code_simp
  moreover have "nat_str 2 = ''2''" by code_simp
  ultimately show ?thesis using export_summary_line [OF h] by simp
qed

end
