(* ===== verification/Spec2Isabelle.thy ===== *)
theory Spec2Isabelle
  imports Driver_Props Driver_Log Floats Export
begin

text \<open>
  \<^bold>\<open>A verification model of the asset scripts of factorio-grid-planner.\<close>

  \<^bold>\<open>The program.\<close> \<open>src/scripts/make_boundary_translucent.py\<close> rewrites the
  alpha channel of the boundary graphics: for every configured variant
  (\<open>Variant\<close>, \<open>VARIANTS\<close>), \<open>main\<close> converts the two alpha fractions to
  8-bit targets, \<open>process_folder\<close> walks the input folders under
  \<open>graphics/base\<close> and \<open>transform_image\<close> decodes each PNG, calls
  \<open>_detect_alpha_modes\<close> to find the two most frequent non-zero alpha values,
  remaps them pixel by pixel and saves the result under \<open>graphics/<tag>\<close>.
  \<open>src/graphics/export_icons.py\<close> is separate glue that finds Inkscape and runs it
  three times.

  \<^bold>\<open>The theories.\<close>
  \<^item> \<open>Prelude\<close>: 8-bit words, paths and their printing (\<open>path_str\<close>,
    \<open>nat_str\<close>), Python's \<open>sort(reverse=True)\<close> as
    \<open>py_sort_desc\<close> (reverse, stable sort, reverse: CPython's algorithm), and the
    counting-loop lemma behind any histogram.
  \<^item> \<open>Image\<close>: the part of Pillow the script uses, from the specification's
    codec interface: \<open>pixel\<close> (an \<open>(r, g, b, a)\<close> tuple of 8-bit words),
    \<open>image\<close> (size and rows), \<open>getpixel\<close>, \<open>putpixel\<close>, \<open>new_image\<close>, the
    well-formedness \<open>wf_image\<close>, the row-major coordinate list \<open>coords\<close> of the
    script's nested loops, and the lemma that a putpixel loop over all coordinates
    computes a pointwise map (\<open>fold_putpixel_map_image\<close>). The other 8-bit PNG
    modes are what \<open>Image.open\<close> decodes (\<open>decoded\<close>: RGB and L with an
    optional \<open>tRNS\<close> colour key, LA, and P with its palette and \<open>tRNS\<close>
    alphas), and \<open>convert_rgba\<close> is Pillow's \<open>convert("RGBA")\<close> on them.
  \<^item> \<open>Modes\<close>: \<open>_detect_alpha_modes\<close> as \<open>detect_alpha_modes\<close>, with its
    histogram loop (\<open>hist_step\<close>, \<open>alpha_histogram\<close>), the filtered
    \<open>enumerate\<close> (\<open>non_zero_entries\<close>), the sort key \<open>mode_key\<close> and the sorted
    list (\<open>sorted_entries\<close>). Its abstract contract \<open>modes_contract\<close> (via
    \<open>is_top_two\<close>) says what the result must be in terms of the multiset of alpha
    values only; the detector refines it on every image. The histogram's non-zero
    entries are proved equal to the sparse list of distinct alphas with their counts
    (\<open>non_zero_entries_alpha_histogram\<close>), which gives the detector a code
    equation that evaluates without the 256 cells.
  \<^item> \<open>Remap\<close>: lines 115--142 of \<open>transform_image\<close> as \<open>transform_pixels\<close>
    (modes, output image, \<open>changed\<close> counter), with the per-pixel branch
    \<open>remap_pixel\<close> and the loop step \<open>remap_step\<close>; the loop is shown equal to a
    pointwise map of \<open>remap_pixel\<close> (\<open>transform_pixels_eq\<close>).
  \<^item> \<open>Filesystem\<close>: the OS and Pillow calls of the driver over an in-memory tree
    (\<open>fs\<close>, a map from paths to files and directories whose entry lists keep
    \<open>os.listdir\<close>'s order): \<open>isdir\<close>, \<open>isfile\<close>, \<open>listdir\<close>, \<open>mkdirs\<close> and the
    script's \<open>ensure_dir\<close> (\<open>os.makedirs(p, exist_ok=True)\<close>), \<open>open_rgba\<close>
    and \<open>save\<close>, each failing with the exception Python raises (\<open>error\<close>), the
    frame condition \<open>changes_within\<close> with its lemmas, and the tree invariant
    \<open>wf_fs\<close> (the root is a directory; every entry is listed, once, by its parent)
    that \<open>add_entry\<close>, \<open>mkdirs\<close>, \<open>ensure_dir\<close> and \<open>save\<close> preserve. A file
    holds an RGBA PNG, a PNG of another mode (which \<open>open_rgba\<close> converts) or
    undecodable bytes; \<open>pngs_wf\<close> says every decodable file has its declared size.
  \<^item> \<open>Driver\<close>: \<open>Variant\<close>/\<open>VARIANTS\<close>, \<open>round\<close> as \<open>py_round\<close> (half to
    even, on the fractions as exact rationals), the path helpers, the file part of
    \<open>transform_image\<close>, \<open>process_folder\<close> (its loop is \<open>process_names\<close>),
    \<open>main\<close> (its loop over variants is \<open>main_loop\<close>) and the exit status. Each
    returns the new filesystem and counter, or the exception that ends the run;
    \<open>script_status\<close> adds the Pillow import guard and \<open>ROOT\<close>. The
    theory also holds the frame and counting lemmas of one run.
  \<^item> \<open>Driver_Runs\<close>: which file each input is written to under every variant
    and what one variant's iteration may change.
  \<^item> \<open>Driver_Props\<close>: the properties of the driver, with witnesses on sample
    trees.
  \<^item> \<open>Driver_Log\<close>: what the driver prints. \<open>transform_image_log\<close>,
    \<open>process_names_log\<close>, \<open>process_folder_log\<close>, \<open>main_loop_log\<close> and
    \<open>main_log\<close> are the driver functions with their \<open>print\<close> calls (lines 146--147,
    152 and 177): each returns its result and the lines it printed, in order,
    composed by \<open>log_bind\<close>, which stops at an exception and keeps the lines
    printed before it. The lines are \<open>processed_line\<close> (with \<open>modes_str\<close> and
    \<open>opt_str\<close>, Python's \<open>str\<close> of \<open>int | None\<close>), \<open>skip_line\<close> and
    \<open>done_line\<close>; files are printed relative to the mod root by \<open>relpath\<close>
    (\<open>os.path.relpath\<close>: \<open>..\<close> for every component of the start below the
    common prefix, then the rest of the path). The logged functions have the
    results of the silent ones (\<open>main_log_result\<close>), so every property of
    \<open>Driver\<close> holds of them.
  \<^item> \<open>Floats\<close>: Python's binary64 arithmetic in \<open>int(round(255 * f))\<close>:
    \<open>to_double\<close> rounds a rational to the nearest double (its exponent
    \<open>fl_exp\<close> is proved right and its error at most half an ulp),
    \<open>py_float_mul\<close> rounds the product, and \<open>variant_targets_float\<close> is the
    conversion as Python computes it; it equals \<open>variant_targets\<close> on every
    configured variant (\<open>variant_targets_float_eq\<close>), the doubles of the six
    literals are the IEEE constants (\<open>VARIANTS_doubles\<close>), and \<open>255 * 0.1\<close> is
    exactly 25.5, which rounds to 26 (\<open>tie_product\<close>).
  \<^item> \<open>Export\<close>: \<open>export_icons.py\<close> over an oracle environment \<open>env\<close> (which
    paths exist, what each \<open>subprocess.run\<close> does): \<open>find_inkscape\<close>,
    \<open>export_svg_to_png\<close>, the loop \<open>export_loop\<close> and \<open>main_export\<close>, which
    returns the outcome and the trace of spawned command lines and printed lines
    (UTF-8 bytes), in order.

  \<^bold>\<open>What is proved.\<close> The detector: the two-mode, one-mode and no-mode cases of
  the specification (C1, C7, C8), the full top-two contract with its tie-break
  towards the larger alpha (C2), the histogram against a count of the pixels
  (C10), and bounds on the modes that show the script's \<open>low_mode == 0\<close> test
  is dead (C11). The remapper: the two-mode and one-mode rules at every pixel
  (C3, C4), preservation of size and colour channels (C5), the loop against the
  per-pixel rule (C6), fully transparent images unchanged (C9), what the
  diagnostic \<open>changed\<close> counts (C12), and an opaque RGB input made uniformly
  translucent (C32). The driver: the range of the 8-bit targets (C13), missing
  folders skipped (C14), the saved file is the remapped image (C15), the count of
  a folder (C16), a corrupt PNG aborting the folder (C17),
  the inputs under \<open>graphics/base\<close> never changed (C18), the reported total
  (C19), every output file of every variant being the remapped input at the
  mirrored path (C20), likewise the border image (C25), and when \<open>ensure_dir\<close>
  fails (C26). The export script: its exit status (C21), all three exports run in
  order (C22), the choice of the executable (C23), an escaping probe exception
  (C24) and the summary line it prints (C27). The driver's output: a normal run
  prints one \<open>Processed\<close> line per counted file and closes with the \<open>Done\<close>
  line of that total (C28), the two paths of a \<open>Processed\<close> line lead back,
  from the mod root, to the files read and written (C29), a run ended by an
  exception never prints the \<open>Done\<close> line (C30), and the diagnostic line
  reports the detected modes, the \<open>changed\<close> count and the lower target (C31).
  Further lemmas: a greyscale PNG without transparency is treated like the RGB
  one (\<open>transform_opaque_l\<close>); Python's float arithmetic yields the modelled
  targets (\<open>variant_targets_float_eq\<close>); the logged driver has the results of
  the silent one (\<open>main_log_result\<close>); and the tree invariant \<open>wf_fs\<close> is kept
  by \<open>add_entry\<close>, \<open>mkdirs\<close>, \<open>ensure_dir\<close> and \<open>save\<close>.

  \<^bold>\<open>Bounds and loops.\<close> Every loop of both scripts runs over a finite list
  (\<open>range(h)\<close>, \<open>range(w)\<close>, the 256 histogram cells, a sorted list, a
  directory listing, \<open>VARIANTS\<close>, the candidate paths, \<open>exports\<close>), so each is
  a structural \<open>fold\<close> or primitive recursion and no fuel is needed. Alpha values
  are 8-bit words, so every histogram index is in range (\<open>unat_u8_less\<close>); the
  targets \<open>round(255 * f)\<close> are in 0..255 for \<open>f\<close> in [0, 1], so
  \<open>word_of_int\<close> does not wrap (C13). The driver's model reads the fractions
  as exact rationals; \<open>Floats\<close> shows that Python's doubles give the same six
  targets. The recursion \<open>bits\<close> of \<open>Floats\<close> halves its argument and
  terminates by the measure \<open>nat n\<close>.

  \<^bold>\<open>Not modelled.\<close> The PNG byte format stays outside the model (chunks,
  compression, filters, CRCs): a file holds what \<open>Image.open\<close> decodes from it, in
  one of the 8-bit modes, or bytes Pillow cannot identify; the specification
  treats the codec as an external collaborator. Files of 1, 2, 4 or 16 bits per
  sample, interlacing and colour profiles are not distinguished, and writing is
  always the lossless RGBA file \<open>save\<close> stores. The traceback an uncaught
  exception prints on standard error, file permissions and symbolic links are not
  modelled: the filesystem model has no owners or modes, so a permission error
  cannot arise in it. Float overflow and subnormal doubles are outside
  \<open>to_double\<close>; no value of the program comes near them.
\<close>

end
